(* ===== verification/Prelude.thy ===== *)
theory Prelude
  imports Main "HOL-Library.Word" "HOL-Library.List_Lexorder"
begin

text \<open>
  Shared vocabulary of the development: Python text as lists of code points, bytes as
  \<open>8 word\<close>, the exceptions the script of \<^verbatim>\<open>src/main.py\<close> can raise as one
  datatype, the error-or-value result type with its bind, statements over a state that
  may not return, with the relation \<open>stmt_rel\<close> and its composition rules, and the generic lemmas on
  lists and sums that the component theories use.
\<close>

section \<open>Python text and bytes\<close>

text \<open>
  A Python \<^verbatim>\<open>str\<close> is a sequence of Unicode code points; Isabelle's \<open>char\<close> is a
  byte, so a code point is a \<open>nat\<close> here and a Python string a list of them. The OCR
  text this script logs is typically Japanese, so the distinction matters.
  \<open>ustr\<close> lifts an ASCII literal of Isabelle to a Python string.
\<close>

type_synonym codepoint = nat
type_synonym pystr = "codepoint list"
type_synonym byte = "8 word"

definition ustr :: "string \<Rightarrow> pystr" where
  "ustr s = map of_char s"

text \<open>
  The decimal digits of a natural number, most significant first, as
  \<^verbatim>\<open>int.__repr__\<close> and \<^verbatim>\<open>strftime\<close> print them.
\<close>

fun nat_digits :: "nat \<Rightarrow> pystr" where
  "nat_digits n = (if n < 10 then [48 + n] else nat_digits (n div 10) @ [48 + n mod 10])"

declare nat_digits.simps [simp del]

named_theorems py_simps "evaluation rules of the Python model"

section \<open>Exceptions and results\<close>

text \<open>
  Every exception the script can end with, named after the Python class that is raised.
  \<open>ServiceError\<close> stands for the Azure SDK's \<^verbatim>\<open>HttpResponseError\<close> and
  \<^verbatim>\<open>ServiceRequestError\<close> family, raised by the request and by the poller.
\<close>

datatype py_error =
    RuntimeError
  | FileNotFoundError
  | FileExistsError
  | IsADirectoryError
  | ServiceError
  | TypeError
  | AttributeError
  | UnicodeEncodeError

type_synonym 'a py_result = "py_error + 'a"

definition bindE :: "'a py_result \<Rightarrow> ('a \<Rightarrow> 'b py_result) \<Rightarrow> 'b py_result" where
  "bindE r f = (case r of Inl e \<Rightarrow> Inl e | Inr a \<Rightarrow> f a)"

section \<open>Loops over lists that may raise\<close>

text \<open>
  A list comprehension \<^verbatim>\<open>[f(x) for x in xs]\<close> evaluates \<open>f\<close> on the
  elements in order and propagates the first exception: \<open>mapE\<close>. The loop
  \<^verbatim>\<open>for x in xs: acc.append(f(x))\<close> does the same work on an accumulator:
  \<open>for_append\<close>. The first is the reference for the second.
\<close>

fun mapE :: "('a \<Rightarrow> 'b py_result) \<Rightarrow> 'a list \<Rightarrow> 'b list py_result" where
  "mapE f [] = Inr []"
| "mapE f (x # xs) = bindE (f x) (\<lambda>y. bindE (mapE f xs) (\<lambda>ys. Inr (y # ys)))"

fun for_append :: "('a \<Rightarrow> 'b py_result) \<Rightarrow> 'b list \<Rightarrow> 'a list \<Rightarrow> 'b list py_result" where
  "for_append f acc [] = Inr acc"
| "for_append f acc (x # xs) = bindE (f x) (\<lambda>y. for_append f (acc @ [y]) xs)"

section \<open>Statements that change a state, may raise, and may not return\<close>

text \<open>
  Module-level code runs statement after statement on the process's world (environment,
  file system, network, standard output). A statement is a function from the state to
  \<open>None\<close>, when it never returns, or to its result, an exception or a value, and the
  state after it: an exception leaves the effects done before it was raised and skips
  the rest, and a statement that does not return ends the run there.
\<close>

type_synonym ('s, 'a) py_stmt = "'s \<Rightarrow> ('a py_result \<times> 's) option"

definition returnS :: "'a \<Rightarrow> ('s, 'a) py_stmt" where
  "returnS a s = Some (Inr a, s)"

definition raiseS :: "py_error \<Rightarrow> ('s, 'a) py_stmt" where
  "raiseS e s = Some (Inl e, s)"

definition bindS :: "('s, 'a) py_stmt \<Rightarrow> ('a \<Rightarrow> ('s, 'b) py_stmt) \<Rightarrow> ('s, 'b) py_stmt" where
  "bindS m f s =
     (case m s of None \<Rightarrow> None | Some (Inl e, s') \<Rightarrow> Some (Inl e, s') | Some (Inr a, s') \<Rightarrow> f a s')"

text \<open>A relation between the state before and after every run of a statement that
  returns: the tool for invariants and frame conditions of composed statements.\<close>

definition stmt_rel :: "('s \<Rightarrow> 's \<Rightarrow> bool) \<Rightarrow> ('s, 'a) py_stmt \<Rightarrow> bool" where
  "stmt_rel R m \<longleftrightarrow> (\<forall>s r s'. m s = Some (r, s') \<longrightarrow> R s s')"

named_theorems stmt_rel_intros "composition rules for stmt_rel"

section \<open>Lemmas\<close>

subsection \<open>Text\<close>

lemma ustr_Nil [simp, py_simps]: "ustr [] = []"
  by (simp add: ustr_def)

lemma ustr_Cons [simp, py_simps]: "ustr (c # s) = of_char c # ustr s"
  by (simp add: ustr_def)

lemma ustr_append [simp, py_simps]: "ustr (s @ t) = ustr s @ ustr t"
  by (simp add: ustr_def)

lemma length_ustr [simp]: "length (ustr s) = length s"
  by (simp add: ustr_def)

lemma ustr_ascii: "c \<in> set (ustr s) \<Longrightarrow> c < 256"
  by (auto simp: ustr_def of_char_def)

lemma nat_digits_range: "c \<in> set (nat_digits n) \<Longrightarrow> 48 \<le> c \<and> c \<le> 57"
proof (induction n rule: nat_digits.induct)
  case (1 n)
  then show ?case
    by (cases "n < 10") (auto simp: nat_digits.simps [of n])
qed

subsection \<open>Results\<close>

lemma bindE_Inl [simp, py_simps]: "bindE (Inl e) f = Inl e"
  by (simp add: bindE_def)

lemma bindE_Inr [simp, py_simps]: "bindE (Inr a) f = f a"
  by (simp add: bindE_def)

lemma bindE_eq_Inr_iff:
  "bindE r f = Inr b \<longleftrightarrow> (\<exists>a. r = Inr a \<and> f a = Inr b)"
  by (cases r) auto

lemma bindE_eq_Inl_iff:
  "bindE r f = Inl e \<longleftrightarrow> r = Inl e \<or> (\<exists>a. r = Inr a \<and> f a = Inl e)"
  by (cases r) auto

subsection \<open>Loops\<close>

lemma for_append_mapE: "for_append f acc xs = bindE (mapE f xs) (\<lambda>ys. Inr (acc @ ys))"
  by (induction xs arbitrary: acc) (auto simp: bindE_def split: sum.splits)

lemma mapE_Inr_iff: "mapE f xs = Inr ys \<longleftrightarrow> list_all2 (\<lambda>x y. f x = Inr y) xs ys"
proof (induction xs arbitrary: ys)
  case Nil
  then show ?case by auto
next
  case (Cons x xs)
  then show ?case
    by (cases ys) (auto simp: bindE_eq_Inr_iff)
qed

lemma mapE_Inr_map [simp]: "mapE (\<lambda>x. Inr (g x)) xs = Inr (map g xs)"
  by (induction xs) auto

lemma mapE_cong_Inr:
  "(\<And>x. x \<in> set xs \<Longrightarrow> f x = Inr (g x)) \<Longrightarrow> mapE f xs = Inr (map g xs)"
  by (induction xs) auto

lemma mapE_append:
  "mapE f (xs @ ys) = bindE (mapE f xs) (\<lambda>as. bindE (mapE f ys) (\<lambda>bs. Inr (as @ bs)))"
  by (induction xs) (auto simp: bindE_def split: sum.splits)

lemma mapE_first_error:
  "\<forall>x \<in> set xs. \<exists>y. f x = Inr y \<Longrightarrow> f z = Inl e \<Longrightarrow> mapE f (xs @ z # zs) = Inl e"
  by (induction xs) auto

text \<open>
  The shape every step of the transformation has: it succeeds with \<open>g x\<close> on the
  elements satisfying \<open>P\<close> and raises \<open>err x\<close> on the others. A comprehension
  of such a step raises the error of the first element that fails.
\<close>

lemma mapE_if:
  assumes "\<And>x. x \<in> set xs \<Longrightarrow> f x = (if P x then Inr (g x) else Inl (err x))"
  shows "mapE f xs = (case find (\<lambda>x. \<not> P x) xs of None \<Rightarrow> Inr (map g xs) | Some x \<Rightarrow> Inl (err x))"
  using assms by (induction xs) (auto split: option.splits)

lemma find_None_list_all: "find (\<lambda>x. \<not> P x) xs = None \<longleftrightarrow> list_all P xs"
  by (induction xs) auto

lemma mapE_if_list_all:
  assumes "\<And>x. x \<in> set xs \<Longrightarrow> f x = (if P x then Inr (g x) else Inl (err x))"
  shows "mapE f xs = (if list_all P xs then Inr (map g xs)
                      else Inl (err (the (find (\<lambda>x. \<not> P x) xs))))"
proof -
  have eq: "mapE f xs = (case find (\<lambda>x. \<not> P x) xs of
                           None \<Rightarrow> Inr (map g xs) | Some x \<Rightarrow> Inl (err x))"
    using assms by (rule mapE_if)
  show ?thesis
    using eq find_None_list_all [of P xs] by (auto split: option.splits)
qed

subsection \<open>Lists and options\<close>

lemma fold_append_acc: "fold (\<lambda>x acc. acc @ [f x]) xs acc = acc @ map f xs"
  by (induction xs arbitrary: acc) auto

lemma those_map_Some_imp:
  assumes "those (map f xs) = Some ys"
    and "\<And>x y. x \<in> set xs \<Longrightarrow> f x = Some y \<Longrightarrow> P x \<and> g x = h y"
  shows "list_all P xs \<and> map g xs = map h ys"
  using assms
proof (induction xs arbitrary: ys)
  case Nil
  then show ?case by simp
next
  case (Cons x xs)
  from Cons.prems(1) obtain y ys' where fx: "f x = Some y" and rest: "those (map f xs) = Some ys'"
    and ys: "ys = y # ys'"
    by (auto split: option.splits)
  have "list_all P xs \<and> map g xs = map h ys'"
    using rest Cons.prems(2) by (intro Cons.IH) auto
  moreover have "P x \<and> g x = h y"
    using fx Cons.prems(2) by simp
  ultimately show ?case using ys by simp
qed

subsection \<open>Statements\<close>

lemma returnS_bindS [simp]: "bindS (returnS a) f = f a"
  by (rule ext) (simp add: bindS_def returnS_def)

lemma raiseS_bindS [simp]: "bindS (raiseS e) f = raiseS e"
  by (rule ext) (simp add: bindS_def raiseS_def)

lemma bindS_assoc: "bindS (bindS m f) g = bindS m (\<lambda>a. bindS (f a) g)"
  by (rule ext) (simp add: bindS_def split: option.splits prod.splits sum.splits)

lemma bindS_None [simp]: "m s = None \<Longrightarrow> bindS m f s = None"
  by (simp add: bindS_def)

lemma bindS_Inl [simp]: "m s = Some (Inl e, s') \<Longrightarrow> bindS m f s = Some (Inl e, s')"
  by (simp add: bindS_def)

lemma bindS_Inr [simp]: "m s = Some (Inr a, s') \<Longrightarrow> bindS m f s = f a s'"
  by (simp add: bindS_def)

lemma bindS_None_iff: "bindS m f s = None \<longleftrightarrow> m s = None \<or> (\<exists>a s'. m s = Some (Inr a, s') \<and> f a s' = None)"
  by (auto simp: bindS_def split: option.splits sum.splits)

lemma bindS_SomeE:
  assumes "bindS m f s = Some (r, s'')"
  obtains e where "m s = Some (Inl e, s'')" "r = Inl e"
    | a s' where "m s = Some (Inr a, s')" "f a s' = Some (r, s'')"
  using assms by (cases "m s") (auto simp: bindS_def split: sum.splits)

lemma stmt_relD: "stmt_rel R m \<Longrightarrow> m s = Some (r, s') \<Longrightarrow> R s s'"
  by (simp add: stmt_rel_def)

lemma stmt_rel_returnS [stmt_rel_intros]: "reflp R \<Longrightarrow> stmt_rel R (returnS a)"
  by (simp add: stmt_rel_def returnS_def reflpD)

lemma stmt_rel_raiseS [stmt_rel_intros]: "reflp R \<Longrightarrow> stmt_rel R (raiseS e)"
  by (simp add: stmt_rel_def raiseS_def reflpD)

lemma stmt_rel_bindS [stmt_rel_intros]:
  assumes "transp R" "stmt_rel R m" "\<And>a. stmt_rel R (f a)"
  shows "stmt_rel R (bindS m f)"
  unfolding stmt_rel_def
proof (intro allI impI)
  fix s r s''
  assume "bindS m f s = Some (r, s'')"
  then show "R s s''"
  proof (cases rule: bindS_SomeE)
    case (1 e)
    then show ?thesis using assms(2) by (blast dest: stmt_relD)
  next
    case (2 a s')
    then show ?thesis using assms by (blast dest: stmt_relD transpD)
  qed
qed

lemma stmt_rel_read: "(\<And>x. stmt_rel R (h x)) \<Longrightarrow> stmt_rel R (\<lambda>s. h (q s) s)"
  by (simp add: stmt_rel_def)

lemma stmt_rel_case_prod [stmt_rel_intros]:
  "(\<And>x y. stmt_rel R (h x y)) \<Longrightarrow> stmt_rel R (case p of (x, y) \<Rightarrow> h x y)"
  by (cases p) simp

lemma stmt_rel_Let [stmt_rel_intros]: "stmt_rel R (h a) \<Longrightarrow> stmt_rel R (Let a h)"
  by simp

end
