(* ===== verification/Py_Value.thy ===== *)
theory Py_Value
  imports Prelude
begin

text \<open>
  The Python values the script builds in \<^verbatim>\<open>result_dict\<close> (\<^verbatim>\<open>src/main.py\<close>,
  lines 63--88) and hands to \<^verbatim>\<open>json.dump\<close>: \<^verbatim>\<open>None\<close>, \<^verbatim>\<open>int\<close>,
  \<^verbatim>\<open>float\<close>, \<^verbatim>\<open>str\<close>, \<^verbatim>\<open>list\<close> and \<^verbatim>\<open>dict\<close>. A dict keeps its
  insertion order, so it is an association list. Floats are left abstract (type
  variable \<open>'f\<close>): the script only copies them.
\<close>

datatype 'f pyval =
    PyNone
  | PyInt int
  | PyFloat 'f
  | PyStr pystr
  | PyList "'f pyval list"
  | PyDict "(pystr \<times> 'f pyval) list"

text \<open>An optional SDK attribute read into a dict: \<^verbatim>\<open>None\<close> stays \<^verbatim>\<open>None\<close>.\<close>

definition py_opt :: "('a \<Rightarrow> 'f pyval) \<Rightarrow> 'a option \<Rightarrow> 'f pyval" where
  "py_opt f v = (case v of None \<Rightarrow> PyNone | Some a \<Rightarrow> f a)"

text \<open>Reading \<^verbatim>\<open>d[k]\<close> and \<^verbatim>\<open>xs[i]\<close> back, for stating properties of a built value.\<close>

fun py_key :: "'f pyval \<Rightarrow> pystr \<Rightarrow> 'f pyval option" where
  "py_key (PyDict kvs) k = map_of kvs k"
| "py_key _ k = None"

text \<open>A subscript path such as \<^verbatim>\<open>d["pages"][0]["lines"]\<close>.\<close>

datatype py_index = Key pystr | Idx nat

fun py_get :: "'f pyval \<Rightarrow> py_index list \<Rightarrow> 'f pyval option" where
  "py_get v [] = Some v"
| "py_get (PyDict kvs) (Key k # p) = (case map_of kvs k of None \<Rightarrow> None | Some v \<Rightarrow> py_get v p)"
| "py_get (PyList vs) (Idx i # p) = (if i < length vs then py_get (vs ! i) p else None)"
| "py_get v (i # p) = None"

fun py_items :: "'f pyval \<Rightarrow> 'f pyval list option" where
  "py_items (PyList vs) = Some vs"
| "py_items _ = None"

lemma py_opt_simps [simp, py_simps]:
  "py_opt f None = PyNone" "py_opt f (Some a) = f a"
  by (simp_all add: py_opt_def)

end
