(* ===== verification/Json_Dump.thy ===== *)
theory Json_Dump
  imports Py_Value
begin

text \<open>
  The serialisation of line 95 of \<^verbatim>\<open>src/main.py\<close>,
  \<^verbatim>\<open>json.dump(result_dict, log_file, ensure_ascii=False, indent=2)\<close>, as CPython's
  \<^verbatim>\<open>json\<close> package performs it: \<^verbatim>\<open>json.dump\<close> writes, one \<^verbatim>\<open>write\<close>
  call each, the chunks that \<^verbatim>\<open>JSONEncoder.iterencode\<close> yields, and with an
  indent that is \<^verbatim>\<open>_make_iterencode\<close> of \<^verbatim>\<open>json/encoder.py\<close> with
  \<^verbatim>\<open>_indent = '  '\<close>, \<^verbatim>\<open>_item_separator = ','\<close>,
  \<^verbatim>\<open>_key_separator = ': '\<close>, and, since \<^verbatim>\<open>ensure_ascii\<close> is false,
  \<^verbatim>\<open>_encoder = encode_basestring\<close>, which escapes only the quote, the backslash
  and the control characters and leaves every other code point as it is.
  Floats are printed by a parameter \<open>fr\<close>, the encoder's \<^verbatim>\<open>floatstr\<close>
  (\<^verbatim>\<open>float.__repr__\<close> with \<^verbatim>\<open>NaN\<close> and \<^verbatim>\<open>Infinity\<close> for the special values).
\<close>

section \<open>Strings: encode_basestring\<close>

text \<open>Lower-case hexadecimal digit, as \<^verbatim>\<open>'{0:04x}'.format(i)\<close> prints it.\<close>

definition hex_digit :: "nat \<Rightarrow> codepoint" where
  "hex_digit n = (if n < 10 then 48 + n else 87 + n)"

text \<open>
  \<^verbatim>\<open>ESCAPE_DCT\<close>: the seven two-character escapes, and \<^verbatim>\<open>\u00XX\<close> for the
  other code points below 32. Code points: 92 backslash, 34 quote, 8 \<^verbatim>\<open>\b\<close>,
  12 \<^verbatim>\<open>\f\<close>, 10 \<^verbatim>\<open>\n\<close>, 13 \<^verbatim>\<open>\r\<close>, 9 \<^verbatim>\<open>\t\<close>.
\<close>

definition escape_char :: "codepoint \<Rightarrow> pystr" where
  "escape_char c =
     (if c = 92 then [92, 92]
      else if c = 34 then [92, 34]
      else if c = 8 then 92 # ustr ''b''
      else if c = 12 then 92 # ustr ''f''
      else if c = 10 then 92 # ustr ''n''
      else if c = 13 then 92 # ustr ''r''
      else if c = 9 then 92 # ustr ''t''
      else if c < 32 then 92 # ustr ''u00'' @ [hex_digit (c div 16), hex_digit (c mod 16)]
      else [c])"

text \<open>\<^verbatim>\<open>py_encode_basestring(s) = '"' + ESCAPE.sub(replace, s) + '"'\<close>.\<close>

definition encode_basestring :: "pystr \<Rightarrow> pystr" where
  "encode_basestring s = [34] @ concat (map escape_char s) @ [34]"

section \<open>Integers: int.__repr__\<close>

text \<open>The decimal digits \<open>nat_digits\<close> are in the prelude.\<close>

definition int_repr :: "int \<Rightarrow> pystr" where
  "int_repr i = (if i < 0 then 45 # nat_digits (nat (- i)) else nat_digits (nat i))"

section \<open>The chunks of _make_iterencode\<close>

text \<open>\<^verbatim>\<open>'\n' + _indent * _current_indent_level\<close>.\<close>

definition newline_indent :: "nat \<Rightarrow> pystr" where
  "newline_indent lvl = 10 # replicate (2 * lvl) 32"

text \<open>
  The values \<^verbatim>\<open>_iterencode\<close> prints in one piece (\<^verbatim>\<open>str\<close>, \<^verbatim>\<open>None\<close>,
  \<^verbatim>\<open>int\<close>, \<^verbatim>\<open>float\<close>), and their text.
\<close>

fun is_container :: "'f pyval \<Rightarrow> bool" where
  "is_container (PyList vs) = True"
| "is_container (PyDict kvs) = True"
| "is_container v = False"

fun scalar_text :: "('f \<Rightarrow> pystr) \<Rightarrow> 'f pyval \<Rightarrow> pystr" where
  "scalar_text fr PyNone = ustr ''null''"
| "scalar_text fr (PyInt i) = int_repr i"
| "scalar_text fr (PyFloat f) = fr f"
| "scalar_text fr (PyStr s) = encode_basestring s"
| "scalar_text fr v = []"

text \<open>
  \<open>iterencode fr lvl v\<close> is the list of chunks \<^verbatim>\<open>_iterencode(v, lvl)\<close> yields.
  \<open>list_items fr lvl buf vs\<close> is the loop of \<^verbatim>\<open>_iterencode_list\<close> at the inner
  level \<open>lvl\<close>: a scalar is yielded glued to \<^verbatim>\<open>buf\<close>, a container after
  \<^verbatim>\<open>buf\<close> on its own; from the second item on, \<^verbatim>\<open>buf\<close> is the separator.
  \<open>dict_items\<close> is the loop of \<^verbatim>\<open>_iterencode_dict\<close>: the item separator
  before every item but the first, then key, key separator and value.
\<close>

fun iterencode :: "('f \<Rightarrow> pystr) \<Rightarrow> nat \<Rightarrow> 'f pyval \<Rightarrow> pystr list"
and list_items :: "('f \<Rightarrow> pystr) \<Rightarrow> nat \<Rightarrow> pystr \<Rightarrow> 'f pyval list \<Rightarrow> pystr list"
and dict_items :: "('f \<Rightarrow> pystr) \<Rightarrow> nat \<Rightarrow> bool \<Rightarrow> (pystr \<times> 'f pyval) list \<Rightarrow> pystr list"
where
  "iterencode fr lvl (PyList []) = [ustr ''[]'']"
| "iterencode fr lvl (PyList (v # vs)) =
     list_items fr (Suc lvl) (ustr ''['' @ newline_indent (Suc lvl)) (v # vs)
     @ [newline_indent lvl, ustr '']'']"
| "iterencode fr lvl (PyDict []) = [ustr ''{}'']"
| "iterencode fr lvl (PyDict (kv # kvs)) =
     [ustr ''{'', newline_indent (Suc lvl)] @ dict_items fr (Suc lvl) True (kv # kvs)
     @ [newline_indent lvl, ustr ''}'']"
| "iterencode fr lvl PyNone = [scalar_text fr PyNone]"
| "iterencode fr lvl (PyInt i) = [scalar_text fr (PyInt i)]"
| "iterencode fr lvl (PyFloat f) = [scalar_text fr (PyFloat f)]"
| "iterencode fr lvl (PyStr s) = [scalar_text fr (PyStr s)]"
| "list_items fr lvl buf [] = []"
| "list_items fr lvl buf (v # vs) =
     (if is_container v then buf # iterencode fr lvl v else [buf @ scalar_text fr v])
     @ list_items fr lvl (ustr '','' @ newline_indent lvl) vs"
| "dict_items fr lvl first [] = []"
| "dict_items fr lvl first ((k, v) # kvs) =
     (if first then [] else [ustr '','' @ newline_indent lvl])
     @ [encode_basestring k, ustr '': '']
     @ (if is_container v then iterencode fr lvl v else [scalar_text fr v])
     @ dict_items fr lvl False kvs"

text \<open>The text \<^verbatim>\<open>json.dump\<close> writes: the chunks, in order, from level 0.\<close>

definition dumps :: "('f \<Rightarrow> pystr) \<Rightarrow> 'f pyval \<Rightarrow> pystr" where
  "dumps fr v = concat (iterencode fr 0 v)"

text \<open>The reference for the layout: the number of line breaks that \<^verbatim>\<open>indent=2\<close>
  puts into the text of a value. A non-empty list or dict of \<open>n\<close> items has one
  before each item and one before its closing bracket; scalars and empty containers
  have none.\<close>

fun layout_breaks :: "'f pyval \<Rightarrow> nat" where
  "layout_breaks (PyList vs) = (if vs = [] then 0 else Suc (length vs) + sum_list (map layout_breaks vs))"
| "layout_breaks (PyDict kvs) =
     (if kvs = [] then 0 else Suc (length kvs) + sum_list (map (\<lambda>(k, w). layout_breaks w) kvs))"
| "layout_breaks v = 0"

text \<open>The control characters of a text, in order.\<close>

definition controls :: "pystr \<Rightarrow> pystr" where
  "controls t = filter (\<lambda>c. c < 32) t"

section \<open>Lemmas\<close>

lemma iterencode_scalar: "\<not> is_container v \<Longrightarrow> iterencode fr lvl v = [scalar_text fr v]"
  by (cases v) simp_all

lemma list_items_Cons_concat:
  "concat (list_items fr lvl buf (v # vs)) =
     buf @ concat (iterencode fr lvl v) @ concat (list_items fr lvl (ustr '','' @ newline_indent lvl) vs)"
  by (cases "is_container v") (simp_all add: iterencode_scalar)

lemma dict_items_Cons_concat:
  "concat (dict_items fr lvl first ((k, v) # kvs)) =
     (if first then [] else ustr '','' @ newline_indent lvl) @ encode_basestring k @ ustr '': ''
     @ concat (iterencode fr lvl v) @ concat (dict_items fr lvl False kvs)"
  by (cases "is_container v") (simp_all add: iterencode_scalar)

lemma escape_char_ge: "d \<in> set (escape_char c) \<Longrightarrow> 32 \<le> d"
  by (auto simp: escape_char_def hex_digit_def split: if_splits)

lemma controls_append [simp]: "controls (xs @ ys) = controls xs @ controls ys"
  by (simp add: controls_def)

lemma controls_Cons [simp]: "controls (c # ys) = (if c < 32 then c # controls ys else controls ys)"
  by (simp add: controls_def)

lemma controls_Nil [simp]: "controls [] = []"
  by (simp add: controls_def)

lemma int_repr_controls: "controls (int_repr i) = []"
  using nat_digits_range by (fastforce simp: int_repr_def controls_def filter_empty_conv)

lemma encode_basestring_controls: "controls (encode_basestring s) = []"
  using escape_char_ge by (fastforce simp: encode_basestring_def controls_def filter_empty_conv)

lemma newline_indent_controls [simp]: "controls (newline_indent l) = [10]"
  by (simp add: newline_indent_def controls_def)

lemma replicate_10_Cons: "10 # replicate a 10 @ replicate b 10 = replicate (Suc (a + b)) (10::nat)"
  by (simp add: replicate_add)

lemma list_items_controls:
  "(\<And>w. w \<in> set vs \<Longrightarrow> controls (concat (iterencode fr l w)) = replicate (layout_breaks w) 10) \<Longrightarrow>
   controls buf = [10] \<Longrightarrow>
   controls (concat (list_items fr l buf vs)) = replicate (length vs + sum_list (map layout_breaks vs)) 10"
proof (induction vs arbitrary: buf)
  case (Cons v vs)
  have "controls (concat (list_items fr l (ustr '','' @ newline_indent l) vs)) =
        replicate (length vs + sum_list (map layout_breaks vs)) 10"
    by (rule Cons.IH) (simp_all add: Cons.prems ustr_def)
  then show ?case
    using Cons.prems by (simp add: list_items_Cons_concat replicate_10_Cons ac_simps del: list_items.simps)
qed simp

lemma dict_items_controls:
  "(\<And>k w. (k, w) \<in> set kvs \<Longrightarrow> controls (concat (iterencode fr l w)) = replicate (layout_breaks w) 10) \<Longrightarrow>
   controls (concat (dict_items fr l first kvs)) =
     replicate ((if first then length kvs - 1 else length kvs) + sum_list (map (\<lambda>(k, w). layout_breaks w) kvs)) 10"
proof (induction kvs arbitrary: first)
  case (Cons kv kvs)
  obtain k w where kv: "kv = (k, w)" by (cases kv)
  have IH: "controls (concat (dict_items fr l False kvs)) =
      replicate (length kvs + sum_list (map (\<lambda>(k, w). layout_breaks w) kvs)) 10"
    using Cons.IH [of False] Cons.prems by auto
  have "controls (concat (iterencode fr l w)) = replicate (layout_breaks w) 10"
    using Cons.prems [of k w] kv by simp
  with IH kv show ?case
    by (simp add: dict_items_Cons_concat encode_basestring_controls ustr_def replicate_10_Cons replicate_add [symmetric] ac_simps
             del: dict_items.simps)
qed simp

lemma iterencode_controls:
  "\<forall>f \<in> set_pyval v. controls (fr f) = [] \<Longrightarrow>
   controls (concat (iterencode fr lvl v)) = replicate (layout_breaks v) 10"
proof (induction v arbitrary: lvl)
  case (PyList xs)
  have "\<And>w l. w \<in> set xs \<Longrightarrow> controls (concat (iterencode fr l w)) = replicate (layout_breaks w) 10"
    using PyList by auto
  then have "controls (concat (list_items fr (Suc lvl) (ustr ''['' @ newline_indent (Suc lvl)) xs)) =
      replicate (length xs + sum_list (map layout_breaks xs)) 10"
    by (intro list_items_controls) (simp_all add: ustr_def)
  then show ?case
    by (cases xs) (simp_all add: ustr_def replicate_append_same del: list_items.simps)
next
  case (PyDict kvs)
  have "\<And>k w l. (k, w) \<in> set kvs \<Longrightarrow> controls (concat (iterencode fr l w)) = replicate (layout_breaks w) 10"
    using PyDict by fastforce
  then have "controls (concat (dict_items fr (Suc lvl) True kvs)) =
      replicate (length kvs - 1 + sum_list (map (\<lambda>(k, w). layout_breaks w) kvs)) 10"
    using dict_items_controls [of kvs fr "Suc lvl" True] by simp
  then show ?case
    by (cases kvs) (simp_all add: ustr_def replicate_append_same del: dict_items.simps)
qed (simp_all add: int_repr_controls encode_basestring_controls ustr_def)

section \<open>Properties of the encoder\<close>

text \<open>
  C11. With \<^verbatim>\<open>ensure_ascii=False\<close> a string that holds no quote, backslash or
  control character is written as it is between quotes: non-ASCII text (the Japanese
  of an OCR result) reaches the log literally, not as \<^verbatim>\<open>\uXXXX\<close> escapes.
\<close>

theorem encode_basestring_verbatim:
  "list_all (\<lambda>c. 32 \<le> c \<and> c \<noteq> 34 \<and> c \<noteq> 92) s \<Longrightarrow> encode_basestring s = 34 # s @ [34]"
proof -
  assume "list_all (\<lambda>c. 32 \<le> c \<and> c \<noteq> 34 \<and> c \<noteq> 92) s"
  then have "concat (map escape_char s) = s"
    by (induction s) (auto simp: escape_char_def)
  then show ?thesis by (simp add: encode_basestring_def)
qed

theorem encode_basestring_verbatim_witness:
  "list_all (\<lambda>c. 32 \<le> c \<and> c \<noteq> 34 \<and> c \<noteq> 92) [26085 :: codepoint, 26412, 35486] \<and>
   encode_basestring [26085, 26412, 35486] = [34, 26085, 26412, 35486, 34]"
  using encode_basestring_verbatim [of "[26085, 26412, 35486]"] by simp

text \<open>
  C12. The only control characters in the text \<^verbatim>\<open>json.dump\<close> writes are the
  newlines of the indentation, and there is exactly one per line break of the
  \<^verbatim>\<open>indent=2\<close> layout: every control character inside a string, the newline
  included, is escaped, so each line of the log file is one line of the JSON layout.
\<close>

theorem dumps_controls:
  "\<forall>f \<in> set_pyval v. controls (fr f) = [] \<Longrightarrow> controls (dumps fr v) = replicate (layout_breaks v) 10"
  unfolding dumps_def by (rule iterencode_controls)

theorem dumps_controls_witness:
  "set_pyval (PyList [PyStr [10, 1], PyFloat (2::int)]) = {2} \<and> controls (int_repr 2) = [] \<and>
   controls (dumps int_repr (PyList [PyStr [10, 1], PyFloat (2::int)])) = [10, 10, 10]"
proof -
  have h: "\<forall>f \<in> set_pyval (PyList [PyStr [10, 1], PyFloat (2::int)]). controls (int_repr f) = []"
    by (simp add: int_repr_controls)
  show ?thesis using dumps_controls [OF h] by (simp add: int_repr_controls numeral_eq_Suc)
qed

end
