(* ===== verification/Json_Load.thy ===== *)
theory Json_Load
  imports Json_Dump
begin

text \<open>
  A reader for the JSON text that \<^verbatim>\<open>json.dump\<close> writes at line 95 of
  \<^verbatim>\<open>src/main.py\<close>, as a reference for what the log file means: RFC 8259 values
  over code points (objects as association lists in file order, strings with all the
  standard escapes, integers, and floats through a reader parameter \<open>fread\<close>), and
  the round trip \<open>json_loads fread (dumps fr v) = Some v\<close> for every value whose floats
  print as number tokens that \<open>fread\<close> reads back. The reader recurses on a fuel
  argument; \<open>json_loads\<close> gives it the length of the text plus one, which the
  round-trip proof shows is enough (\<open>size_le_text\<close>).
\<close>

section \<open>The reader\<close>

definition is_digit :: "codepoint \<Rightarrow> bool" where
  "is_digit c \<longleftrightarrow> 48 \<le> c \<and> c \<le> 57"

definition num_char :: "codepoint \<Rightarrow> bool" where
  "num_char c \<longleftrightarrow> is_digit c \<or> c = 43 \<or> c = 45 \<or> c = 46 \<or> c = 69 \<or> c = 101"

definition is_ws :: "codepoint \<Rightarrow> bool" where
  "is_ws c \<longleftrightarrow> c = 32 \<or> c = 10 \<or> c = 13 \<or> c = 9"

fun skip_ws :: "pystr \<Rightarrow> pystr" where
  "skip_ws [] = []"
| "skip_ws (c # s) = (if is_ws c then skip_ws s else c # s)"

definition digits_val :: "pystr \<Rightarrow> nat" where
  "digits_val ds = foldl (\<lambda>n d. 10 * n + (d - 48)) 0 ds"

definition read_int :: "pystr \<Rightarrow> int option" where
  "read_int t =
     (case t of
        [] \<Rightarrow> None
      | c # ds \<Rightarrow>
          if c = 45 then (if ds \<noteq> [] \<and> list_all is_digit ds then Some (- int (digits_val ds)) else None)
          else if list_all is_digit t then Some (int (digits_val t)) else None)"

definition hex_val :: "codepoint \<Rightarrow> nat" where
  "hex_val c =
     (if is_digit c then c - 48
      else if 97 \<le> c \<and> c \<le> 102 then c - 87
      else if 65 \<le> c \<and> c \<le> 70 then c - 55
      else 16)"

definition hex4 :: "pystr \<Rightarrow> codepoint" where
  "hex4 ds = foldl (\<lambda>n d. 16 * n + hex_val d) 0 ds"

definition unescape :: "codepoint \<Rightarrow> codepoint option" where
  "unescape e =
     (if e = 34 then Some 34 else if e = 92 then Some 92 else if e = 47 then Some 47
      else if e = 98 then Some 8 else if e = 102 then Some 12 else if e = 110 then Some 10
      else if e = 114 then Some 13 else if e = 116 then Some 9 else None)"

fun parse_chars :: "pystr \<Rightarrow> (pystr \<times> pystr) option" where
  "parse_chars [] = None"
| "parse_chars (c # r) =
     (if c = 34 then Some ([], r)
      else if c = 92 then
        (case r of
           [] \<Rightarrow> None
         | e # r' \<Rightarrow>
             if e = 117 then
               (if 4 \<le> length r' \<and> list_all (\<lambda>d. hex_val d < 16) (take 4 r')
                then map_option (\<lambda>(s, rest). (hex4 (take 4 r') # s, rest)) (parse_chars (drop 4 r'))
                else None)
             else
               (case unescape e of
                  None \<Rightarrow> None
                | Some u \<Rightarrow> map_option (\<lambda>(s, rest). (u # s, rest)) (parse_chars r')))
      else if c < 32 then None
      else map_option (\<lambda>(s, rest). (c # s, rest)) (parse_chars r))"

fun parse_value :: "(pystr \<Rightarrow> 'f option) \<Rightarrow> nat \<Rightarrow> pystr \<Rightarrow> ('f pyval \<times> pystr) option"
and parse_elems :: "(pystr \<Rightarrow> 'f option) \<Rightarrow> nat \<Rightarrow> pystr \<Rightarrow> ('f pyval list \<times> pystr) option"
and parse_members ::
  "(pystr \<Rightarrow> 'f option) \<Rightarrow> nat \<Rightarrow> pystr \<Rightarrow> ((pystr \<times> 'f pyval) list \<times> pystr) option"
where
  "parse_value fread 0 s = None"
| "parse_value fread (Suc n) s =
     (case skip_ws s of
        [] \<Rightarrow> None
      | c # r \<Rightarrow>
          if c = 34 then map_option (\<lambda>(t, rest). (PyStr t, rest)) (parse_chars r)
          else if c = 91 then
            (case skip_ws r of
               d # rest \<Rightarrow> if d = 93 then Some (PyList [], rest)
                            else map_option (\<lambda>(vs, rest). (PyList vs, rest)) (parse_elems fread n r)
             | [] \<Rightarrow> None)
          else if c = 123 then
            (case skip_ws r of
               d # rest \<Rightarrow> if d = 125 then Some (PyDict [], rest)
                            else map_option (\<lambda>(kvs, rest). (PyDict kvs, rest)) (parse_members fread n r)
             | [] \<Rightarrow> None)
          else if take 4 (c # r) = ustr ''null'' then Some (PyNone, drop 4 (c # r))
          else if c = 45 \<or> is_digit c then
            (case read_int (takeWhile num_char (c # r)) of
               Some i \<Rightarrow> Some (PyInt i, dropWhile num_char (c # r))
             | None \<Rightarrow> map_option (\<lambda>f. (PyFloat f, dropWhile num_char (c # r)))
                         (fread (takeWhile num_char (c # r))))
          else None)"
| "parse_elems fread 0 s = None"
| "parse_elems fread (Suc n) s =
     (case parse_value fread n s of
        None \<Rightarrow> None
      | Some (v, r) \<Rightarrow>
          (case skip_ws r of
             [] \<Rightarrow> None
           | d # r' \<Rightarrow>
               if d = 44 then map_option (\<lambda>(vs, rest). (v # vs, rest)) (parse_elems fread n r')
               else if d = 93 then Some ([v], r')
               else None))"
| "parse_members fread 0 s = None"
| "parse_members fread (Suc n) s =
     (case skip_ws s of
        [] \<Rightarrow> None
      | c # r \<Rightarrow>
          if c \<noteq> 34 then None
          else
            (case parse_chars r of
               None \<Rightarrow> None
             | Some (k, r1) \<Rightarrow>
                 (case skip_ws r1 of
                    [] \<Rightarrow> None
                  | d # r2 \<Rightarrow>
                      if d \<noteq> 58 then None
                      else
                        (case parse_value fread n r2 of
                           None \<Rightarrow> None
                         | Some (v, r3) \<Rightarrow>
                             (case skip_ws r3 of
                                [] \<Rightarrow> None
                              | e # r4 \<Rightarrow>
                                  if e = 44 then
                                    map_option (\<lambda>(kvs, rest). ((k, v) # kvs, rest))
                                      (parse_members fread n r4)
                                  else if e = 125 then Some ([(k, v)], r4)
                                  else None)))))"

text \<open>What a float's text must satisfy for the log to read back.\<close>

definition float_ok :: "('f \<Rightarrow> pystr) \<Rightarrow> (pystr \<Rightarrow> 'f option) \<Rightarrow> 'f \<Rightarrow> bool" where
  "float_ok fr fread f \<longleftrightarrow>
     fr f \<noteq> [] \<and> (hd (fr f) = 45 \<or> is_digit (hd (fr f))) \<and> list_all num_char (fr f)
     \<and> read_int (fr f) = None \<and> fread (fr f) = Some f"

definition stops_number :: "pystr \<Rightarrow> bool" where
  "stops_number rest \<longleftrightarrow> rest = [] \<or> \<not> num_char (hd rest)"

definition floats_ok :: "('f \<Rightarrow> pystr) \<Rightarrow> (pystr \<Rightarrow> 'f option) \<Rightarrow> 'f pyval \<Rightarrow> bool" where
  "floats_ok fr fread v \<longleftrightarrow> (\<forall>f \<in> set_pyval v. float_ok fr fread f)"

definition value_head :: "codepoint \<Rightarrow> bool" where
  "value_head c \<longleftrightarrow> c = 34 \<or> c = 91 \<or> c = 123 \<or> c = 110 \<or> c = 45 \<or> is_digit c"

text \<open>
  Python's \<^verbatim>\<open>repr\<close> of an integral float below $10^{16}$ is the integer followed by
  \<^verbatim>\<open>.0\<close> (\<^verbatim>\<open>repr(800.0) == '800.0'\<close>); with integers standing for such
  floats this is a concrete float printer and reader.
\<close>

definition int_float_repr :: "int \<Rightarrow> pystr" where
  "int_float_repr i = int_repr i @ ustr ''.0''"

definition int_float_read :: "pystr \<Rightarrow> int option" where
  "int_float_read t =
     (if 2 \<le> length t \<and> drop (length t - 2) t = ustr ''.0'' then read_int (take (length t - 2) t)
      else None)"

definition json_loads :: "(pystr \<Rightarrow> 'f option) \<Rightarrow> pystr \<Rightarrow> 'f pyval option" where
  "json_loads fread s =
     (case parse_value fread (Suc (length s)) s of
        None \<Rightarrow> None
      | Some (v, rest) \<Rightarrow> if skip_ws rest = [] then Some v else None)"

section \<open>Lemmas: the lexical layer\<close>

lemma skip_ws_append_ws: "list_all is_ws pre \<Longrightarrow> skip_ws (pre @ s) = skip_ws s"
  by (induction pre) auto

lemma skip_ws_Cons_non_ws [simp]: "\<not> is_ws c \<Longrightarrow> skip_ws (c # s) = c # s"
  by simp

lemma newline_indent_ws: "list_all is_ws (newline_indent l)"
  by (simp add: newline_indent_def is_ws_def list_all_iff)

lemma parse_value_ws: "list_all is_ws pre \<Longrightarrow> parse_value fread F (pre @ s) = parse_value fread F s"
  by (cases F) (simp_all add: skip_ws_append_ws)

lemma parse_value_ws_Cons: "is_ws c \<Longrightarrow> parse_value fread F (c # s) = parse_value fread F s"
  using parse_value_ws [of "[c]" fread F s] by simp

lemma hex_val_hex_digit [simp]: "n < 16 \<Longrightarrow> hex_val (hex_digit n) = n"
  by (auto simp: hex_val_def hex_digit_def is_digit_def)

lemma parse_chars_escape:
  "parse_chars (escape_char c @ r) = map_option (\<lambda>(s, rest). (c # s, rest)) (parse_chars r)"
proof -
  consider "c = 92" | "c = 34" | "c = 8" | "c = 12" | "c = 10" | "c = 13" | "c = 9"
    | "c < 32" "c \<noteq> 8" "c \<noteq> 12" "c \<noteq> 10" "c \<noteq> 13" "c \<noteq> 9"
    | "32 \<le> c" "c \<noteq> 92" "c \<noteq> 34"
    by linarith
  then show ?thesis
  proof cases
    case 8
    have d: "c div 16 < 16" "c mod 16 < 16" using 8 by auto
    have h48: "hex_val 48 = 0" by (simp add: hex_val_def is_digit_def)
    have "hex4 [48, 48, hex_digit (c div 16), hex_digit (c mod 16)] = 16 * (c div 16) + c mod 16"
      using d by (simp add: hex4_def h48)
    then have "hex4 [48, 48, hex_digit (c div 16), hex_digit (c mod 16)] = c"
      by simp
    moreover have "list_all (\<lambda>d. hex_val d < 16) [48, 48, hex_digit (c div 16), hex_digit (c mod 16)]"
      using d by (simp add: h48)
    ultimately show ?thesis
      using 8 by (simp add: escape_char_def)
  qed (simp_all add: escape_char_def unescape_def)
qed

lemma parse_chars_encoded:
  "parse_chars (concat (map escape_char s) @ 34 # rest) = Some (s, rest)"
  by (induction s) (simp_all add: parse_chars_escape)

lemma digits_val_snoc: "digits_val (xs @ [d]) = 10 * digits_val xs + (d - 48)"
  by (simp add: digits_val_def)

lemma nat_digits_props:
  "nat_digits n \<noteq> [] \<and> list_all is_digit (nat_digits n) \<and> digits_val (nat_digits n) = n"
proof (induction n rule: nat_digits.induct)
  case (1 n)
  show ?case
  proof (cases "n < 10")
    case True
    then show ?thesis by (simp add: nat_digits.simps is_digit_def digits_val_def)
  next
    case False
    with "1.IH" show ?thesis
      by (simp add: nat_digits.simps [of n] is_digit_def digits_val_snoc)
  qed
qed

lemma read_int_int_repr [simp]: "read_int (int_repr i) = Some i"
proof -
  obtain d ds where nd: "nat_digits (nat \<bar>i\<bar>) = d # ds"
    using nat_digits_props [of "nat \<bar>i\<bar>"] by (cases "nat_digits (nat \<bar>i\<bar>)") auto
  have dig: "list_all is_digit (d # ds)" "digits_val (d # ds) = nat \<bar>i\<bar>"
    using nat_digits_props [of "nat \<bar>i\<bar>"] nd by simp_all
  then have "d \<noteq> 45" by (simp add: is_digit_def)
  with nd dig show ?thesis
    by (auto simp: int_repr_def read_int_def)
qed

lemma int_repr_num_chars: "list_all num_char (int_repr i)"
  using nat_digits_props [of "nat (- i)"] nat_digits_props [of "nat i"]
  by (auto simp: int_repr_def num_char_def list_all_iff)

lemma int_repr_start: "int_repr i \<noteq> [] \<and> (hd (int_repr i) = 45 \<or> is_digit (hd (int_repr i)))"
  using nat_digits_props [of "nat (- i)"] nat_digits_props [of "nat i"]
  by (cases "nat_digits (nat i)") (auto simp: int_repr_def)

lemma take_drop_number:
  "list_all num_char t \<Longrightarrow> stops_number rest \<Longrightarrow>
   takeWhile num_char (t @ rest) = t \<and> dropWhile num_char (t @ rest) = rest"
proof (induction t)
  case Nil
  then show ?case by (cases rest) (auto simp: stops_number_def)
qed auto

section \<open>Lemmas: the chunk structure\<close>

lemma value_head_facts: "value_head c \<Longrightarrow> \<not> is_ws c \<and> c \<noteq> 93 \<and> c \<noteq> 125 \<and> c \<noteq> 44"
  by (auto simp: value_head_def is_ws_def is_digit_def)

lemma floats_ok_list: "floats_ok fr fread (PyList xs) \<Longrightarrow> w \<in> set xs \<Longrightarrow> floats_ok fr fread w"
  by (auto simp: floats_ok_def)

lemma floats_ok_dict:
  "floats_ok fr fread (PyDict kvs) \<Longrightarrow> (k, w) \<in> set kvs \<Longrightarrow> floats_ok fr fread w"
  by (fastforce simp: floats_ok_def)

lemma iterencode_head:
  "floats_ok fr fread v \<Longrightarrow> \<exists>c t. concat (iterencode fr lvl v) = c # t \<and> value_head c"
proof (cases v)
  case (PyInt i)
  then show ?thesis using int_repr_start [of i]
    by (cases "int_repr i") (auto simp: value_head_def)
next
  case (PyFloat f)
  assume "floats_ok fr fread v"
  with PyFloat have "float_ok fr fread f" by (simp add: floats_ok_def)
  with PyFloat show ?thesis
    by (cases "fr f") (auto simp: float_ok_def value_head_def)
next
  case (PyList xs)
  then show ?thesis
    by (cases xs) (auto simp: list_items_Cons_concat value_head_def)
next
  case (PyDict kvs)
  then show ?thesis
    by (cases kvs) (auto simp: value_head_def)
qed (simp_all add: value_head_def encode_basestring_def)

section \<open>Lemmas: parsing what the encoder wrote\<close>

lemma parse_number_token:
  assumes t: "t = c # t'" and hc: "c = 45 \<or> is_digit c" and nc: "list_all num_char t"
    and stop: "stops_number rest"
  shows "parse_value fread (Suc n) (t @ rest) =
           (case read_int t of
              Some i \<Rightarrow> Some (PyInt i, rest)
            | None \<Rightarrow> map_option (\<lambda>f. (PyFloat f, rest)) (fread t))"
proof -
  have c: "c \<noteq> 34 \<and> c \<noteq> 91 \<and> c \<noteq> 123 \<and> c \<noteq> 110 \<and> \<not> is_ws c \<and> num_char c"
    using hc by (auto simp: is_digit_def is_ws_def num_char_def)
  have td: "takeWhile num_char (t @ rest) = t \<and> dropWhile num_char (t @ rest) = rest"
    using nc stop by (rule take_drop_number)
  then have tw: "takeWhile num_char (c # t' @ rest) = t"
    and dw: "dropWhile num_char (c # t' @ rest) = rest"
    using t by simp_all
  have "parse_value fread (Suc n) (t @ rest) = parse_value fread (Suc n) (c # t' @ rest)"
    using t by simp
  also have "\<dots> = (case read_int (takeWhile num_char (c # t' @ rest)) of
                      Some i \<Rightarrow> Some (PyInt i, dropWhile num_char (c # t' @ rest))
                    | None \<Rightarrow> map_option (\<lambda>f. (PyFloat f, dropWhile num_char (c # t' @ rest)))
                                (fread (takeWhile num_char (c # t' @ rest))))"
    using c hc by (simp del: takeWhile.simps dropWhile.simps)
  also have "\<dots> = (case read_int t of
                      Some i \<Rightarrow> Some (PyInt i, rest)
                    | None \<Rightarrow> map_option (\<lambda>f. (PyFloat f, rest)) (fread t))"
    by (simp only: tw dw)
  finally show ?thesis .
qed

lemma parse_scalar:
  assumes "\<not> is_container v" "floats_ok fr fread v" "stops_number rest"
  shows "parse_value fread (Suc n) (scalar_text fr v @ rest) = Some (v, rest)"
proof (cases v)
  case (PyInt i)
  obtain c t where ct: "int_repr i = c # t" and hc: "c = 45 \<or> is_digit c"
    using int_repr_start [of i] by (cases "int_repr i") auto
  have "parse_value fread (Suc n) (int_repr i @ rest) =
          (case read_int (int_repr i) of
             Some i \<Rightarrow> Some (PyInt i, rest)
           | None \<Rightarrow> map_option (\<lambda>f. (PyFloat f, rest)) (fread (int_repr i)))"
    using ct hc int_repr_num_chars assms(3) by (rule parse_number_token)
  with PyInt show ?thesis by simp
next
  case (PyFloat f)
  with assms(2) have ok: "float_ok fr fread f" by (simp add: floats_ok_def)
  then obtain c t where ct: "fr f = c # t" and hc: "c = 45 \<or> is_digit c"
    by (cases "fr f") (auto simp: float_ok_def)
  have "parse_value fread (Suc n) (fr f @ rest) =
          (case read_int (fr f) of
             Some i \<Rightarrow> Some (PyInt i, rest)
           | None \<Rightarrow> map_option (\<lambda>f. (PyFloat f, rest)) (fread (fr f)))"
    using ct hc _ assms(3) by (rule parse_number_token) (use ok in \<open>simp add: float_ok_def\<close>)
  with PyFloat ok show ?thesis by (simp add: float_ok_def)
next
  case (PyStr s)
  then show ?thesis
    by (simp add: encode_basestring_def is_ws_def parse_chars_encoded)
qed (use assms in \<open>simp_all add: is_ws_def\<close>)

lemma parse_elems_items:
  assumes IH: "\<And>w F rest. w \<in> set (v # vs) \<Longrightarrow> size w \<le> F \<Longrightarrow> stops_number rest \<Longrightarrow>
                 parse_value fread F (concat (iterencode fr lvl w) @ rest) = Some (w, rest)"
    and ws: "list_all is_ws pre"
    and fuel: "size_list size (v # vs) \<le> F"
  shows "parse_elems fread F (pre @ concat (iterencode fr lvl v)
            @ concat (list_items fr lvl (ustr '','' @ newline_indent lvl) vs)
            @ newline_indent lvl' @ ustr '']'' @ rest) = Some (v # vs, rest)"
  using IH ws fuel
proof (induction vs arbitrary: v pre F)
  case Nil
  then obtain m where F: "F = Suc m" and sv: "size v \<le> m"
    by (cases F) auto
  have stop: "stops_number (newline_indent lvl' @ ustr '']'' @ rest)"
    by (simp add: newline_indent_def stops_number_def num_char_def is_digit_def)
  have pv: "parse_value fread m (concat (iterencode fr lvl v) @ newline_indent lvl' @ ustr '']'' @ rest)
              = Some (v, newline_indent lvl' @ ustr '']'' @ rest)"
    using Nil.prems(1) [of v m] sv stop by simp
  have sk: "skip_ws (newline_indent lvl' @ ustr '']'' @ rest) = 93 # rest"
    by (simp add: skip_ws_append_ws newline_indent_ws is_ws_def)
  show ?case
    using F pv sk Nil.prems(2) by (simp add: parse_value_ws)
next
  case (Cons v' vs')
  then obtain m where F: "F = Suc m" and sv: "size v \<le> m" and svs: "size_list size (v' # vs') \<le> m"
    by (cases F) auto
  let ?R = "concat (list_items fr lvl (ustr '','' @ newline_indent lvl) (v' # vs'))
            @ newline_indent lvl' @ ustr '']'' @ rest"
  let ?R' = "newline_indent lvl @ concat (iterencode fr lvl v')
            @ concat (list_items fr lvl (ustr '','' @ newline_indent lvl) vs')
            @ newline_indent lvl' @ ustr '']'' @ rest"
  have R: "?R = 44 # ?R'"
    by (simp add: list_items_Cons_concat del: list_items.simps)
  have pv: "parse_value fread m (concat (iterencode fr lvl v) @ ?R) = Some (v, ?R)"
    using Cons.prems(1) [of v m ?R] sv R by (simp add: stops_number_def num_char_def is_digit_def)
  have rest: "parse_elems fread m ?R' = Some (v' # vs', rest)"
    using Cons.IH [of v' "newline_indent lvl" m] Cons.prems(1) svs newline_indent_ws by simp
  show ?case
    using F pv rest R by (simp add: parse_value_ws [OF Cons.prems(2)] is_ws_def)
qed

lemma parse_members_items:
  assumes IH: "\<And>w F rest. w \<in> snd ` set ((k, v) # kvs) \<Longrightarrow> size w \<le> F \<Longrightarrow>
                 stops_number rest \<Longrightarrow>
                 parse_value fread F (concat (iterencode fr lvl w) @ rest) = Some (w, rest)"
    and ws: "list_all is_ws pre"
    and fuel: "size_list (size_prod (\<lambda>x. 0) size) ((k, v) # kvs) \<le> F"
  shows "parse_members fread F (pre @ encode_basestring k @ ustr '': '' @ concat (iterencode fr lvl v)
            @ concat (dict_items fr lvl False kvs)
            @ newline_indent lvl' @ ustr ''}'' @ rest) = Some ((k, v) # kvs, rest)"
  using IH ws fuel
proof (induction kvs arbitrary: k v pre F)
  case Nil
  then obtain m where F: "F = Suc m" and sv: "size v \<le> m"
    by (cases F) auto
  have stop: "stops_number (newline_indent lvl' @ ustr ''}'' @ rest)"
    by (simp add: newline_indent_def stops_number_def num_char_def is_digit_def)
  have pv: "parse_value fread m (concat (iterencode fr lvl v) @ newline_indent lvl' @ ustr ''}'' @ rest)
              = Some (v, newline_indent lvl' @ ustr ''}'' @ rest)"
    using Nil.prems(1) [of v m] sv stop by simp
  have sk: "skip_ws (newline_indent lvl' @ ustr ''}'' @ rest) = 125 # rest"
    by (simp add: skip_ws_append_ws newline_indent_ws is_ws_def)
  show ?case
    using F pv sk
    by (simp add: skip_ws_append_ws [OF Nil.prems(2)] encode_basestring_def parse_chars_encoded
                  is_ws_def parse_value_ws_Cons)
next
  case (Cons kv' kvs')
  obtain k' v' where kv': "kv' = (k', v')" by (cases kv')
  from Cons.prems(3) kv' obtain m where F: "F = Suc m" and sv: "size v \<le> m"
    and svs: "size_list (size_prod (\<lambda>x. 0) size) ((k', v') # kvs') \<le> m"
    by (cases F) auto
  let ?R = "concat (dict_items fr lvl False ((k', v') # kvs')) @ newline_indent lvl' @ ustr ''}'' @ rest"
  let ?R' = "newline_indent lvl @ encode_basestring k' @ ustr '': '' @ concat (iterencode fr lvl v')
            @ concat (dict_items fr lvl False kvs') @ newline_indent lvl' @ ustr ''}'' @ rest"
  have R: "?R = 44 # ?R'"
    by (simp add: dict_items_Cons_concat del: dict_items.simps)
  have pv: "parse_value fread m (concat (iterencode fr lvl v) @ ?R) = Some (v, ?R)"
    using Cons.prems(1) [of v m ?R] sv R by (simp add: stops_number_def num_char_def is_digit_def)
  have rest: "parse_members fread m ?R' = Some ((k', v') # kvs', rest)"
    using Cons.IH [of k' v' "newline_indent lvl" m] Cons.prems(1) kv' svs newline_indent_ws
    by (auto intro: Cons.prems(1))
  show ?case
    using F pv rest R kv'
    by (simp add: skip_ws_append_ws [OF Cons.prems(2)] encode_basestring_def parse_chars_encoded
                  is_ws_def parse_value_ws_Cons)
qed

lemma parse_scalar_fuel:
  assumes "\<not> is_container v" "floats_ok fr fread v" "size v \<le> F" "stops_number rest"
  shows "parse_value fread F (concat (iterencode fr lvl v) @ rest) = Some (v, rest)"
proof -
  obtain n where "F = Suc n" using assms(1,3) by (cases F; cases v) auto
  with assms show ?thesis by (simp add: iterencode_scalar parse_scalar del: parse_value.simps)
qed

lemma parse_iterencode:
  "floats_ok fr fread v \<Longrightarrow> size v \<le> F \<Longrightarrow> stops_number rest \<Longrightarrow>
   parse_value fread F (concat (iterencode fr lvl v) @ rest) = Some (v, rest)"
proof (induction v arbitrary: lvl F rest)
  case (PyList xs)
  obtain n where F: "F = Suc n" using PyList.prems(2) by (cases F) auto
  show ?case
  proof (cases xs)
    case Nil
    with F show ?thesis by (simp add: is_ws_def)
  next
    case (Cons v vs)
    have IH: "\<And>w F rest. w \<in> set (v # vs) \<Longrightarrow> size w \<le> F \<Longrightarrow> stops_number rest \<Longrightarrow>
                parse_value fread F (concat (iterencode fr (Suc lvl) w) @ rest) = Some (w, rest)"
      using PyList.IH PyList.prems(1) Cons floats_ok_list by blast
    obtain c t where ct: "concat (iterencode fr (Suc lvl) v) = c # t" and hc: "value_head c"
      using iterencode_head floats_ok_list [OF PyList.prems(1)] Cons by fastforce
    have el: "parse_elems fread n (newline_indent (Suc lvl) @ concat (iterencode fr (Suc lvl) v)
                 @ concat (list_items fr (Suc lvl) (ustr '','' @ newline_indent (Suc lvl)) vs)
                 @ newline_indent lvl @ ustr '']'' @ rest) = Some (v # vs, rest)"
      using IH newline_indent_ws PyList.prems(2) F Cons by (intro parse_elems_items) auto
    show ?thesis
      using F Cons el ct value_head_facts [OF hc]
      by (simp add: list_items_Cons_concat skip_ws_append_ws newline_indent_ws is_ws_def
               del: list_items.simps)
  qed
next
  case (PyDict kvs)
  obtain n where F: "F = Suc n" using PyDict.prems(2) by (cases F) auto
  show ?case
  proof (cases kvs)
    case Nil
    with F show ?thesis by (simp add: is_ws_def)
  next
    case (Cons kv kvs')
    obtain k v where kv: "kv = (k, v)" by (cases kv)
    have IH: "\<And>w F rest. w \<in> snd ` set ((k, v) # kvs') \<Longrightarrow> size w \<le> F \<Longrightarrow> stops_number rest \<Longrightarrow>
                parse_value fread F (concat (iterencode fr (Suc lvl) w) @ rest) = Some (w, rest)"
    proof -
      fix w F rest
      assume w: "w \<in> snd ` set ((k, v) # kvs')" and "size w \<le> F" "stops_number rest"
      from w obtain kw where kw: "(kw, w) \<in> set kvs" using Cons kv by force
      then have "floats_ok fr fread w" using PyDict.prems(1) floats_ok_dict by blast
      with kw show "parse_value fread F (concat (iterencode fr (Suc lvl) w) @ rest) = Some (w, rest)"
        using PyDict.IH [of "(kw, w)" w] \<open>size w \<le> F\<close> \<open>stops_number rest\<close> by simp
    qed
    have mem: "parse_members fread n (newline_indent (Suc lvl) @ encode_basestring k @ ustr '': ''
                 @ concat (iterencode fr (Suc lvl) v)
                 @ concat (dict_items fr (Suc lvl) False kvs')
                 @ newline_indent lvl @ ustr ''}'' @ rest) = Some ((k, v) # kvs', rest)"
      using IH newline_indent_ws PyDict.prems(2) F Cons kv by (intro parse_members_items) auto
    show ?thesis
      using F Cons kv mem
      by (simp add: dict_items_Cons_concat skip_ws_append_ws newline_indent_ws is_ws_def
                    encode_basestring_def
               del: dict_items.simps)
  qed
next
  case PyNone
  then show ?case by (intro parse_scalar_fuel) simp_all
next
  case (PyInt i)
  then show ?case by (intro parse_scalar_fuel) simp_all
next
  case (PyFloat f)
  then show ?case by (intro parse_scalar_fuel) simp_all
next
  case (PyStr s)
  then show ?case by (intro parse_scalar_fuel) simp_all
qed

lemma list_items_length:
  "(\<And>w. w \<in> set xs \<Longrightarrow> size w \<le> length (concat (iterencode fr l w))) \<Longrightarrow> buf \<noteq> [] \<Longrightarrow>
   size_list size xs \<le> length (concat (list_items fr l buf xs))"
proof (induction xs arbitrary: buf)
  case (Cons x xs)
  have "size_list size xs \<le> length (concat (list_items fr l (ustr '','' @ newline_indent l) xs))"
    using Cons by simp
  moreover have "size x \<le> length (concat (iterencode fr l x))"
    using Cons.prems(1) by simp
  moreover have "1 \<le> length buf"
    using Cons.prems(2) by (cases buf) auto
  ultimately show ?case
    by (simp add: list_items_Cons_concat del: list_items.simps)
qed simp

lemma dict_items_length:
  "(\<And>k w. (k, w) \<in> set kvs \<Longrightarrow> size w \<le> length (concat (iterencode fr l w))) \<Longrightarrow>
   size_list (size_prod (\<lambda>x. 0) size) kvs \<le> length (concat (dict_items fr l first kvs))"
proof (induction kvs arbitrary: first)
  case (Cons kv kvs)
  obtain k w where kv: "kv = (k, w)" by (cases kv)
  have "size_list (size_prod (\<lambda>x. 0) size) kvs \<le> length (concat (dict_items fr l False kvs))"
    by (rule Cons.IH) (auto intro: Cons.prems)
  moreover have "size w \<le> length (concat (iterencode fr l w))"
    using Cons.prems [of k w] kv by simp
  ultimately show ?case
    using kv by (simp add: dict_items_Cons_concat encode_basestring_def del: dict_items.simps)
qed simp

lemma size_le_text: "floats_ok fr fread v \<Longrightarrow> size v \<le> length (concat (iterencode fr lvl v))"
proof (induction v arbitrary: lvl)
  case (PyInt i)
  then show ?case using int_repr_start [of i] by (cases "int_repr i") auto
next
  case (PyFloat f)
  then show ?case by (cases "fr f") (auto simp: floats_ok_def float_ok_def)
next
  case (PyList xs)
  show ?case
  proof (cases xs)
    case (Cons v vs)
    have elem: "\<And>w. w \<in> set xs \<Longrightarrow> size w \<le> length (concat (iterencode fr (Suc lvl) w))"
      using PyList.IH floats_ok_list [OF PyList.prems] by blast
    have "size_list size xs \<le> length (concat (list_items fr (Suc lvl) (ustr ''['' @ newline_indent (Suc lvl)) xs))"
      using elem by (rule list_items_length) simp_all
    with Cons show ?thesis by (simp del: list_items.simps)
  qed simp
next
  case (PyDict kvs)
  show ?case
  proof (cases kvs)
    case (Cons kv kvs')
    have elem: "\<And>k w. (k, w) \<in> set kvs \<Longrightarrow> size w \<le> length (concat (iterencode fr (Suc lvl) w))"
    proof -
      fix k w assume kw: "(k, w) \<in> set kvs"
      then have "floats_ok fr fread w" using floats_ok_dict [OF PyDict.prems] by blast
      with kw show "size w \<le> length (concat (iterencode fr (Suc lvl) w))"
        using PyDict.IH [of "(k, w)" w] by simp
    qed
    have "size_list (size_prod (\<lambda>x. 0) size) kvs \<le> length (concat (dict_items fr (Suc lvl) True kvs))"
      using elem by (rule dict_items_length)
    with Cons show ?thesis by (simp del: dict_items.simps)
  qed simp
qed (simp_all add: encode_basestring_def)

lemma int_float_ok: "float_ok int_float_repr int_float_read f"
proof -
  obtain c t where ct: "int_repr f = c # t" and hc: "c = 45 \<or> is_digit c"
    using int_repr_start [of f] by (cases "int_repr f") auto
  have nc: "list_all num_char (int_repr f)"
    by (rule int_repr_num_chars)
  have "read_int (int_repr f @ [46, 48]) = None"
    using ct by (auto simp: read_int_def is_digit_def)
  moreover have "int_float_read (int_repr f @ [46, 48]) = Some f"
    by (simp add: int_float_read_def)
  ultimately show ?thesis
    using ct hc nc by (simp add: float_ok_def int_float_repr_def num_char_def is_digit_def)
qed

lemma floats_ok_int: "floats_ok int_float_repr int_float_read v"
  by (simp add: floats_ok_def int_float_ok)

lemma loads_dumps: "floats_ok fr fread v \<Longrightarrow> json_loads fread (dumps fr v) = Some v"
proof -
  assume ok: "floats_ok fr fread v"
  have "size v \<le> Suc (length (dumps fr v))"
    using size_le_text [OF ok, of 0] by (simp add: dumps_def)
  then have "parse_value fread (Suc (length (dumps fr v))) (concat (iterencode fr 0 v) @ []) = Some (v, [])"
    using ok by (intro parse_iterencode) (simp_all add: stops_number_def)
  then show ?thesis by (simp add: json_loads_def dumps_def)
qed

section \<open>The round trip\<close>

text \<open>
  C10. The log is faithful: reading back the text \<^verbatim>\<open>json.dump\<close> writes gives the
  value that was dumped, with its dict order, list order and every string and number,
  whenever each float prints as a number token the reader reads back.
\<close>

theorem json_loads_dumps: "floats_ok fr fread v \<Longrightarrow> json_loads fread (dumps fr v) = Some v"
  by (rule loads_dumps)

theorem json_loads_dumps_witness:
  "floats_ok int_float_repr int_float_read
     (PyDict [(ustr ''content'', PyStr [72, 10, 34, 92, 1, 26085]),
              (ustr ''pages'', PyList [PyInt (-3), PyFloat 800, PyNone, PyList [], PyDict []])]) \<and>
   json_loads int_float_read (dumps int_float_repr
     (PyDict [(ustr ''content'', PyStr [72, 10, 34, 92, 1, 26085]),
              (ustr ''pages'', PyList [PyInt (-3), PyFloat 800, PyNone, PyList [], PyDict []])]))
   = Some (PyDict [(ustr ''content'', PyStr [72, 10, 34, 92, 1, 26085]),
              (ustr ''pages'', PyList [PyInt (-3), PyFloat 800, PyNone, PyList [], PyDict []])])"
  using json_loads_dumps [OF floats_ok_int] floats_ok_int by blast

end
