(* ===== verification/Analyze_Result.thy ===== *)
theory Analyze_Result
  imports Py_Value
begin

text \<open>
  The result transformer of \<^verbatim>\<open>src/main.py\<close> (lines 63--88): the objects the
  Azure SDK hands back from \<^verbatim>\<open>poller.result()\<close>, the loops that copy them into
  \<^verbatim>\<open>result_dict\<close>, a map-based reference of the same function and the data
  model and contract of the spec (sections 3 and 4), with the refinement between them.
\<close>

section \<open>The SDK objects the script reads\<close>

text \<open>
  Only the attributes the script touches are modelled. An attribute of an SDK model
  object that the service did not send reads as \<^verbatim>\<open>None\<close>, hence the options.
  A polygon element is what \<^verbatim>\<open>for p in line.polygon\<close> iterates over: a point
  object with \<^verbatim>\<open>x\<close> and \<^verbatim>\<open>y\<close> (the shape the script and the spec expect)
  or a bare float coordinate, which is how \<^verbatim>\<open>azure-ai-documentintelligence\<close>
  represents \<^verbatim>\<open>DocumentLine.polygon\<close> (a flat list \<open>[x1, y1, x2, y2, ...]\<close>).
\<close>

datatype 'f poly_item = PointItem 'f 'f | CoordItem 'f

fun getattr_x :: "'f poly_item \<Rightarrow> 'f py_result" where
  "getattr_x (PointItem x y) = Inr x"
| "getattr_x (CoordItem c) = Inl AttributeError"

fun getattr_y :: "'f poly_item \<Rightarrow> 'f py_result" where
  "getattr_y (PointItem x y) = Inr y"
| "getattr_y (CoordItem c) = Inl AttributeError"

record 'f document_line =
  line_content :: "pystr option"
  polygon :: "'f poly_item list option"

record 'f document_page =
  page_number :: "int option"
  width :: "'f option"
  height :: "'f option"
  unit :: "pystr option"
  lines :: "'f document_line list option"

record 'f analyze_result =
  content :: "pystr option"
  pages :: "'f document_page list option"

section \<open>The transformation, as the code runs it\<close>

text \<open>\<^verbatim>\<open>{"x": p.x, "y": p.y}\<close>, line 83: \<^verbatim>\<open>p.x\<close> is read first.\<close>

definition point_dict :: "'f poly_item \<Rightarrow> 'f pyval py_result" where
  "point_dict p =
     bindE (getattr_x p) (\<lambda>x. bindE (getattr_y p) (\<lambda>y.
       Inr (PyDict [(ustr ''x'', PyFloat x), (ustr ''y'', PyFloat y)])))"

text \<open>Iterating \<^verbatim>\<open>None\<close> raises \<^verbatim>\<open>TypeError\<close> (lines 68 and 83).\<close>

definition py_iter :: "'a list option \<Rightarrow> 'a list py_result" where
  "py_iter xs = (case xs of None \<Rightarrow> Inl TypeError | Some ys \<Rightarrow> Inr ys)"

text \<open>One line's dict, lines 80--85: the comprehension over \<^verbatim>\<open>line.polygon\<close>.\<close>

definition line_dict :: "'f document_line \<Rightarrow> 'f pyval py_result" where
  "line_dict line =
     bindE (py_iter (polygon line)) (\<lambda>ps.
     bindE (mapE point_dict ps) (\<lambda>pts.
       Inr (PyDict [(ustr ''content'', py_opt PyStr (line_content line)),
                    (ustr ''bounding_polygon'', PyList pts)])))"

text \<open>
  One page's dict, lines 69--86. \<^verbatim>\<open>if page.lines:\<close> is false for \<^verbatim>\<open>None\<close>
  and for the empty list; otherwise the loop of lines 78--79 appends one dict per line
  to \<^verbatim>\<open>page_data["lines"]\<close>, which starts empty.
\<close>

definition page_dict :: "'f document_page \<Rightarrow> 'f pyval py_result" where
  "page_dict page =
     bindE (case lines page of
              Some (l # ls) \<Rightarrow> for_append line_dict [] (l # ls)
            | _ \<Rightarrow> Inr []) (\<lambda>line_vals.
       Inr (PyDict [(ustr ''page_number'', py_opt PyInt (page_number page)),
                    (ustr ''width'', py_opt PyFloat (width page)),
                    (ustr ''height'', py_opt PyFloat (height page)),
                    (ustr ''unit'', py_opt PyStr (unit page)),
                    (ustr ''lines'', PyList line_vals)]))"

text \<open>
  The whole of lines 63--88: \<^verbatim>\<open>result_dict\<close> starts with \<^verbatim>\<open>content\<close> and
  an empty \<^verbatim>\<open>pages\<close> list, and the loop over \<^verbatim>\<open>result.pages\<close> appends one
  page dict per page.
\<close>

definition result_to_dict :: "'f analyze_result \<Rightarrow> 'f pyval py_result" where
  "result_to_dict result =
     bindE (py_iter (pages result)) (\<lambda>ps.
     bindE (for_append page_dict [] ps) (\<lambda>page_vals.
       Inr (PyDict [(ustr ''content'', py_opt PyStr (content result)),
                    (ustr ''pages'', PyList page_vals)])))"

section \<open>A map-based reference and the shape the code needs\<close>

text \<open>
  The code succeeds exactly on results of the following shape: \<^verbatim>\<open>pages\<close> is
  present, and every line of a page has a polygon made of point objects.
\<close>

fun point_ok :: "'f poly_item \<Rightarrow> bool" where
  "point_ok (PointItem x y) = True"
| "point_ok (CoordItem c) = False"

definition lines_of :: "'f document_page \<Rightarrow> 'f document_line list" where
  "lines_of page = (case lines page of None \<Rightarrow> [] | Some ls \<Rightarrow> ls)"

definition line_ok :: "'f document_line \<Rightarrow> bool" where
  "line_ok line = (case polygon line of None \<Rightarrow> False | Some ps \<Rightarrow> list_all point_ok ps)"

definition page_ok :: "'f document_page \<Rightarrow> bool" where
  "page_ok page = list_all line_ok (lines_of page)"

definition shape_ok :: "'f analyze_result \<Rightarrow> bool" where
  "shape_ok result = (case pages result of None \<Rightarrow> False | Some ps \<Rightarrow> list_all page_ok ps)"

text \<open>The exception the code raises on a result of another shape.\<close>

definition line_error :: "'f document_line \<Rightarrow> py_error" where
  "line_error line = (case polygon line of None \<Rightarrow> TypeError | Some ps \<Rightarrow> AttributeError)"

definition page_error :: "'f document_page \<Rightarrow> py_error" where
  "page_error page = line_error (the (find (\<lambda>l. \<not> line_ok l) (lines_of page)))"

definition result_error :: "'f analyze_result \<Rightarrow> py_error" where
  "result_error result =
     (case pages result of
        None \<Rightarrow> TypeError
      | Some ps \<Rightarrow> page_error (the (find (\<lambda>p. \<not> page_ok p) ps)))"

fun point_ref :: "'f poly_item \<Rightarrow> 'f pyval" where
  "point_ref (PointItem x y) = PyDict [(ustr ''x'', PyFloat x), (ustr ''y'', PyFloat y)]"
| "point_ref (CoordItem c) = PyNone"

definition line_ref :: "'f document_line \<Rightarrow> 'f pyval" where
  "line_ref line =
     PyDict [(ustr ''content'', py_opt PyStr (line_content line)),
             (ustr ''bounding_polygon'',
                PyList (map point_ref (case polygon line of None \<Rightarrow> [] | Some ps \<Rightarrow> ps)))]"

definition page_ref :: "'f document_page \<Rightarrow> 'f pyval" where
  "page_ref page =
     PyDict [(ustr ''page_number'', py_opt PyInt (page_number page)),
             (ustr ''width'', py_opt PyFloat (width page)),
             (ustr ''height'', py_opt PyFloat (height page)),
             (ustr ''unit'', py_opt PyStr (unit page)),
             (ustr ''lines'', PyList (map line_ref (lines_of page)))]"

definition result_ref :: "'f analyze_result \<Rightarrow> 'f pyval" where
  "result_ref result =
     PyDict [(ustr ''content'', py_opt PyStr (content result)),
             (ustr ''pages'',
                PyList (map page_ref (case pages result of None \<Rightarrow> [] | Some ps \<Rightarrow> ps)))]"

section \<open>The spec's data model and contract\<close>

text \<open>
  Section 3 of the spec: every field present, a polygon a list of points, the line
  collection of a page possibly absent. Section 4: the mapping the transformer must
  produce from such data.
\<close>

record 'f spec_line =
  s_text :: pystr
  s_polygon :: "('f \<times> 'f) list"

record 'f spec_page =
  s_page_number :: int
  s_width :: 'f
  s_height :: 'f
  s_unit :: pystr
  s_lines :: "'f spec_line list option"

record 'f spec_result =
  s_content :: pystr
  s_pages :: "'f spec_page list"

definition spec_point_map :: "'f \<times> 'f \<Rightarrow> 'f pyval" where
  "spec_point_map pt =
     (case pt of (x, y) \<Rightarrow> PyDict [(ustr ''x'', PyFloat x), (ustr ''y'', PyFloat y)])"

definition spec_line_map :: "'f spec_line \<Rightarrow> 'f pyval" where
  "spec_line_map l =
     PyDict [(ustr ''content'', PyStr (s_text l)),
             (ustr ''bounding_polygon'', PyList (map spec_point_map (s_polygon l)))]"

definition spec_page_map :: "'f spec_page \<Rightarrow> 'f pyval" where
  "spec_page_map p =
     PyDict [(ustr ''page_number'', PyInt (s_page_number p)),
             (ustr ''width'', PyFloat (s_width p)),
             (ustr ''height'', PyFloat (s_height p)),
             (ustr ''unit'', PyStr (s_unit p)),
             (ustr ''lines'',
                PyList (map spec_line_map (case s_lines p of None \<Rightarrow> [] | Some ls \<Rightarrow> ls)))]"

definition spec_result_map :: "'f spec_result \<Rightarrow> 'f pyval" where
  "spec_result_map r =
     PyDict [(ustr ''content'', PyStr (s_content r)),
             (ustr ''pages'', PyList (map spec_page_map (s_pages r)))]"

text \<open>
  Reading an SDK result as the spec's data: \<open>None\<close> when a field the spec requires
  is missing (the spec's \<^verbatim>\<open>MissingField\<close> case) or a polygon element is not a
  point.
\<close>

fun spec_of_point :: "'f poly_item \<Rightarrow> ('f \<times> 'f) option" where
  "spec_of_point (PointItem x y) = Some (x, y)"
| "spec_of_point (CoordItem c) = None"

definition spec_of_line :: "'f document_line \<Rightarrow> 'f spec_line option" where
  "spec_of_line line =
     (case (line_content line, polygon line) of
        (Some t, Some ps) \<Rightarrow>
          map_option (\<lambda>pts. \<lparr>s_text = t, s_polygon = pts\<rparr>) (those (map spec_of_point ps))
      | _ \<Rightarrow> None)"

definition spec_of_page :: "'f document_page \<Rightarrow> 'f spec_page option" where
  "spec_of_page page =
     (case (page_number page, width page, height page, unit page) of
        (Some n, Some w, Some h, Some u) \<Rightarrow>
          (case lines page of
             None \<Rightarrow> Some \<lparr>s_page_number = n, s_width = w, s_height = h, s_unit = u,
                          s_lines = None\<rparr>
           | Some ls \<Rightarrow>
               map_option (\<lambda>sls. \<lparr>s_page_number = n, s_width = w, s_height = h, s_unit = u,
                                     s_lines = Some sls\<rparr>)
                 (those (map spec_of_line ls)))
      | _ \<Rightarrow> None)"

definition spec_of_result :: "'f analyze_result \<Rightarrow> 'f spec_result option" where
  "spec_of_result r =
     (case (content r, pages r) of
        (Some c, Some ps) \<Rightarrow>
          map_option (\<lambda>sps. \<lparr>s_content = c, s_pages = sps\<rparr>) (those (map spec_of_page ps))
      | _ \<Rightarrow> None)"

text \<open>
  The result layout the SDK documents for \<^verbatim>\<open>azure-ai-documentintelligence\<close>:
  every polygon a flat list of coordinates, and some line with a non-empty polygon.
\<close>

fun is_coord :: "'f poly_item \<Rightarrow> bool" where
  "is_coord (CoordItem c) = True"
| "is_coord (PointItem x y) = False"

definition flat_polygons :: "'f analyze_result \<Rightarrow> bool" where
  "flat_polygons r =
     (case pages r of
        None \<Rightarrow> False
      | Some ps \<Rightarrow>
          list_all (\<lambda>page. list_all (\<lambda>l. case polygon l of None \<Rightarrow> False
                                                   | Some items \<Rightarrow> list_all is_coord items)
                                   (lines_of page)) ps
          \<and> list_ex (\<lambda>page. list_ex (\<lambda>l. polygon l \<noteq> Some []) (lines_of page)) ps)"

text \<open>The scenario of section 8 of the spec, with integral coordinates.\<close>

definition hello_line :: "int document_line" where
  "hello_line = \<lparr>line_content = Some (ustr ''Hello''),
     polygon = Some [PointItem 0 0, PointItem 10 0, PointItem 10 5, PointItem 0 5]\<rparr>"

definition world_line :: "int document_line" where
  "world_line = \<lparr>line_content = Some (ustr ''World''),
     polygon = Some [PointItem 0 10, PointItem 10 10, PointItem 10 15, PointItem 0 15]\<rparr>"

definition hello_world :: "int analyze_result" where
  "hello_world = \<lparr>content = Some (ustr ''Hello'' @ [10] @ ustr ''World''),
     pages = Some [\<lparr>page_number = Some 1, width = Some 800, height = Some 600,
                     unit = Some (ustr ''pixel''), lines = Some [hello_line, world_line]\<rparr>]\<rparr>"

definition hello_world_spec :: "int spec_result" where
  "hello_world_spec = \<lparr>s_content = ustr ''Hello'' @ [10] @ ustr ''World'',
     s_pages = [\<lparr>s_page_number = 1, s_width = 800, s_height = 600, s_unit = ustr ''pixel'',
                  s_lines = Some [\<lparr>s_text = ustr ''Hello'',
                                    s_polygon = [(0, 0), (10, 0), (10, 5), (0, 5)]\<rparr>,
                                  \<lparr>s_text = ustr ''World'',
                                    s_polygon = [(0, 10), (10, 10), (10, 15), (0, 15)]\<rparr>]\<rparr>]\<rparr>"

text \<open>The same page as the SDK of \<^verbatim>\<open>azure-ai-documentintelligence\<close> returns it.\<close>

definition flat_example :: "int analyze_result" where
  "flat_example = \<lparr>content = Some (ustr ''Hello''),
     pages = Some [\<lparr>page_number = Some 1, width = Some 800, height = Some 600,
                     unit = Some (ustr ''pixel''),
                     lines = Some [\<lparr>line_content = Some (ustr ''Hello''),
                                     polygon = Some (map CoordItem [0, 0, 10, 0, 10, 5, 0, 5])\<rparr>]\<rparr>]\<rparr>"

section \<open>Each step of the code against the reference\<close>

lemma point_dict_eq:
  "point_dict p = (if point_ok p then Inr (point_ref p) else Inl AttributeError)"
  by (cases p) (simp_all add: point_dict_def)

lemma polygon_comp_eq:
  "mapE point_dict ps =
     (if list_all point_ok ps then Inr (map point_ref ps) else Inl AttributeError)"
proof -
  have "mapE point_dict ps =
          (if list_all point_ok ps then Inr (map point_ref ps)
           else Inl ((\<lambda>_. AttributeError) (the (find (\<lambda>x. \<not> point_ok x) ps))))"
    by (rule mapE_if_list_all) (simp add: point_dict_eq)
  then show ?thesis by simp
qed

lemma line_dict_eq:
  "line_dict line = (if line_ok line then Inr (line_ref line) else Inl (line_error line))"
  by (cases "polygon line")
     (simp_all add: line_dict_def py_iter_def polygon_comp_eq line_ok_def line_error_def
                    line_ref_def)

lemma line_loop_eq:
  "for_append line_dict [] ls =
     (if list_all line_ok ls then Inr (map line_ref ls)
      else Inl (line_error (the (find (\<lambda>l. \<not> line_ok l) ls))))"
  using mapE_if_list_all [where f = line_dict and P = line_ok and g = line_ref
                            and err = line_error and xs = ls]
  by (simp add: for_append_mapE line_dict_eq split: if_splits)

lemma page_dict_eq:
  "page_dict page = (if page_ok page then Inr (page_ref page) else Inl (page_error page))"
proof (cases "lines page")
  case None
  then show ?thesis by (simp add: page_dict_def page_ok_def page_ref_def lines_of_def)
next
  case (Some ls)
  then show ?thesis
    by (cases ls)
       (simp_all del: for_append.simps
                 add: page_dict_def page_ok_def page_ref_def page_error_def lines_of_def
                      line_loop_eq)
qed

lemma page_loop_eq:
  "for_append page_dict [] ps =
     (if list_all page_ok ps then Inr (map page_ref ps)
      else Inl (page_error (the (find (\<lambda>p. \<not> page_ok p) ps))))"
  using mapE_if_list_all [where f = page_dict and P = page_ok and g = page_ref
                            and err = page_error and xs = ps]
  by (simp add: for_append_mapE page_dict_eq split: if_splits)

lemma result_to_dict_eq:
  "result_to_dict r = (if shape_ok r then Inr (result_ref r) else Inl (result_error r))"
  by (cases "pages r")
     (simp_all add: result_to_dict_def py_iter_def page_loop_eq shape_ok_def result_ref_def
                    result_error_def)

text \<open>Facts about the shape predicates, for the claims below.\<close>

lemma shape_ok_pages: "shape_ok r \<Longrightarrow> \<exists>ps. pages r = Some ps \<and> list_all page_ok ps"
  by (auto simp: shape_ok_def split: option.splits)

lemma spec_of_line_Some:
  "spec_of_line l = Some sl \<Longrightarrow> line_ok l \<and> line_ref l = spec_line_map sl"
proof -
  assume asm: "spec_of_line l = Some sl"
  then obtain t ps pts where c: "line_content l = Some t" and p: "polygon l = Some ps"
    and th: "those (map spec_of_point ps) = Some pts"
    and sl: "sl = \<lparr>s_text = t, s_polygon = pts\<rparr>"
    by (auto simp: spec_of_line_def split: option.splits)
  have "list_all point_ok ps \<and> map point_ref ps = map spec_point_map pts"
  proof (rule those_map_Some_imp [OF th])
    fix x y assume "spec_of_point x = Some y"
    then show "point_ok x \<and> point_ref x = spec_point_map y"
      by (cases x) (auto simp: spec_point_map_def)
  qed
  with c p sl show ?thesis
    by (simp add: line_ok_def line_ref_def spec_line_map_def)
qed

lemma spec_of_page_Some:
  "spec_of_page p = Some sp \<Longrightarrow> page_ok p \<and> page_ref p = spec_page_map sp"
proof -
  assume asm: "spec_of_page p = Some sp"
  then obtain n w h u where f: "page_number p = Some n" "width p = Some w" "height p = Some h"
      "unit p = Some u"
    by (auto simp: spec_of_page_def split: option.splits)
  show ?thesis
  proof (cases "lines p")
    case None
    with asm f show ?thesis
      by (auto simp: spec_of_page_def page_ok_def page_ref_def spec_page_map_def lines_of_def)
  next
    case (Some ls)
    with asm f obtain sls where th: "those (map spec_of_line ls) = Some sls"
      and sp: "sp = \<lparr>s_page_number = n, s_width = w, s_height = h, s_unit = u,
                     s_lines = Some sls\<rparr>"
      by (auto simp: spec_of_page_def)
    have "list_all line_ok ls \<and> map line_ref ls = map spec_line_map sls"
      by (rule those_map_Some_imp [OF th]) (rule spec_of_line_Some)
    with Some f sp show ?thesis
      by (simp add: page_ok_def page_ref_def spec_page_map_def lines_of_def)
  qed
qed

lemma spec_of_result_Some:
  "spec_of_result r = Some s \<Longrightarrow> shape_ok r \<and> result_ref r = spec_result_map s"
proof -
  assume asm: "spec_of_result r = Some s"
  then obtain c ps sps where c: "content r = Some c" and p: "pages r = Some ps"
    and th: "those (map spec_of_page ps) = Some sps"
    and s: "s = \<lparr>s_content = c, s_pages = sps\<rparr>"
    by (auto simp: spec_of_result_def split: option.splits)
  have "list_all page_ok ps \<and> map page_ref ps = map spec_page_map sps"
    by (rule those_map_Some_imp [OF th]) (rule spec_of_page_Some)
  with c p s show ?thesis
    by (simp add: shape_ok_def result_ref_def spec_result_map_def)
qed

lemma page_dict_Inr_iff: "page_dict page = Inr d \<longleftrightarrow> page_ok page \<and> d = page_ref page"
  by (auto simp: page_dict_eq)

lemma page_dict_ok: "page_ok page \<Longrightarrow> page_dict page = Inr (page_ref page)"
  by (simp add: page_dict_eq)

lemma page_ok_no_lines: "lines page = None \<or> lines page = Some [] \<Longrightarrow> page_ok page"
  by (auto simp: page_ok_def lines_of_def)

lemma line_error_Some: "polygon l \<noteq> None \<Longrightarrow> line_error l = AttributeError"
  by (auto simp: line_error_def split: option.splits)

lemma find_Some_set: "find P xs = Some x \<Longrightarrow> x \<in> set xs \<and> P x"
  by (induction xs) (auto split: if_splits)

lemma result_error_cases: "result_error r = TypeError \<or> result_error r = AttributeError"
  by (auto simp: result_error_def page_error_def line_error_def split: option.splits)

section \<open>Properties of the transformer\<close>

text \<open>
  C1. Refinement of the spec's contract: on every SDK result that carries the data of
  the spec's model (section 3), the loops of lines 63--88 succeed and build exactly the
  mapping section 4 prescribes for that data.
\<close>

theorem result_to_dict_refines_spec:
  "spec_of_result r = Some s \<Longrightarrow> result_to_dict r = Inr (spec_result_map s)"
  using spec_of_result_Some [of r s] by (simp add: result_to_dict_eq)

text \<open>
  C2. The append loops compute the map-based reference: the transformation succeeds
  exactly on results of the shape \<open>shape_ok\<close>, and its value is then
  \<open>result_ref\<close>.
\<close>

theorem result_to_dict_Inr_iff:
  "result_to_dict r = Inr d \<longleftrightarrow> shape_ok r \<and> d = result_ref r"
  by (auto simp: result_to_dict_eq)

text \<open>
  C3. Pages are copied one for one and in order: the output's \<^verbatim>\<open>pages\<close> list has
  as many entries as \<^verbatim>\<open>result.pages\<close>, and its \<open>i\<close>-th entry is the dict of the
  \<open>i\<close>-th source page.
\<close>

theorem result_to_dict_pages:
  assumes "result_to_dict r = Inr d"
  shows "\<exists>ps pl. pages r = Some ps \<and> py_key d (ustr ''pages'') = Some (PyList pl)
            \<and> length pl = length ps \<and> (\<forall>i < length ps. page_dict (ps ! i) = Inr (pl ! i))"
proof -
  from assms have ok: "shape_ok r" and d: "d = result_ref r"
    by (auto simp: result_to_dict_eq split: if_splits)
  from ok obtain ps where ps: "pages r = Some ps" and all: "list_all page_ok ps"
    using shape_ok_pages by blast
  have "\<forall>i < length ps. page_dict (ps ! i) = Inr (map page_ref ps ! i)"
    using all by (simp add: list_all_length page_dict_ok)
  with ps d show ?thesis
    by (simp add: result_ref_def)
qed

text \<open>
  C4. A page whose line collection is absent or empty yields \<^verbatim>\<open>"lines": []\<close>,
  never an omitted key and never \<^verbatim>\<open>None\<close>, and such a page never raises.
\<close>

theorem page_dict_no_lines:
  "lines page = None \<or> lines page = Some [] \<Longrightarrow>
   \<exists>d. page_dict page = Inr d \<and> py_key d (ustr ''lines'') = Some (PyList [])"
  using page_ok_no_lines [of page]
  by (auto simp: page_dict_ok page_ref_def lines_of_def)

text \<open>
  C5. The polygon of a line is copied point by point in source order: points
  \<open>(x1, y1), ..., (xk, yk)\<close> become exactly
  \<^verbatim>\<open>[{"x": x1, "y": y1}, ..., {"x": xk, "y": yk}]\<close>.
\<close>

theorem line_dict_polygon:
  "polygon line = Some (map (\<lambda>(x, y). PointItem x y) pts) \<Longrightarrow>
   \<exists>d. line_dict line = Inr d \<and>
       py_key d (ustr ''bounding_polygon'') = Some (PyList (map spec_point_map pts))"
  by (auto simp: line_dict_eq line_ok_def line_ref_def list_all_iff spec_point_map_def
           split: prod.splits)

text \<open>
  C6. The text of the result is copied verbatim into \<^verbatim>\<open>content\<close>.
\<close>

theorem result_to_dict_content:
  "content r = Some t \<Longrightarrow> result_to_dict r = Inr d \<Longrightarrow>
   py_key d (ustr ''content'') = Some (PyStr t)"
  by (auto simp: result_to_dict_eq result_ref_def split: if_splits)

text \<open>
  C7. The transformation fails only on a result of the wrong shape, and then with the
  exception the code raises first: \<^verbatim>\<open>TypeError\<close> (iterating a missing
  \<^verbatim>\<open>pages\<close> or \<^verbatim>\<open>polygon\<close>) or \<^verbatim>\<open>AttributeError\<close> (a polygon element
  without \<^verbatim>\<open>x\<close>).
\<close>

theorem result_to_dict_error:
  "result_to_dict r = Inl e \<Longrightarrow>
   \<not> shape_ok r \<and> e = result_error r \<and> (e = TypeError \<or> e = AttributeError)"
  using result_error_cases [of r] by (auto simp: result_to_dict_eq split: if_splits)

text \<open>
  C8. On the result layout of \<^verbatim>\<open>azure-ai-documentintelligence\<close>, where a
  polygon is a flat list of float coordinates, \<^verbatim>\<open>p.x\<close> of line 83 raises
  \<^verbatim>\<open>AttributeError\<close> as soon as one line has a non-empty polygon.
\<close>

theorem flat_polygons_attribute_error:
  "flat_polygons r \<Longrightarrow> result_to_dict r = Inl AttributeError"
proof -
  assume fp: "flat_polygons r"
  then obtain ps where ps: "pages r = Some ps"
    by (auto simp: flat_polygons_def split: option.splits)
  from fp ps have all0: "\<forall>p \<in> set ps. \<forall>l \<in> set (lines_of p).
      (case polygon l of None \<Rightarrow> False | Some items \<Rightarrow> list_all is_coord items)"
    by (simp add: flat_polygons_def list_all_iff)
  have all: "\<forall>p \<in> set ps. \<forall>l \<in> set (lines_of p).
                 \<exists>items. polygon l = Some items \<and> list_all is_coord items"
  proof (intro ballI)
    fix p l assume "p \<in> set ps" "l \<in> set (lines_of p)"
    with all0 have "case polygon l of None \<Rightarrow> False | Some items \<Rightarrow> list_all is_coord items"
      by blast
    then show "\<exists>items. polygon l = Some items \<and> list_all is_coord items"
      by (cases "polygon l") simp_all
  qed
  from fp ps have ex: "\<exists>p \<in> set ps. \<exists>l \<in> set (lines_of p). polygon l \<noteq> Some []"
    by (simp add: flat_polygons_def list_ex_iff)
  have coord_bad: "\<And>items. list_all is_coord items \<Longrightarrow> items \<noteq> [] \<Longrightarrow> \<not> list_all point_ok items"
    by (case_tac items) (auto elim: is_coord.elims)
  from ex all obtain p l where "p \<in> set ps" "l \<in> set (lines_of p)" "\<not> line_ok l"
    using coord_bad by (fastforce simp: line_ok_def)
  then have not_ok: "\<not> shape_ok r"
    using ps by (auto simp: shape_ok_def page_ok_def list_all_iff)
  obtain p' where fp': "find (\<lambda>p. \<not> page_ok p) ps = Some p'"
    using not_ok ps find_None_list_all [of page_ok ps]
    by (cases "find (\<lambda>p. \<not> page_ok p) ps") (auto simp: shape_ok_def)
  then have p': "p' \<in> set ps" "\<not> page_ok p'"
    using find_Some_set by fastforce+
  obtain l' where fl': "find (\<lambda>l. \<not> line_ok l) (lines_of p') = Some l'"
    using p'(2) find_None_list_all [of line_ok "lines_of p'"]
    by (cases "find (\<lambda>l. \<not> line_ok l) (lines_of p')") (auto simp: page_ok_def)
  then have "l' \<in> set (lines_of p')"
    using find_Some_set by fastforce
  with all p'(1) have "polygon l' \<noteq> None"
    by fastforce
  then have "result_error r = AttributeError"
    using ps fp' fl' by (simp add: result_error_def page_error_def line_error_Some)
  with not_ok show ?thesis
    by (simp add: result_to_dict_eq)
qed

text \<open>
  C9. A missing scalar field is not an error: where the spec demands a
  \<^verbatim>\<open>MissingField\<close> failure (the result has no reading in the spec's data model),
  the code writes \<^verbatim>\<open>None\<close> for a page without \<^verbatim>\<open>width\<close> and goes on.
\<close>

theorem missing_width_written_as_none:
  assumes "pages r = Some ps" and "shape_ok r" and "i < length ps" and "width (ps ! i) = None"
  shows "spec_of_result r = None \<and>
         (\<exists>d pl. result_to_dict r = Inr d \<and> py_key d (ustr ''pages'') = Some (PyList pl)
                 \<and> py_key (pl ! i) (ustr ''width'') = Some PyNone)"
proof
  have "spec_of_page (ps ! i) = None"
    using assms(4) by (simp add: spec_of_page_def split: option.splits)
  then have "those (map spec_of_page ps) = None"
    using assms(3) by (induction ps arbitrary: i) (auto simp: nth_Cons split: nat.splits option.splits)
  then show "spec_of_result r = None"
    using assms(1) by (simp add: spec_of_result_def split: option.splits)
next
  show "\<exists>d pl. result_to_dict r = Inr d \<and> py_key d (ustr ''pages'') = Some (PyList pl)
          \<and> py_key (pl ! i) (ustr ''width'') = Some PyNone"
    using assms by (simp add: result_to_dict_eq result_ref_def page_ref_def)
qed

section \<open>Witnesses\<close>

lemma hello_world_ok: "result_to_dict hello_world = Inr (result_ref hello_world)"
  by (simp add: result_to_dict_eq shape_ok_def hello_world_def hello_line_def world_line_def
                page_ok_def lines_of_def line_ok_def)

theorem result_to_dict_refines_spec_witness:
  "spec_of_result hello_world = Some hello_world_spec \<and>
   result_to_dict hello_world = Inr (spec_result_map hello_world_spec)"
proof -
  have h: "spec_of_result hello_world = Some hello_world_spec"
    by (simp add: spec_of_result_def spec_of_page_def spec_of_line_def hello_world_def
                  hello_line_def world_line_def hello_world_spec_def)
  show ?thesis using h result_to_dict_refines_spec [OF h] by simp
qed

theorem result_to_dict_pages_witness:
  "result_to_dict hello_world = Inr (result_ref hello_world) \<and>
   (\<exists>ps pl. pages hello_world = Some ps \<and>
      py_key (result_ref hello_world) (ustr ''pages'') = Some (PyList pl) \<and>
      length pl = length ps \<and> (\<forall>i < length ps. page_dict (ps ! i) = Inr (pl ! i)))"
  using hello_world_ok result_to_dict_pages [OF hello_world_ok] by simp

theorem page_dict_no_lines_witness:
  "lines \<lparr>page_number = Some 1, width = Some (800::int), height = Some 600,
          unit = Some (ustr ''pixel''), lines = None\<rparr> = None \<and>
   (\<exists>d. page_dict \<lparr>page_number = Some 1, width = Some (800::int), height = Some 600,
                  unit = Some (ustr ''pixel''), lines = None\<rparr> = Inr d \<and>
        py_key d (ustr ''lines'') = Some (PyList []))"
  using page_dict_no_lines [of "\<lparr>page_number = Some 1, width = Some (800::int), height = Some 600,
                                 unit = Some (ustr ''pixel''), lines = None\<rparr>"]
  by simp

theorem line_dict_polygon_witness:
  "polygon hello_line = Some (map (\<lambda>(x, y). PointItem x y) [(0, 0), (10, 0), (10, 5), (0, 5)]) \<and>
   (\<exists>d. line_dict hello_line = Inr d \<and>
      py_key d (ustr ''bounding_polygon'') =
        Some (PyList (map spec_point_map [(0::int, 0), (10, 0), (10, 5), (0, 5)])))"
proof -
  have h: "polygon hello_line = Some (map (\<lambda>(x, y). PointItem x y) [(0::int, 0), (10, 0), (10, 5), (0, 5)])"
    by (simp add: hello_line_def)
  show ?thesis using h line_dict_polygon [OF h] by simp
qed

theorem result_to_dict_content_witness:
  "content hello_world = Some (ustr ''Hello'' @ [10] @ ustr ''World'') \<and>
   result_to_dict hello_world = Inr (result_ref hello_world) \<and>
   py_key (result_ref hello_world) (ustr ''content'') = Some (PyStr (ustr ''Hello'' @ [10] @ ustr ''World''))"
proof -
  have c: "content hello_world = Some (ustr ''Hello'' @ [10] @ ustr ''World'')"
    by (simp add: hello_world_def)
  show ?thesis using c hello_world_ok result_to_dict_content [OF c hello_world_ok] by simp
qed

theorem result_to_dict_error_witness:
  "result_to_dict \<lparr>content = Some (ustr ''Hello''), pages = (None :: int document_page list option)\<rparr>
     = Inl TypeError \<and>
   \<not> shape_ok \<lparr>content = Some (ustr ''Hello''), pages = (None :: int document_page list option)\<rparr> \<and>
   TypeError = result_error \<lparr>content = Some (ustr ''Hello''), pages = (None :: int document_page list option)\<rparr>"
proof -
  have h: "result_to_dict \<lparr>content = Some (ustr ''Hello''), pages = (None :: int document_page list option)\<rparr>
             = Inl TypeError"
    by (simp add: result_to_dict_def py_iter_def)
  show ?thesis using h result_to_dict_error [OF h] by simp
qed

theorem flat_polygons_attribute_error_witness:
  "flat_polygons flat_example \<and> result_to_dict flat_example = Inl AttributeError"
proof -
  have h: "flat_polygons flat_example"
    by (simp add: flat_polygons_def flat_example_def lines_of_def)
  show ?thesis using h flat_polygons_attribute_error [OF h] by simp
qed

theorem missing_width_written_as_none_witness:
  "spec_of_result \<lparr>content = Some (ustr ''Hello''),
       pages = Some [\<lparr>page_number = Some 1, width = (None :: int option), height = Some 600,
                      unit = Some (ustr ''pixel''), lines = None\<rparr>]\<rparr> = None \<and>
   (\<exists>d pl. result_to_dict \<lparr>content = Some (ustr ''Hello''),
       pages = Some [\<lparr>page_number = Some 1, width = (None :: int option), height = Some 600,
                      unit = Some (ustr ''pixel''), lines = None\<rparr>]\<rparr> = Inr d \<and>
      py_key d (ustr ''pages'') = Some (PyList pl) \<and> py_key (pl ! 0) (ustr ''width'') = Some PyNone)"
proof -
  let ?p = "\<lparr>page_number = Some 1, width = (None :: int option), height = Some 600,
             unit = Some (ustr ''pixel''), lines = None\<rparr>"
  let ?r = "\<lparr>content = Some (ustr ''Hello''), pages = Some [?p]\<rparr>"
  have h1: "pages ?r = Some [?p]" by simp
  have h2: "shape_ok ?r" by (simp add: shape_ok_def page_ok_def lines_of_def)
  have h3: "0 < length [?p]" by simp
  have h4: "width ([?p] ! 0) = None" by simp
  show ?thesis using missing_width_written_as_none [OF h1 h2 h3 h4] by simp
qed

end
