(* ===== verification/Log_Path.thy ===== *)
theory Log_Path
  imports Prelude "HOL-Library.Product_Lexorder"
begin

text \<open>
  The log file name of \<^verbatim>\<open>src/main.py\<close>, lines 41--45:
  \<^verbatim>\<open>timestamp = datetime.now().strftime("%Y%m%d_%H%M%S")\<close> and
  \<^verbatim>\<open>LOG_FILE_PATH = os.path.join("logs", f"analyze_result_{timestamp}.json")\<close>.
  A naive \<^verbatim>\<open>datetime\<close> is a datatype with Python's fields and validity conditions,
  ordered as Python compares datetimes (field by field, microseconds last), through an
  instantiation of \<open>linorder\<close>. \<^verbatim>\<open>%Y\<close> is the year zero-padded to four digits,
  the others are zero-padded to two, as C's \<^verbatim>\<open>strftime\<close> prints them; microseconds
  do not appear in the name.
\<close>

section \<open>datetime\<close>

datatype datetime =
  DateTime (year: nat) (month: nat) (day: nat) (hour: nat) (minute: nat) (second: nat)
    (microsecond: nat)

text \<open>\<^verbatim>\<open>_is_leap\<close> and \<^verbatim>\<open>_days_in_month\<close> of the \<^verbatim>\<open>datetime\<close> module.\<close>

definition is_leap :: "nat \<Rightarrow> bool" where
  "is_leap y \<longleftrightarrow> y mod 4 = 0 \<and> (y mod 100 \<noteq> 0 \<or> y mod 400 = 0)"

definition days_in_month :: "nat \<Rightarrow> nat \<Rightarrow> nat" where
  "days_in_month y m =
     (if m = 2 then (if is_leap y then 29 else 28)
      else if m = 4 \<or> m = 6 \<or> m = 9 \<or> m = 11 then 30 else 31)"

text \<open>The values the \<^verbatim>\<open>datetime\<close> constructor accepts (\<^verbatim>\<open>MINYEAR = 1\<close>, \<^verbatim>\<open>MAXYEAR = 9999\<close>).\<close>

definition valid_datetime :: "datetime \<Rightarrow> bool" where
  "valid_datetime d \<longleftrightarrow>
     1 \<le> year d \<and> year d \<le> 9999 \<and> 1 \<le> month d \<and> month d \<le> 12 \<and>
     1 \<le> day d \<and> day d \<le> days_in_month (year d) (month d) \<and>
     hour d < 24 \<and> minute d < 60 \<and> second d < 60 \<and> microsecond d < 1000000"

definition dt_key :: "datetime \<Rightarrow> nat \<times> nat \<times> nat \<times> nat \<times> nat \<times> nat \<times> nat" where
  "dt_key d = (year d, month d, day d, hour d, minute d, second d, microsecond d)"

text \<open>\<^verbatim>\<open>d.replace(microsecond=0)\<close>: the part of a time the log name records.\<close>

definition to_second :: "datetime \<Rightarrow> datetime" where
  "to_second d = DateTime (year d) (month d) (day d) (hour d) (minute d) (second d) 0"

instantiation datetime :: linorder
begin

definition less_eq_datetime :: "datetime \<Rightarrow> datetime \<Rightarrow> bool" where
  "less_eq_datetime a b \<longleftrightarrow> dt_key a \<le> dt_key b"

definition less_datetime :: "datetime \<Rightarrow> datetime \<Rightarrow> bool" where
  "less_datetime a b \<longleftrightarrow> dt_key a < dt_key b"

instance
proof
  have inj: "\<And>a b. dt_key a = dt_key b \<Longrightarrow> a = b"
    by (case_tac a; case_tac b) (simp add: dt_key_def)
  fix a b c :: datetime
  show "a < b \<longleftrightarrow> a \<le> b \<and> \<not> b \<le> a"
    by (simp add: less_datetime_def less_eq_datetime_def less_le_not_le)
  show "a \<le> a"
    by (simp add: less_eq_datetime_def)
  show "a \<le> b \<Longrightarrow> b \<le> c \<Longrightarrow> a \<le> c"
    unfolding less_eq_datetime_def by (rule order_trans)
  show "a \<le> b \<Longrightarrow> b \<le> a \<Longrightarrow> a = b"
    unfolding less_eq_datetime_def using inj by (blast intro: antisym)
  show "a \<le> b \<or> b \<le> a"
    by (simp add: less_eq_datetime_def linear)
qed

end

section \<open>strftime and the path\<close>

text \<open>\<open>w\<close> decimal digits of \<open>n\<close>, zero-padded, for \<open>n < 10 ^ w\<close>.\<close>

fun fixed_digits :: "nat \<Rightarrow> nat \<Rightarrow> pystr" where
  "fixed_digits 0 n = []"
| "fixed_digits (Suc w) n = fixed_digits w (n div 10) @ [48 + n mod 10]"

text \<open>\<^verbatim>\<open>%0wd\<close>: at least \<open>w\<close> digits, padded with zeros.\<close>

definition zpad :: "nat \<Rightarrow> nat \<Rightarrow> pystr" where
  "zpad w n = (if n < 10 ^ w then fixed_digits w n else nat_digits n)"

definition strftime_stamp :: "datetime \<Rightarrow> pystr" where
  "strftime_stamp d =
     zpad 4 (year d) @ zpad 2 (month d) @ zpad 2 (day d) @ ustr ''_'' @
     zpad 2 (hour d) @ zpad 2 (minute d) @ zpad 2 (second d)"

definition LOG_DIR :: pystr where
  "LOG_DIR = ustr ''logs''"

text \<open>\<^verbatim>\<open>posixpath.join(a, b)\<close> for two components (47 is \<^verbatim>\<open>/\<close>).\<close>

definition path_join :: "pystr \<Rightarrow> pystr \<Rightarrow> pystr" where
  "path_join a b =
     (if b \<noteq> [] \<and> hd b = 47 then b
      else if a = [] \<or> last a = 47 then a @ b
      else a @ [47] @ b)"

definition log_file_path :: "datetime \<Rightarrow> pystr" where
  "log_file_path d = path_join LOG_DIR (ustr ''analyze_result_'' @ strftime_stamp d @ ustr ''.json'')"

section \<open>Reading a time stamp back\<close>

definition ts_digit :: "codepoint \<Rightarrow> bool" where
  "ts_digit c \<longleftrightarrow> 48 \<le> c \<and> c \<le> 57"

definition decimal_value :: "pystr \<Rightarrow> nat" where
  "decimal_value ds = foldl (\<lambda>n c. 10 * n + (c - 48)) 0 ds"

definition read_stamp :: "pystr \<Rightarrow> (nat \<times> nat \<times> nat \<times> nat \<times> nat \<times> nat) option" where
  "read_stamp t =
     (if length t = 15 \<and> t ! 8 = 95 \<and> list_all ts_digit (take 8 t @ drop 9 t)
      then Some (decimal_value (take 4 t), decimal_value (take 2 (drop 4 t)),
                 decimal_value (take 2 (drop 6 t)), decimal_value (take 2 (drop 9 t)),
                 decimal_value (take 2 (drop 11 t)), decimal_value (drop 13 t))
      else None)"

text \<open>Reading the fields back from a log path of the shape the script writes.\<close>

definition read_log_path :: "pystr \<Rightarrow> (nat \<times> nat \<times> nat \<times> nat \<times> nat \<times> nat) option" where
  "read_log_path p =
     (if length p = 40 \<and> take 20 p = ustr ''logs/analyze_result_'' \<and> drop 35 p = ustr ''.json''
      then read_stamp (take 15 (drop 20 p)) else None)"

section \<open>Lemmas\<close>

lemma length_fixed_digits [simp]: "length (fixed_digits w n) = w"
  by (induction w arbitrary: n) auto

lemma fixed_digits_digits: "list_all ts_digit (fixed_digits w n)"
  by (induction w arbitrary: n) (auto simp: ts_digit_def)

lemma decimal_value_snoc: "decimal_value (xs @ [c]) = 10 * decimal_value xs + (c - 48)"
  by (simp add: decimal_value_def)

lemma decimal_value_fixed_digits: "decimal_value (fixed_digits w n) = n mod 10 ^ w"
proof (induction w arbitrary: n)
  case 0
  then show ?case by (simp add: decimal_value_def)
next
  case (Suc w)
  have "n mod 10 ^ Suc w = 10 * (n div 10 mod 10 ^ w) + n mod 10"
    by (simp add: mod_mult2_eq)
  with Suc show ?case by (simp add: decimal_value_snoc)
qed

lemma ten_digit_eq:
  "10 * x + r = 10 * y + t \<Longrightarrow> r < 10 \<Longrightarrow> t < 10 \<Longrightarrow> x = y \<and> r = t"
  for x y r t :: nat
proof -
  assume e: "10 * x + r = 10 * y + t" and "r < 10" "t < 10"
  then have "x = (10 * x + r) div 10" "y = (10 * y + t) div 10" by simp_all
  with e have "x = y" by simp
  with e show ?thesis by simp
qed

lemma days_in_month_le: "days_in_month y m \<le> 31"
  by (simp add: days_in_month_def)

lemma fixed_digits_eq_iff: "fixed_digits w a = fixed_digits w b \<longleftrightarrow> a mod 10 ^ w = b mod 10 ^ w"
proof
  assume "fixed_digits w a = fixed_digits w b"
  then show "a mod 10 ^ w = b mod 10 ^ w"
    by (metis decimal_value_fixed_digits)
next
  assume "a mod 10 ^ w = b mod 10 ^ w"
  then show "fixed_digits w a = fixed_digits w b"
  proof (induction w arbitrary: a b)
    case (Suc w)
    have "10 * (a div 10 mod 10 ^ w) + a mod 10 = 10 * (b div 10 mod 10 ^ w) + b mod 10"
      using Suc.prems by (simp add: mod_mult2_eq)
    then have "a div 10 mod 10 ^ w = b div 10 mod 10 ^ w \<and> a mod 10 = b mod 10"
      by (rule ten_digit_eq) simp_all
    then show ?case using Suc.IH [of "a div 10" "b div 10"] by simp
  qed simp
qed

lemma append_less_same_length:
  "length xs = length ys \<Longrightarrow> (xs @ a < ys @ b \<longleftrightarrow> xs < ys \<or> xs = ys \<and> a < b)"
  for xs ys a b :: "'a::linorder list"
proof (induction xs ys rule: list_induct2)
  case (Cons x xs y ys)
  then show ?case by auto
qed simp

lemma append_less_cancel_left: "(p @ xs < p @ ys) \<longleftrightarrow> xs < ys"
  for p xs ys :: "'a::linorder list"
  by (induction p) auto

lemma fixed_digits_less_iff:
  "fixed_digits w a < fixed_digits w b \<longleftrightarrow> a mod 10 ^ w < b mod 10 ^ w"
proof (induction w arbitrary: a b)
  case (Suc w)
  let ?x = "a div 10 mod 10 ^ w" and ?y = "b div 10 mod 10 ^ w"
  have a: "a mod 10 ^ Suc w = 10 * ?x + a mod 10" and b: "b mod 10 ^ Suc w = 10 * ?y + b mod 10"
    by (simp_all add: mod_mult2_eq)
  have r: "a mod 10 < 10" "b mod 10 < 10" by simp_all
  have "fixed_digits (Suc w) a < fixed_digits (Suc w) b \<longleftrightarrow>
          ?x < ?y \<or> ?x = ?y \<and> a mod 10 < b mod 10"
    by (simp add: append_less_same_length Suc.IH fixed_digits_eq_iff)
  also have "\<dots> \<longleftrightarrow> 10 * ?x + a mod 10 < 10 * ?y + b mod 10"
    using r by linarith
  finally show ?case using a b by simp
qed simp

lemma zpad_fixed: "n < 10 ^ w \<Longrightarrow> zpad w n = fixed_digits w n"
  by (simp add: zpad_def)

lemma valid_fields:
  "valid_datetime d \<Longrightarrow> year d < 10 ^ 4 \<and> month d < 10 ^ 2 \<and> day d < 10 ^ 2 \<and>
     hour d < 10 ^ 2 \<and> minute d < 10 ^ 2 \<and> second d < 10 ^ 2"
  using days_in_month_le [of "year d" "month d"] by (auto simp: valid_datetime_def)

lemma strftime_stamp_valid:
  assumes "valid_datetime d"
  shows "strftime_stamp d =
           fixed_digits 4 (year d) @ fixed_digits 2 (month d) @ fixed_digits 2 (day d) @ [95] @
           fixed_digits 2 (hour d) @ fixed_digits 2 (minute d) @ fixed_digits 2 (second d)"
  using valid_fields [OF assms] by (simp add: strftime_stamp_def zpad_fixed)

lemma log_file_path_eq:
  "log_file_path d = ustr ''logs/analyze_result_'' @ strftime_stamp d @ ustr ''.json''"
  by (simp add: log_file_path_def path_join_def LOG_DIR_def)

lemma stamp_less_iff:
  assumes "valid_datetime d1" "valid_datetime d2"
  shows "strftime_stamp d1 < strftime_stamp d2 \<longleftrightarrow> to_second d1 < to_second d2"
  using valid_fields [OF assms(1)] valid_fields [OF assms(2)]
  by (simp add: strftime_stamp_valid [OF assms(1)] strftime_stamp_valid [OF assms(2)]
                append_less_same_length fixed_digits_less_iff fixed_digits_eq_iff
                to_second_def less_datetime_def dt_key_def)
     auto

lemma stamp_eq_iff:
  assumes "valid_datetime d1" "valid_datetime d2"
  shows "strftime_stamp d1 = strftime_stamp d2 \<longleftrightarrow> to_second d1 = to_second d2"
  using valid_fields [OF assms(1)] valid_fields [OF assms(2)]
  by (simp add: strftime_stamp_valid [OF assms(1)] strftime_stamp_valid [OF assms(2)]
                fixed_digits_eq_iff to_second_def)

lemma read_stamp_strftime:
  assumes "valid_datetime d"
  shows "read_stamp (strftime_stamp d) = Some (year d, month d, day d, hour d, minute d, second d)"
  using valid_fields [OF assms]
  by (simp add: read_stamp_def strftime_stamp_valid [OF assms] fixed_digits_digits
                decimal_value_fixed_digits nth_append)

lemma length_strftime_stamp: "valid_datetime d \<Longrightarrow> length (strftime_stamp d) = 15"
  by (simp add: strftime_stamp_valid)

text \<open>C13. For every valid time, the log path is \<^verbatim>\<open>logs/analyze_result_YYYYmmdd_HHMMSS.json\<close>:
  forty characters, from which year, month, day, hour, minute and second read back.\<close>

theorem log_file_path_read_back:
  assumes "valid_datetime d"
  shows "read_log_path (log_file_path d) = Some (year d, month d, day d, hour d, minute d, second d)"
  using length_strftime_stamp [OF assms] read_stamp_strftime [OF assms]
  by (simp add: read_log_path_def log_file_path_eq)

theorem log_file_path_read_back_witness:
  "valid_datetime (DateTime 2026 11 9 3 5 27 123456) \<and>
   read_log_path (log_file_path (DateTime 2026 11 9 3 5 27 123456)) = Some (2026, 11, 9, 3, 5, 27)"
proof -
  have v: "valid_datetime (DateTime 2026 11 9 3 5 27 123456)"
    by (simp add: valid_datetime_def days_in_month_def)
  show ?thesis using v log_file_path_read_back [OF v] by simp
qed

text \<open>C14. Log paths sort as the times they record: for valid times, one path is
  lexicographically (as Python compares strings) below another exactly when its time,
  truncated to the second, is earlier.\<close>

theorem log_file_path_less_iff:
  assumes "valid_datetime d1" "valid_datetime d2"
  shows "log_file_path d1 < log_file_path d2 \<longleftrightarrow> to_second d1 < to_second d2"
  using stamp_less_iff [OF assms] length_strftime_stamp [OF assms(1)] length_strftime_stamp [OF assms(2)]
  by (simp add: log_file_path_eq append_less_cancel_left append_less_same_length)

theorem log_file_path_less_iff_witness:
  "valid_datetime (DateTime 2026 11 9 23 59 59 0) \<and> valid_datetime (DateTime 2026 11 10 0 0 0 0) \<and>
   log_file_path (DateTime 2026 11 9 23 59 59 0) < log_file_path (DateTime 2026 11 10 0 0 0 0)"
proof -
  have v: "valid_datetime (DateTime 2026 11 9 23 59 59 0)" "valid_datetime (DateTime 2026 11 10 0 0 0 0)"
    by (simp_all add: valid_datetime_def days_in_month_def)
  have "to_second (DateTime 2026 11 9 23 59 59 0) < to_second (DateTime 2026 11 10 0 0 0 0)"
    by (simp add: to_second_def less_datetime_def dt_key_def)
  with v show ?thesis using log_file_path_less_iff [OF v] by simp
qed

text \<open>C15. Two runs in the same second write the same path, so the later run's
  \<^verbatim>\<open>open(LOG_FILE_PATH, "w")\<close> overwrites the earlier log; runs in different
  seconds never share a path.\<close>

theorem log_file_path_collision:
  assumes "valid_datetime d1" "valid_datetime d2"
  shows "log_file_path d1 = log_file_path d2 \<longleftrightarrow> to_second d1 = to_second d2"
  using stamp_eq_iff [OF assms] by (simp add: log_file_path_eq)

theorem log_file_path_collision_witness:
  "valid_datetime (DateTime 2026 11 9 3 5 27 100) \<and> valid_datetime (DateTime 2026 11 9 3 5 27 900000) \<and>
   DateTime 2026 11 9 3 5 27 100 \<noteq> DateTime 2026 11 9 3 5 27 900000 \<and>
   log_file_path (DateTime 2026 11 9 3 5 27 100) = log_file_path (DateTime 2026 11 9 3 5 27 900000)"
proof -
  have v: "valid_datetime (DateTime 2026 11 9 3 5 27 100)" "valid_datetime (DateTime 2026 11 9 3 5 27 900000)"
    by (simp_all add: valid_datetime_def days_in_month_def)
  have "to_second (DateTime 2026 11 9 3 5 27 100) = to_second (DateTime 2026 11 9 3 5 27 900000)"
    by (simp add: to_second_def)
  with v show ?thesis using log_file_path_collision [OF v] by simp
qed

end
