(* ===== verification/Utf8.thy ===== *)
theory Utf8
  imports Prelude
begin

text \<open>
  The UTF-8 encoder behind \<^verbatim>\<open>open(LOG_FILE_PATH, "w", encoding="utf-8")\<close> of
  \<^verbatim>\<open>src/main.py\<close>, line 94: every \<^verbatim>\<open>write\<close> of the text file encodes its
  argument with CPython's strict UTF-8 encoder (\<^verbatim>\<open>utf8_encoder\<close> of
  \<^verbatim>\<open>Objects/stringlib/codecs.h\<close>), which works on a 32-bit \<^verbatim>\<open>Py_UCS4\<close> with
  shifts and masks and raises \<^verbatim>\<open>UnicodeEncodeError\<close> on a surrogate code point.
  The code point is a \<open>32 word\<close> here and each byte an \<open>8 word\<close>, as in C.
  A strict decoder is the reference the encoder is proved against: it rejects
  overlong forms, surrogates and values above \<^verbatim>\<open>0x10FFFF\<close>, as
  \<^verbatim>\<open>bytes.decode("utf-8")\<close> does.
\<close>

unbundle bit_operations_syntax

section \<open>The encoder\<close>

text \<open>One code point (\<^verbatim>\<open>Py_UNICODE_IS_SURROGATE\<close> is \<open>0xD800 \<le> ch \<le> 0xDFFF\<close>).
  A Python \<^verbatim>\<open>str\<close> holds code points below \<^verbatim>\<open>0x110000\<close> only, so the last
  branch is the four-byte form.\<close>

definition utf8_encode_char :: "codepoint \<Rightarrow> byte list py_result" where
  "utf8_encode_char c =
     (let ch = (of_nat c :: 32 word) in
      if ch < 0x80 then Inr [ucast ch]
      else if ch < 0x800 then
        Inr [ucast (0xC0 OR drop_bit 6 ch), ucast (0x80 OR (ch AND 0x3F))]
      else if 0xD800 \<le> ch \<and> ch \<le> 0xDFFF then Inl UnicodeEncodeError
      else if ch < 0x10000 then
        Inr [ucast (0xE0 OR drop_bit 12 ch), ucast (0x80 OR (drop_bit 6 ch AND 0x3F)),
             ucast (0x80 OR (ch AND 0x3F))]
      else
        Inr [ucast (0xF0 OR drop_bit 18 ch), ucast (0x80 OR (drop_bit 12 ch AND 0x3F)),
             ucast (0x80 OR (drop_bit 6 ch AND 0x3F)), ucast (0x80 OR (ch AND 0x3F))])"

text \<open>\<^verbatim>\<open>str.encode("utf-8")\<close>: the characters in order; the first surrogate raises.\<close>

definition utf8_encode :: "pystr \<Rightarrow> byte list py_result" where
  "utf8_encode s = bindE (mapE utf8_encode_char s) (\<lambda>bss. Inr (concat bss))"

section \<open>The reference decoder\<close>

text \<open>A Unicode scalar value: a code point that is not a surrogate.\<close>

definition scalar_value :: "codepoint \<Rightarrow> bool" where
  "scalar_value c \<longleftrightarrow> c < 0x110000 \<and> \<not> (55296 \<le> c \<and> c \<le> 57343)"

text \<open>A continuation byte \<^verbatim>\<open>10xxxxxx\<close>.\<close>

definition is_cont :: "byte \<Rightarrow> bool" where
  "is_cont b \<longleftrightarrow> 128 \<le> unat b \<and> unat b < 192"

text \<open>Strict decoding, shortest forms only.\<close>

fun utf8_decode :: "byte list \<Rightarrow> pystr option" where
  "utf8_decode [] = Some []"
| "utf8_decode (b0 # bs) =
     (let n = unat b0 in
      if n < 128 then map_option (Cons n) (utf8_decode bs)
      else if 194 \<le> n \<and> n < 224 then
        (case bs of
           b1 # r \<Rightarrow> if is_cont b1 then map_option (Cons ((n - 192) * 64 + (unat b1 - 128))) (utf8_decode r)
                     else None
         | [] \<Rightarrow> None)
      else if 224 \<le> n \<and> n < 240 then
        (case bs of
           b1 # b2 # r \<Rightarrow>
             let c = (n - 224) * 4096 + (unat b1 - 128) * 64 + (unat b2 - 128) in
             if is_cont b1 \<and> is_cont b2 \<and> 2048 \<le> c \<and> scalar_value c
             then map_option (Cons c) (utf8_decode r) else None
         | _ \<Rightarrow> None)
      else if 240 \<le> n \<and> n < 245 then
        (case bs of
           b1 # b2 # b3 # r \<Rightarrow>
             let c = (n - 240) * 262144 + (unat b1 - 128) * 4096 + (unat b2 - 128) * 64 + (unat b3 - 128) in
             if is_cont b1 \<and> is_cont b2 \<and> is_cont b3 \<and> 65536 \<le> c \<and> scalar_value c
             then map_option (Cons c) (utf8_decode r) else None
         | _ \<Rightarrow> None)
      else None)"

declare utf8_decode.simps(2) [simp del]

section \<open>Lemmas\<close>

subsection \<open>Bits of a code point\<close>


lemma or_add_low:
  fixes a m :: nat
  assumes "m < 2 ^ k"
  shows "2 ^ k * a OR m = 2 ^ k * a + m"
proof -
  have "(2 ^ k * a) AND m = 0"
  proof (rule bit_eqI)
    fix n
    show "bit (2 ^ k * a AND m) n = bit 0 n"
    proof (cases "n < k")
      case True
      have "2 ^ k * a = push_bit k a" by (simp add: push_bit_eq_mult)
      with True show ?thesis by (simp add: bit_and_iff bit_push_bit_iff)
    next
      case False
      then have "m < 2 ^ n" using assms
        by (meson less_le_trans not_less power_increasing_iff one_less_numeral_iff semiring_norm(76))
      then have "\<not> bit m n" by (simp add: bit_iff_odd)
      then show ?thesis by (simp add: bit_and_iff)
    qed
  qed
  then show ?thesis by (simp add: disjunctive_add_eq_or)
qed

lemma ucast_word_of_nat: "n < 2 ^ 32 \<Longrightarrow> (ucast (of_nat n :: 32 word) :: byte) = of_nat n"
  by (simp add: unsigned_of_nat take_bit_nat_eq_self)

lemma w32_and_3F: "(of_nat c :: 32 word) AND 0x3F = of_nat (c mod 64)"
proof -
  have "(of_nat c :: 32 word) AND 0x3F = of_nat (c AND 63)"
    by (simp add: of_nat_and_eq)
  also have "c AND 63 = c mod 64"
    using take_bit_eq_mask [of 6 c] by (simp add: take_bit_eq_mod mask_numeral)
  finally show ?thesis .
qed

lemma w32_drop_bit:
  assumes "c < 2 ^ 32"
  shows "drop_bit k (of_nat c :: 32 word) = of_nat (c div 2 ^ k)"
proof (rule word_unat_eq_iff [THEN iffD2])
  have "c div 2 ^ k < 2 ^ 32" using assms by (meson div_le_dividend le_less_trans)
  then show "unat (drop_bit k (of_nat c :: 32 word)) = unat (of_nat (c div 2 ^ k) :: 32 word)"
    using assms by (simp only: unat_drop_bit_eq) (simp add: unsigned_of_nat take_bit_nat_eq_self drop_bit_eq_div)
qed

lemma w32_or_lead:
  assumes "m < 2 ^ k"
  shows "(of_nat (2 ^ k * a) :: 32 word) OR of_nat m = of_nat (2 ^ k * a + m)"
  using or_add_low [OF assms, of a] by (metis of_nat_or_eq)

lemma byte_cont:
  assumes "c < 2 ^ 32"
  shows "(ucast (0x80 OR (drop_bit k (of_nat c :: 32 word) AND 0x3F)) :: byte) = of_nat (128 + c div 2 ^ k mod 64)"
proof -
  have a: "(0x80 :: 32 word) OR of_nat (c div 2 ^ k mod 64) = of_nat (128 + c div 2 ^ k mod 64)"
    using w32_or_lead [of "c div 2 ^ k mod 64" 6 2] by simp
  have b: "drop_bit k (of_nat c :: 32 word) AND 0x3F = of_nat (c div 2 ^ k mod 64)"
    by (simp only: w32_drop_bit [OF assms] w32_and_3F)
  have u: "(ucast (of_nat (128 + c div 2 ^ k mod 64) :: 32 word) :: byte) = of_nat (128 + c div 2 ^ k mod 64)"
    by (rule ucast_word_of_nat) simp
  show ?thesis by (simp only: a b u)
qed

lemma byte_cont0:
  "c < 2 ^ 32 \<Longrightarrow> (ucast (0x80 OR ((of_nat c :: 32 word) AND 0x3F)) :: byte) = of_nat (128 + c mod 64)"
  using byte_cont [of c 0] by simp

lemma byte_lead:
  assumes "c < 2 ^ 32" "c div 2 ^ k < 2 ^ j" "L = 2 ^ j * a" "L + c div 2 ^ k < 2 ^ 32"
  shows "(ucast ((of_nat L :: 32 word) OR drop_bit k (of_nat c)) :: byte) = of_nat (L + c div 2 ^ k)"
proof -
  have "(of_nat L :: 32 word) OR drop_bit k (of_nat c) = of_nat (L + c div 2 ^ k)"
    by (simp only: w32_drop_bit [OF assms(1)] assms(3)) (rule w32_or_lead [OF assms(2)])
  then show ?thesis by (simp only: ucast_word_of_nat [OF assms(4)])
qed

lemma w32_less_of_nat:
  "c < 2 ^ 32 \<Longrightarrow> m < 2 ^ 32 \<Longrightarrow> ((of_nat c :: 32 word) < of_nat m \<longleftrightarrow> c < m)"
  "c < 2 ^ 32 \<Longrightarrow> m < 2 ^ 32 \<Longrightarrow> ((of_nat m :: 32 word) \<le> of_nat c \<longleftrightarrow> m \<le> c)"
  "c < 2 ^ 32 \<Longrightarrow> m < 2 ^ 32 \<Longrightarrow> ((of_nat c :: 32 word) \<le> of_nat m \<longleftrightarrow> c \<le> m)"
  by (simp_all add: word_less_nat_alt word_le_nat_alt unsigned_of_nat take_bit_nat_eq_self)

subsection \<open>One code point\<close>

lemma utf8_encode_char_nat:
  assumes "c < 0x110000"
  shows "utf8_encode_char c =
    (if c < 128 then Inr [of_nat c]
     else if c < 2048 then Inr [of_nat (192 + c div 64), of_nat (128 + c mod 64)]
     else if 55296 \<le> c \<and> c \<le> 57343 then Inl UnicodeEncodeError
     else if c < 65536 then
       Inr [of_nat (224 + c div 4096), of_nat (128 + c div 64 mod 64), of_nat (128 + c mod 64)]
     else
       Inr [of_nat (240 + c div 262144), of_nat (128 + c div 4096 mod 64),
            of_nat (128 + c div 64 mod 64), of_nat (128 + c mod 64)])"
proof -
  have c: "c < 2 ^ 32" using assms by simp
  have l2: "c < 2048 \<Longrightarrow> (ucast ((0xC0 :: 32 word) OR drop_bit 6 (of_nat c)) :: byte) = of_nat (192 + c div 64)"
    using byte_lead [OF c, of 6 6 192 3] by simp
  have l3: "c < 65536 \<Longrightarrow> (ucast ((0xE0 :: 32 word) OR drop_bit 12 (of_nat c)) :: byte) = of_nat (224 + c div 4096)"
    using byte_lead [OF c, of 12 4 224 14] by simp
  have l4: "(ucast ((0xF0 :: 32 word) OR drop_bit 18 (of_nat c)) :: byte) = of_nat (240 + c div 262144)"
    using byte_lead [OF c, of 18 3 240 30] assms by simp
  have cmp: "(of_nat c :: 32 word) < 0x80 \<longleftrightarrow> c < 128" "(of_nat c :: 32 word) < 0x800 \<longleftrightarrow> c < 2048"
    "(of_nat c :: 32 word) < 0x10000 \<longleftrightarrow> c < 65536"
    "(0xD800 :: 32 word) \<le> of_nat c \<longleftrightarrow> 55296 \<le> c" "(of_nat c :: 32 word) \<le> 0xDFFF \<longleftrightarrow> c \<le> 57343"
    using w32_less_of_nat [OF c, of 128] w32_less_of_nat [OF c, of 2048] w32_less_of_nat [OF c, of 65536]
      w32_less_of_nat [OF c, of 55296] w32_less_of_nat [OF c, of 57343]
    by simp_all
  show ?thesis
    using l2 l3 l4 ucast_word_of_nat [OF c]
    by (simp add: utf8_encode_char_def Let_def cmp byte_cont [OF c] byte_cont0 [OF c])
qed

lemma unat_byte_of_nat [simp]: "n < 256 \<Longrightarrow> unat (of_nat n :: byte) = n"
  by (simp add: unsigned_of_nat take_bit_nat_eq_self)

lemma div_mod_64_3: "c div 4096 * 4096 + c div 64 mod 64 * 64 + c mod 64 = (c::nat)"
proof -
  have "c mod 4096 = 64 * (c div 64 mod 64) + c mod 64"
    using mod_mult2_eq [of c 64 64] by simp
  then show ?thesis using div_mult_mod_eq [of c 4096] by simp
qed

lemma div_mod_64_4:
  "c div 262144 * 262144 + c div 4096 mod 64 * 4096 + c div 64 mod 64 * 64 + c mod 64 = (c::nat)"
proof -
  have "c mod 262144 = 4096 * (c div 4096 mod 64) + c mod 4096"
    using mod_mult2_eq [of c 4096 64] by simp
  moreover have "c mod 4096 = 64 * (c div 64 mod 64) + c mod 64"
    using mod_mult2_eq [of c 64 64] by simp
  ultimately show ?thesis using div_mult_mod_eq [of c 262144] by linarith
qed

lemma utf8_decode_1: "unat b0 < 128 \<Longrightarrow> utf8_decode (b0 # r) = map_option (Cons (unat b0)) (utf8_decode r)"
  by (simp add: utf8_decode.simps(2))

lemma utf8_decode_2:
  "194 \<le> unat b0 \<Longrightarrow> unat b0 < 224 \<Longrightarrow> is_cont b1 \<Longrightarrow>
   utf8_decode (b0 # b1 # r) = map_option (Cons ((unat b0 - 192) * 64 + (unat b1 - 128))) (utf8_decode r)"
  by (simp add: utf8_decode.simps(2))

lemma utf8_decode_3:
  "224 \<le> unat b0 \<Longrightarrow> unat b0 < 240 \<Longrightarrow> is_cont b1 \<Longrightarrow> is_cont b2 \<Longrightarrow>
   c = (unat b0 - 224) * 4096 + (unat b1 - 128) * 64 + (unat b2 - 128) \<Longrightarrow> 2048 \<le> c \<Longrightarrow> scalar_value c \<Longrightarrow>
   utf8_decode (b0 # b1 # b2 # r) = map_option (Cons c) (utf8_decode r)"
  by (simp add: utf8_decode.simps(2) Let_def)

lemma utf8_decode_4:
  "240 \<le> unat b0 \<Longrightarrow> unat b0 < 245 \<Longrightarrow> is_cont b1 \<Longrightarrow> is_cont b2 \<Longrightarrow> is_cont b3 \<Longrightarrow>
   c = (unat b0 - 240) * 262144 + (unat b1 - 128) * 4096 + (unat b2 - 128) * 64 + (unat b3 - 128) \<Longrightarrow>
   65536 \<le> c \<Longrightarrow> scalar_value c \<Longrightarrow>
   utf8_decode (b0 # b1 # b2 # b3 # r) = map_option (Cons c) (utf8_decode r)"
  by (simp add: utf8_decode.simps(2) Let_def)

lemma cont_byte:
  assumes "b = of_nat (128 + k mod 64)"
  shows "is_cont b" "unat b - 128 = k mod 64"
proof -
  have "unat (of_nat (128 + k mod 64) :: byte) = 128 + k mod 64"
    by (rule unat_byte_of_nat) simp
  then show "is_cont b" "unat b - 128 = k mod 64" by (simp_all add: assms is_cont_def)
qed

lemma utf8_char_round_trip:
  assumes "scalar_value c"
  obtains bs where "utf8_encode_char c = Inr bs"
    and "\<And>r. utf8_decode (bs @ r) = map_option (Cons c) (utf8_decode r)"
proof -
  have c: "c < 0x110000" using assms by (simp add: scalar_value_def)
  note enc = utf8_encode_char_nat [OF c]
  define b1 b2 b3 where "b1 = (of_nat (128 + c div 4096 mod 64) :: byte)"
    and "b2 = (of_nat (128 + c div 64 mod 64) :: byte)" and "b3 = (of_nat (128 + c mod 64) :: byte)"
  note cb = cont_byte [OF b1_def] cont_byte [OF b2_def] cont_byte [OF b3_def]
  consider "c < 128" | "128 \<le> c" "c < 2048" | "2048 \<le> c" "c < 65536" | "65536 \<le> c"
    by linarith
  then show ?thesis
  proof cases
    case 1
    then have "unat (of_nat c :: byte) = c" by simp
    with 1 show ?thesis using that [of "[of_nat c]"] utf8_decode_1 [of "of_nat c"] by (simp add: enc)
  next
    case 2
    define b0 where "b0 = (of_nat (192 + c div 64) :: byte)"
    have u: "unat b0 = 192 + c div 64" unfolding b0_def by (rule unat_byte_of_nat) (use 2 in simp)
    have "utf8_encode_char c = Inr [b0, b3]" using 2 by (simp add: enc b0_def b3_def)
    moreover have "utf8_decode ([b0, b3] @ r) = map_option (Cons c) (utf8_decode r)" for r
      using 2 u utf8_decode_2 [of b0 b3 r] cb by simp
    ultimately show ?thesis by (rule that)
  next
    case 3
    define b0 where "b0 = (of_nat (224 + c div 4096) :: byte)"
    have u: "unat b0 = 224 + c div 4096" unfolding b0_def by (rule unat_byte_of_nat) (use 3 in simp)
    have hi: "c div 4096 < 16" using 3 by simp
    have "utf8_encode_char c = Inr [b0, b2, b3]"
      using 3 assms by (simp add: enc b0_def b2_def b3_def scalar_value_def)
    moreover have "utf8_decode ([b0, b2, b3] @ r) = map_option (Cons c) (utf8_decode r)" for r
    proof -
      have "unat b0 - 224 = c div 4096" using u by simp
      then have eq: "c = (unat b0 - 224) * 4096 + (unat b2 - 128) * 64 + (unat b3 - 128)"
        unfolding cb(4) cb(6) by (rule ssubst) (rule div_mod_64_3 [symmetric])
      have "utf8_decode (b0 # b2 # b3 # r) = map_option (Cons c) (utf8_decode r)"
        by (rule utf8_decode_3 [OF _ _ cb(3) cb(5) eq]) (use u hi 3 assms in simp_all)
      then show ?thesis by simp
    qed
    ultimately show ?thesis by (rule that)
  next
    case 4
    define b0 where "b0 = (of_nat (240 + c div 262144) :: byte)"
    have u: "unat b0 = 240 + c div 262144" unfolding b0_def by (rule unat_byte_of_nat) (use c in simp)
    have hi: "c div 262144 < 5" using c by simp
    have "utf8_encode_char c = Inr [b0, b1, b2, b3]"
      using 4 by (simp add: enc b0_def b1_def b2_def b3_def)
    moreover have "utf8_decode ([b0, b1, b2, b3] @ r) = map_option (Cons c) (utf8_decode r)" for r
    proof -
      have "unat b0 - 240 = c div 262144" using u by simp
      then have eq: "c = (unat b0 - 240) * 262144 + (unat b1 - 128) * 4096 + (unat b2 - 128) * 64 + (unat b3 - 128)"
        unfolding cb(2) cb(4) cb(6) by (rule ssubst) (rule div_mod_64_4 [symmetric])
      have "utf8_decode (b0 # b1 # b2 # b3 # r) = map_option (Cons c) (utf8_decode r)"
        by (rule utf8_decode_4 [OF _ _ cb(1) cb(3) cb(5) eq]) (use u hi 4 assms in simp_all)
      then show ?thesis by simp
    qed
    ultimately show ?thesis by (rule that)
  qed
qed

lemma utf8_encode_char_Inl: "utf8_encode_char c = Inl e \<Longrightarrow> e = UnicodeEncodeError"
  by (simp add: utf8_encode_char_def Let_def split: if_splits)

lemma utf8_encode_char_surrogate:
  "c < 0x110000 \<Longrightarrow> \<not> scalar_value c \<Longrightarrow> utf8_encode_char c = Inl UnicodeEncodeError"
  by (simp add: utf8_encode_char_nat scalar_value_def)

subsection \<open>Strings\<close>

lemma utf8_encode_Nil [simp]: "utf8_encode [] = Inr []"
  by (simp add: utf8_encode_def)

lemma utf8_encode_Cons:
  "utf8_encode (c # s) = bindE (utf8_encode_char c) (\<lambda>bs. bindE (utf8_encode s) (\<lambda>r. Inr (bs @ r)))"
  by (simp add: utf8_encode_def bindE_def split: sum.splits)

lemma utf8_encode_append:
  "utf8_encode (s @ t) = bindE (utf8_encode s) (\<lambda>a. bindE (utf8_encode t) (\<lambda>b. Inr (a @ b)))"
  by (induction s) (simp_all add: utf8_encode_Cons bindE_def split: sum.splits)

lemma utf8_encode_Inl: "utf8_encode s = Inl e \<Longrightarrow> e = UnicodeEncodeError"
  by (induction s) (auto simp: utf8_encode_Cons bindE_eq_Inl_iff dest: utf8_encode_char_Inl)

lemma utf8_encode_ascii: "list_all (\<lambda>c. c < 128) s \<Longrightarrow> utf8_encode s = Inr (map of_nat s)"
  by (induction s) (simp_all add: utf8_encode_Cons utf8_encode_char_nat)

lemma utf8_encode_scalar:
  "list_all scalar_value s \<Longrightarrow> \<exists>bs. utf8_encode s = Inr bs \<and> utf8_decode bs = Some s"
proof (induction s)
  case (Cons c s)
  then obtain r where r: "utf8_encode s = Inr r" "utf8_decode r = Some s" by auto
  from Cons.prems obtain bs where "utf8_encode_char c = Inr bs"
    and "\<And>r. utf8_decode (bs @ r) = map_option (Cons c) (utf8_decode r)"
    by (auto elim: utf8_char_round_trip)
  with r show ?case by (simp add: utf8_encode_Cons)
qed simp

lemma utf8_encode_surrogate_Inl:
  "list_all (\<lambda>c. c < 0x110000) s \<Longrightarrow> \<not> list_all scalar_value s \<Longrightarrow>
   utf8_encode s = Inl UnicodeEncodeError"
proof (induction s)
  case (Cons c s)
  show ?case
  proof (cases "scalar_value c")
    case True
    then obtain bs where "utf8_encode_char c = Inr bs" by (auto elim: utf8_char_round_trip)
    with True Cons show ?thesis by (simp add: utf8_encode_Cons)
  next
    case False
    with Cons.prems show ?thesis by (simp add: utf8_encode_Cons utf8_encode_char_surrogate)
  qed
qed simp

section \<open>Properties of the encoder\<close>

text \<open>
  C16. Every string of Unicode scalar values encodes without error, and the strict
  decoder reads the bytes back to the same string: the log file holds exactly the
  text that was written.
\<close>

theorem utf8_round_trip:
  "list_all scalar_value s \<Longrightarrow> \<exists>bs. utf8_encode s = Inr bs \<and> utf8_decode bs = Some s"
  by (rule utf8_encode_scalar)

theorem utf8_round_trip_witness:
  "list_all scalar_value [26085, 26412, 128512, 65] \<and>
   (\<exists>bs. utf8_encode [26085, 26412, 128512, 65] = Inr bs \<and>
         utf8_decode bs = Some [26085, 26412, 128512, 65])"
proof -
  have h: "list_all scalar_value [26085, 26412, 128512, 65]" by (simp add: scalar_value_def)
  show ?thesis using h utf8_round_trip [OF h] by simp
qed

text \<open>
  C17. Encoding a Python string fails exactly when the string holds a surrogate code
  point, and then with \<^verbatim>\<open>UnicodeEncodeError\<close>; no other error is possible.
\<close>

theorem utf8_encode_error_iff:
  assumes "list_all (\<lambda>c. c < 0x110000) s"
  shows "utf8_encode s = Inl e \<longleftrightarrow> e = UnicodeEncodeError \<and> (\<exists>c \<in> set s. 55296 \<le> c \<and> c \<le> 57343)"
proof (cases "list_all scalar_value s")
  case True
  then show ?thesis
    using utf8_encode_scalar [OF True] by (auto simp: list_all_iff scalar_value_def)
next
  case False
  with assms show ?thesis
    using utf8_encode_surrogate_Inl [OF assms False] by (auto simp: list_all_iff scalar_value_def)
qed

theorem utf8_encode_error_iff_witness:
  "list_all (\<lambda>c. c < 0x110000) [72, 55357 :: codepoint] \<and>
   utf8_encode [72, 55357] = Inl UnicodeEncodeError"
proof -
  have h: "list_all (\<lambda>c. c < 0x110000) [72, 55357 :: codepoint]" by simp
  have "\<exists>c \<in> set [72, 55357 :: codepoint]. 55296 \<le> c \<and> c \<le> 57343" by simp
  with h show ?thesis using utf8_encode_error_iff [OF h, of UnicodeEncodeError] by simp
qed

text \<open>
  C30. The encoder's output stays within the bounds of UTF-8: a scalar value takes one
  byte below \<^verbatim>\<open>0x80\<close>, two below \<^verbatim>\<open>0x800\<close>, three below \<^verbatim>\<open>0x10000\<close> and
  four above, and no byte it writes is \<^verbatim>\<open>0xC0\<close>, \<^verbatim>\<open>0xC1\<close> or above
  \<^verbatim>\<open>0xF4\<close>, the values that never occur in UTF-8 text.
\<close>

theorem utf8_encode_char_bounds:
  assumes "scalar_value c"
  shows "\<exists>bs. utf8_encode_char c = Inr bs \<and>
           length bs = (if c < 128 then 1 else if c < 2048 then 2 else if c < 65536 then 3 else 4) \<and>
           list_all (\<lambda>b. unat b \<noteq> 192 \<and> unat b \<noteq> 193 \<and> unat b < 245) bs"
proof -
  have c: "c < 0x110000" using assms by (simp add: scalar_value_def)
  note enc = utf8_encode_char_nat [OF c]
  define b1 b2 b3 where "b1 = (of_nat (128 + c div 4096 mod 64) :: byte)"
    and "b2 = (of_nat (128 + c div 64 mod 64) :: byte)" and "b3 = (of_nat (128 + c mod 64) :: byte)"
  have cb: "unat b \<noteq> 192 \<and> unat b \<noteq> 193 \<and> unat b < 245" if "is_cont b" for b
    using that by (simp add: is_cont_def)
  note bs = cb [OF cont_byte(1) [OF b1_def]] cb [OF cont_byte(1) [OF b2_def]] cb [OF cont_byte(1) [OF b3_def]]
  consider "c < 128" | "128 \<le> c" "c < 2048" | "2048 \<le> c" "c < 65536" | "65536 \<le> c"
    by linarith
  then show ?thesis
  proof cases
    case 1
    then show ?thesis by (simp add: enc)
  next
    case 2
    define b0 where "b0 = (of_nat (192 + c div 64) :: byte)"
    have "unat b0 = 192 + c div 64" unfolding b0_def by (rule unat_byte_of_nat) (use 2 in simp)
    moreover have "2 \<le> c div 64" "c div 64 < 32" using 2 by simp_all
    moreover have "utf8_encode_char c = Inr [b0, b3]" using 2 by (simp add: enc b0_def b3_def)
    ultimately show ?thesis using 2 bs by simp
  next
    case 3
    define b0 where "b0 = (of_nat (224 + c div 4096) :: byte)"
    have "unat b0 = 224 + c div 4096" unfolding b0_def by (rule unat_byte_of_nat) (use 3 in simp)
    moreover have "c div 4096 < 16" using 3 by simp
    moreover have "utf8_encode_char c = Inr [b0, b2, b3]"
      using 3 assms by (simp add: enc b0_def b2_def b3_def scalar_value_def)
    ultimately show ?thesis using 3 bs by simp
  next
    case 4
    define b0 where "b0 = (of_nat (240 + c div 262144) :: byte)"
    have "unat b0 = 240 + c div 262144" unfolding b0_def by (rule unat_byte_of_nat) (use c in simp)
    moreover have "c div 262144 < 5" using c by simp
    moreover have "utf8_encode_char c = Inr [b0, b1, b2, b3]"
      using 4 by (simp add: enc b0_def b1_def b2_def b3_def)
    ultimately show ?thesis using 4 bs by simp
  qed
qed

theorem utf8_encode_char_bounds_witness:
  "scalar_value 128512 \<and>
   (\<exists>bs. utf8_encode_char 128512 = Inr bs \<and> length bs = 4 \<and>
         list_all (\<lambda>b. unat b \<noteq> 192 \<and> unat b \<noteq> 193 \<and> unat b < 245) bs)"
proof -
  have h: "scalar_value 128512" by (simp add: scalar_value_def)
  show ?thesis using h utf8_encode_char_bounds [OF h] by simp
qed

end
