(* ===== verification/Log_Write.thy ===== *)
theory Log_Write
  imports Utf8 Json_Dump
begin

text \<open>
  Lines 94--95 of \<^verbatim>\<open>src/main.py\<close>:
  \<^verbatim>\<open>with open(LOG_FILE_PATH, "w", encoding="utf-8") as log_file:\<close>
  \<^verbatim>\<open>json.dump(result_dict, log_file, ensure_ascii=False, indent=2)\<close>.
  \<^verbatim>\<open>json.dump\<close> calls \<^verbatim>\<open>log_file.write(chunk)\<close> for every chunk of
  \<^verbatim>\<open>iterencode\<close> (theory \<open>Json_Dump\<close>); the text wrapper encodes each chunk on its
  own, strictly, when it is written (\<^verbatim>\<open>_io_TextIOWrapper_write_impl\<close>), and keeps
  the bytes of the chunks written so far, which the \<^verbatim>\<open>with\<close> block's
  \<^verbatim>\<open>close()\<close> flushes to the file also when the dump raises. The state is the
  file's content as a byte list.
\<close>

section \<open>Writing the chunks\<close>

text \<open>\<^verbatim>\<open>for chunk in chunks: fp.write(chunk)\<close>: the bytes written and the exception
  that ended the loop, if any.\<close>

fun text_write :: "byte list \<Rightarrow> pystr list \<Rightarrow> byte list \<times> py_error option" where
  "text_write buf [] = (buf, None)"
| "text_write buf (t # ts) =
     (case utf8_encode t of Inl e \<Rightarrow> (buf, Some e) | Inr bs \<Rightarrow> text_write (buf @ bs) ts)"

text \<open>\<^verbatim>\<open>json.dump(v, fp, ensure_ascii=False, indent=2)\<close> on a file whose content
  is \<open>buf\<close>.\<close>

definition json_dump :: "('f \<Rightarrow> pystr) \<Rightarrow> 'f pyval \<Rightarrow> byte list \<Rightarrow> byte list \<times> py_error option" where
  "json_dump fr v buf = text_write buf (iterencode fr 0 v)"

text \<open>The strings of a value, dict keys included, in the order \<^verbatim>\<open>json.dump\<close> meets them.\<close>

fun pv_strs :: "'f pyval \<Rightarrow> pystr list" where
  "pv_strs (PyStr s) = [s]"
| "pv_strs (PyList vs) = concat (map pv_strs vs)"
| "pv_strs (PyDict kvs) = concat (map (\<lambda>kv. fst kv # pv_strs (snd kv)) kvs)"
| "pv_strs v = []"

text \<open>Its floats, in the same order.\<close>

fun pv_floats :: "'f pyval \<Rightarrow> 'f list" where
  "pv_floats (PyFloat f) = [f]"
| "pv_floats (PyList vs) = concat (map pv_floats vs)"
| "pv_floats (PyDict kvs) = concat (map (\<lambda>kv. pv_floats (snd kv)) kvs)"
| "pv_floats v = []"

text \<open>A value whose strings and float texts hold no surrogate: what the encoder accepts.\<close>

definition text_ok :: "('f \<Rightarrow> pystr) \<Rightarrow> 'f pyval \<Rightarrow> bool" where
  "text_ok fr v \<longleftrightarrow> list_all (list_all scalar_value) (pv_strs v) \<and>
     list_all (\<lambda>f. list_all scalar_value (fr f)) (pv_floats v)"

section \<open>Lemmas\<close>

subsection \<open>The chunks hold scalar values only\<close>

lemma scalar_value_ascii [simp]: "c < 128 \<Longrightarrow> scalar_value c"
  by (simp add: scalar_value_def)

lemma ustr_scalar [simp]: "list_all scalar_value (ustr s)"
proof -
  have "scalar_value (of_char c)" for c :: char
  proof -
    have "(of_char c :: nat) < 256" by (rule nat_of_char_less_256)
    then show ?thesis unfolding scalar_value_def by linarith
  qed
  then show ?thesis by (simp add: ustr_def list_all_iff)
qed

lemma newline_indent_scalar [simp]: "list_all scalar_value (newline_indent l)"
  by (simp add: newline_indent_def list_all_iff)

lemma int_repr_scalar [simp]: "list_all scalar_value (int_repr i)"
proof -
  have "list_all scalar_value (nat_digits n)" for n
    using nat_digits_range by (fastforce simp: list_all_iff scalar_value_def)
  then show ?thesis by (simp add: int_repr_def scalar_value_def)
qed

lemma escape_char_scalar: "scalar_value c \<Longrightarrow> list_all scalar_value (escape_char c)"
proof -
  assume c: "scalar_value c"
  have "hex_digit n < 128" if "n < 16" for n using that by (simp add: hex_digit_def)
  then have "hex_digit (c div 16) < 128" "hex_digit (c mod 16) < 128" if "c < 32"
    using that by simp_all
  with c show ?thesis by (simp add: escape_char_def)
qed

lemma encode_basestring_scalar:
  "list_all scalar_value s \<Longrightarrow> list_all scalar_value (encode_basestring s)"
  by (induction s) (simp_all add: encode_basestring_def escape_char_scalar scalar_value_def)

lemma list_items_scalar:
  "(\<And>w. w \<in> set vs \<Longrightarrow> list_all (list_all scalar_value) (iterencode fr l w)) \<Longrightarrow>
   list_all scalar_value buf \<Longrightarrow> list_all (list_all scalar_value) (list_items fr l buf vs)"
proof (induction vs arbitrary: buf)
  case (Cons v vs)
  have "list_all (list_all scalar_value) (list_items fr l (ustr '','' @ newline_indent l) vs)"
    by (rule Cons.IH) (simp_all add: Cons.prems)
  moreover have "list_all (list_all scalar_value) (iterencode fr l v)" by (simp add: Cons.prems)
  ultimately show ?case
    using Cons.prems(2) by (cases "is_container v") (simp_all add: iterencode_scalar)
qed simp

lemma dict_items_scalar:
  "(\<And>k w. (k, w) \<in> set kvs \<Longrightarrow> list_all scalar_value k \<and> list_all (list_all scalar_value) (iterencode fr l w)) \<Longrightarrow>
   list_all (list_all scalar_value) (dict_items fr l first kvs)"
proof (induction kvs arbitrary: first)
  case (Cons kv kvs)
  obtain k w where kv: "kv = (k, w)" by (cases kv)
  have "list_all (list_all scalar_value) (dict_items fr l False kvs)"
    using Cons.prems by (intro Cons.IH) auto
  moreover have "list_all scalar_value k" "list_all (list_all scalar_value) (iterencode fr l w)"
    using Cons.prems [of k w] kv by simp_all
  ultimately show ?case
    using kv by (cases "is_container w") (simp_all add: iterencode_scalar encode_basestring_scalar)
qed simp

lemma list_all_concat_map: "list_all P (concat (map f xs)) \<longleftrightarrow> (\<forall>x\<in>set xs. list_all P (f x))"
  by (induction xs) auto

lemma iterencode_scalar_chunks:
  "list_all (list_all scalar_value) (pv_strs v) \<Longrightarrow> list_all (\<lambda>f. list_all scalar_value (fr f)) (pv_floats v) \<Longrightarrow>
   list_all (list_all scalar_value) (iterencode fr lvl v)"
proof (induction v arbitrary: lvl)
  case (PyList xs)
  have "list_all (list_all scalar_value) (iterencode fr l w)" if w: "w \<in> set xs" for w l
  proof (rule PyList.IH [OF w])
    show "list_all (list_all scalar_value) (pv_strs w)"
      using PyList.prems(1) w by (simp add: list_all_concat_map)
    show "list_all (\<lambda>f. list_all scalar_value (fr f)) (pv_floats w)"
      using PyList.prems(2) w by (simp add: list_all_concat_map)
  qed
  then have "list_all (list_all scalar_value) (list_items fr (Suc lvl) (ustr ''['' @ newline_indent (Suc lvl)) xs)"
    by (intro list_items_scalar) simp_all
  then show ?case
    by (cases xs) (simp_all del: list_items.simps)
next
  case (PyDict kvs)
  have "list_all scalar_value k \<and> list_all (list_all scalar_value) (iterencode fr l w)"
    if kw: "(k, w) \<in> set kvs" for k w l
  proof
    have s: "list_all (list_all scalar_value) (k # pv_strs w)"
      using PyDict.prems(1) kw by (fastforce simp: list_all_concat_map)
    then show "list_all scalar_value k" by simp
    show "list_all (list_all scalar_value) (iterencode fr l w)"
    proof (rule PyDict.IH [OF kw])
      show "w \<in> Basic_BNFs.snds (k, w)" by simp
      show "list_all (list_all scalar_value) (pv_strs w)" using s by simp
      show "list_all (\<lambda>f. list_all scalar_value (fr f)) (pv_floats w)"
        using PyDict.prems(2) kw by (fastforce simp: list_all_concat_map)
    qed
  qed
  then have "list_all (list_all scalar_value) (dict_items fr (Suc lvl) True kvs)"
    by (rule dict_items_scalar)
  then show ?case
    by (cases kvs) (simp_all del: dict_items.simps)
qed (simp_all add: encode_basestring_scalar)

subsection \<open>The write loop\<close>

lemma text_write_scalar:
  "list_all (list_all scalar_value) ts \<Longrightarrow>
   \<exists>bs. utf8_encode (concat ts) = Inr bs \<and> text_write buf ts = (buf @ bs, None)"
proof (induction ts arbitrary: buf)
  case (Cons t ts)
  obtain b1 where b1: "utf8_encode t = Inr b1"
    using Cons.prems utf8_encode_scalar by auto
  obtain b2 where "utf8_encode (concat ts) = Inr b2" "text_write (buf @ b1) ts = (buf @ b1 @ b2, None)"
    using Cons.IH [of "buf @ b1"] Cons.prems by auto
  with b1 show ?case by (simp add: utf8_encode_append)
qed simp

lemma text_write_Some:
  "text_write buf ts = (out, Some e) \<Longrightarrow>
   e = UnicodeEncodeError \<and>
   (\<exists>pre t post bs. ts = pre @ t # post \<and> utf8_encode (concat pre) = Inr bs \<and> out = buf @ bs \<and>
      \<not> list_all scalar_value t)"
proof (induction ts arbitrary: buf)
  case (Cons t ts)
  show ?case
  proof (cases "utf8_encode t")
    case (Inl e')
    then have "e = UnicodeEncodeError" "out = buf" using Cons.prems utf8_encode_Inl by auto
    moreover have "\<not> list_all scalar_value t" using Inl utf8_encode_scalar by fastforce
    ultimately show ?thesis by (intro conjI exI [of _ "[]"] exI [of _ t] exI [of _ ts]) auto
  next
    case (Inr b1)
    then have "text_write (buf @ b1) ts = (out, Some e)" using Cons.prems by simp
    from Cons.IH [OF this] obtain pre t' post b2 where
      "e = UnicodeEncodeError" "ts = pre @ t' # post" "utf8_encode (concat pre) = Inr b2"
      "out = buf @ b1 @ b2" "\<not> list_all scalar_value t'" by auto
    with Inr show ?thesis
      by (intro conjI exI [of _ "t # pre"]) (auto simp: utf8_encode_append)
  qed
qed simp

lemma dumps_scalar: "text_ok fr v \<Longrightarrow> list_all scalar_value (dumps fr v)"
  using iterencode_scalar_chunks [of v fr 0] by (simp add: text_ok_def dumps_def list_all_iff)

lemma json_dump_text_ok:
  assumes "text_ok fr v"
  shows "\<exists>bs. utf8_encode (dumps fr v) = Inr bs \<and> json_dump fr v [] = (bs, None)"
proof -
  have "list_all (list_all scalar_value) (iterencode fr 0 v)"
    using assms by (intro iterencode_scalar_chunks) (simp_all add: text_ok_def)
  from text_write_scalar [OF this, of "[]"] show ?thesis
    by (simp add: json_dump_def dumps_def)
qed

section \<open>Properties of the log writer\<close>

text \<open>
  C18. When the value's strings and float texts hold no surrogate, \<^verbatim>\<open>json.dump\<close>
  into the freshly truncated file ends without exception, and the file holds the UTF-8
  encoding of the whole JSON text \<open>dumps\<close>: writing chunk by chunk is the same as
  encoding the text at once.
\<close>

theorem json_dump_utf8:
  assumes "text_ok fr v"
  shows "\<exists>bs. utf8_encode (dumps fr v) = Inr bs \<and> json_dump fr v [] = (bs, None)"
  using assms by (rule json_dump_text_ok)

theorem json_dump_utf8_witness:
  "text_ok int_repr (PyDict [(ustr ''content'', PyStr [26085, 26412])]) \<and>
   json_dump int_repr (PyDict [(ustr ''content'', PyStr [26085, 26412])]) [] =
     (projr (utf8_encode (dumps int_repr (PyDict [(ustr ''content'', PyStr [26085, 26412])]))), None)"
proof -
  have h: "text_ok int_repr (PyDict [(ustr ''content'', PyStr [26085, 26412])])"
    by (simp add: text_ok_def scalar_value_def)
  show ?thesis using h json_dump_utf8 [OF h] by auto
qed

text \<open>
  C19. When the dump raises, the exception is \<^verbatim>\<open>UnicodeEncodeError\<close> and the file
  keeps the UTF-8 of every chunk before the one holding the surrogate: the
  \<^verbatim>\<open>with\<close> block closes and flushes the file, so a partial log remains on disk.
\<close>

theorem json_dump_partial:
  assumes "json_dump fr v [] = (out, Some e)"
  shows "e = UnicodeEncodeError \<and>
    (\<exists>pre t post. iterencode fr 0 v = pre @ t # post \<and> utf8_encode (concat pre) = Inr out \<and>
       \<not> list_all scalar_value t)"
  using text_write_Some [OF assms [unfolded json_dump_def]] by auto

theorem json_dump_partial_witness:
  "json_dump int_repr (PyDict [(ustr ''content'', PyStr [55357])]) [] =
     (map of_nat [123, 10, 32, 32, 34, 99, 111, 110, 116, 101, 110, 116, 34, 58, 32], Some UnicodeEncodeError) \<and>
   (\<exists>pre t post. iterencode int_repr 0 (PyDict [(ustr ''content'', PyStr [55357])]) = pre @ t # post \<and>
      utf8_encode (concat pre) =
        Inr (map of_nat [123, 10, 32, 32, 34, 99, 111, 110, 116, 101, 110, 116, 34, 58, 32]) \<and>
      \<not> list_all scalar_value t)"
proof -
  have h: "json_dump int_repr (PyDict [(ustr ''content'', PyStr [55357])]) [] =
     (map of_nat [123, 10, 32, 32, 34, 99, 111, 110, 116, 101, 110, 116, 34, 58, 32], Some UnicodeEncodeError)"
    by (simp add: json_dump_def newline_indent_def encode_basestring_def escape_char_def numeral_2_eq_2
                  utf8_encode_ascii utf8_encode_surrogate_Inl scalar_value_def)
  show ?thesis using h json_dump_partial [OF h] by blast
qed

end
