(* ===== verification/Script.thy ===== *)
theory Script
  imports Analyze_Result Log_Path Log_Write
begin

text \<open>
  The whole of \<^verbatim>\<open>src/main.py\<close>, a module run once from top to bottom, as a
  sequence of statements over an explicit world: the environment, the file system
  (regular files with their bytes, and directories), the time \<^verbatim>\<open>datetime.now()\<close>
  returns, the analysis service as an oracle from the submitted bytes to its reply, the
  trace of network requests, and what the script printed. Each block of the source is
  one definition; \<open>run_script\<close> composes them with \<open>bindS\<close> in the order of the
  file, so an exception skips everything after it and keeps what was done before.
  A statement that does not return is \<open>None\<close>: \<^verbatim>\<open>poller.result()\<close> polls until the
  operation finishes, which it may never do. The frame lemmas (file system, network trace) are
  proved per statement with \<open>stmt_rel\<close> and composed along \<open>run_script\<close>.
\<close>

section \<open>The world\<close>

text \<open>A request the SDK sends: the analysis request (endpoint, key, model id, body)
  and the polls of the long-running operation.\<close>

datatype net_event = Submit pystr pystr pystr "byte list" | Poll

text \<open>The status of the long-running analysis operation that the poller reads: not
  finished yet (\<^verbatim>\<open>notStarted\<close>, \<^verbatim>\<open>running\<close>), succeeded with a result,
  failed or canceled, or a poll whose HTTP request raised.\<close>

datatype 'f op_status = NotDone | Succeeded "'f analyze_result" | OpFailed | PollFails

text \<open>What the service does with a request: refuse it (\<^verbatim>\<open>begin_analyze_document\<close>
  raises), or accept it and start an operation whose status after \<open>k\<close> polls is
  \<open>st k\<close> (\<open>st 0\<close> is the status of the initial response).\<close>

datatype 'f service_reply = SubmitFails | Accepted "nat \<Rightarrow> 'f op_status"

record 'f world =
  environ :: "pystr \<Rightarrow> pystr option"
  files :: "pystr \<Rightarrow> byte list option"
  dirs :: "pystr set"
  clock :: datetime
  service :: "byte list \<Rightarrow> 'f service_reply"
  net :: "net_event list"
  stdout :: pystr

text \<open>\<^verbatim>\<open>DocumentIntelligenceClient(endpoint=..., credential=AzureKeyCredential(...))\<close>.\<close>

record client =
  client_endpoint :: pystr
  client_key :: pystr

section \<open>The statements, in the order of the file\<close>

subsection \<open>Lines 12--18: configuration\<close>

definition ENDPOINT_VAR :: pystr where
  "ENDPOINT_VAR = ustr ''DOCUMENT_INTELLIGENCE_ENDPOINT''"

definition KEY_VAR :: pystr where
  "KEY_VAR = ustr ''DOCUMENT_INTELLIGENCE_KEY''"

text \<open>\<^verbatim>\<open>not v\<close> for the value of \<^verbatim>\<open>os.getenv\<close>: true for \<^verbatim>\<open>None\<close> and for the
  empty string.\<close>

definition py_not :: "pystr option \<Rightarrow> bool" where
  "py_not v = (case v of None \<Rightarrow> True | Some s \<Rightarrow> s = [])"

definition read_config :: "('f world, pystr \<times> pystr) py_stmt" where
  "read_config w =
     (let ENDPOINT = environ w ENDPOINT_VAR; KEY = environ w KEY_VAR in
      if py_not ENDPOINT \<or> py_not KEY then raiseS RuntimeError w
      else returnS (the ENDPOINT, the KEY) w)"

subsection \<open>Lines 24--27: the client\<close>

definition make_client :: "pystr \<Rightarrow> pystr \<Rightarrow> client" where
  "make_client ep key = \<lparr>client_endpoint = ep, client_key = key\<rparr>"

subsection \<open>Lines 33--35: the input file\<close>

definition INPUT_FILE_PATH :: pystr where
  "INPUT_FILE_PATH = ustr ''sample.jpg''"

text \<open>\<^verbatim>\<open>os.path.exists\<close>: a file or a directory of that name.\<close>

definition os_path_exists :: "'f world \<Rightarrow> pystr \<Rightarrow> bool" where
  "os_path_exists w p \<longleftrightarrow> files w p \<noteq> None \<or> p \<in> dirs w"

definition check_input :: "('f world, unit) py_stmt" where
  "check_input w = (if \<not> os_path_exists w INPUT_FILE_PATH then raiseS FileNotFoundError w else returnS () w)"

subsection \<open>Lines 41--45: the log directory and path\<close>

text \<open>\<^verbatim>\<open>os.makedirs(name, exist_ok=True)\<close> for a name without a slash: \<^verbatim>\<open>mkdir\<close>,
  whose \<^verbatim>\<open>FileExistsError\<close> is swallowed only when the name is a directory.\<close>

definition os_makedirs :: "pystr \<Rightarrow> ('f world, unit) py_stmt" where
  "os_makedirs p w =
     (if p \<in> dirs w then returnS () w
      else if files w p \<noteq> None then raiseS FileExistsError w
      else returnS () (w\<lparr>dirs := insert p (dirs w)\<rparr>))"

subsection \<open>Lines 51--57: the analysis\<close>

definition MODEL_ID :: pystr where
  "MODEL_ID = ustr ''prebuilt-layout''"

text \<open>\<^verbatim>\<open>open(p, "rb")\<close> and the SDK's read of the stream: the file's bytes;
  a directory raises \<^verbatim>\<open>IsADirectoryError\<close> (\<^verbatim>\<open>FileIO\<close> checks \<^verbatim>\<open>fstat\<close>).\<close>

definition open_read :: "pystr \<Rightarrow> ('f world, byte list) py_stmt" where
  "open_read p w =
     (case files w p of
        Some bs \<Rightarrow> returnS bs w
      | None \<Rightarrow> if p \<in> dirs w then raiseS IsADirectoryError w else raiseS FileNotFoundError w)"

text \<open>\<^verbatim>\<open>client.begin_analyze_document(model_id=..., body=f)\<close>: the request is sent,
  then the service answers; the poller carries the operation.\<close>

definition begin_analyze_document ::
  "client \<Rightarrow> pystr \<Rightarrow> byte list \<Rightarrow> ('f world, nat \<Rightarrow> 'f op_status) py_stmt" where
  "begin_analyze_document c model body w =
     (let w' = w\<lparr>net := net w @ [Submit (client_endpoint c) (client_key c) model body]\<rparr> in
      case service w body of
        SubmitFails \<Rightarrow> raiseS ServiceError w'
      | Accepted st \<Rightarrow> returnS st w')"

text \<open>The polling loop of \<^verbatim>\<open>LROBasePolling.run\<close> in \<^verbatim>\<open>azure-core\<close>:
  \<^verbatim>\<open>while not self.finished(): self._delay(); self.update_status()\<close>. From
  status \<open>k\<close> on, it returns the number of the first finished status; it does not
  return when the operation never finishes (the SDK sets no time limit).\<close>

partial_function (option) poll_loop :: "(nat \<Rightarrow> 'f op_status) \<Rightarrow> nat \<Rightarrow> nat option" where
  "poll_loop st k = (case st k of NotDone \<Rightarrow> poll_loop st (Suc k) | _ \<Rightarrow> Some k)"

text \<open>\<^verbatim>\<open>poller.result()\<close>: one \<^verbatim>\<open>GET\<close> per loop iteration, then the result,
  or \<^verbatim>\<open>HttpResponseError\<close> when the operation failed or a poll raised.\<close>

definition poller_result :: "(nat \<Rightarrow> 'f op_status) \<Rightarrow> ('f world, 'f analyze_result) py_stmt" where
  "poller_result st w =
     (case poll_loop st 0 of
        None \<Rightarrow> None
      | Some k \<Rightarrow>
          (let w' = w\<lparr>net := net w @ replicate k Poll\<rparr> in
           case st k of Succeeded r \<Rightarrow> returnS r w' | _ \<Rightarrow> raiseS ServiceError w'))"

definition analyze :: "client \<Rightarrow> ('f world, 'f analyze_result) py_stmt" where
  "analyze c =
     bindS (bindS (open_read INPUT_FILE_PATH) (begin_analyze_document c MODEL_ID)) poller_result"

subsection \<open>Lines 63--88: the result dictionary\<close>

text \<open>The transformation of theory \<open>Analyze_Result\<close>, as a statement.\<close>

definition build_result_dict :: "'f analyze_result \<Rightarrow> ('f world, 'f pyval) py_stmt" where
  "build_result_dict r w = Some (result_to_dict r, w)"

subsection \<open>Lines 94--95: the log file\<close>

text \<open>\<^verbatim>\<open>posixpath.dirname\<close>.\<close>

definition dirname :: "pystr \<Rightarrow> pystr" where
  "dirname p =
     (let head = rev (dropWhile (\<lambda>c. c \<noteq> 47) (rev p)) in
      if head \<noteq> [] \<and> \<not> list_all (\<lambda>c. c = 47) head then rev (dropWhile (\<lambda>c. c = 47) (rev head))
      else head)"

text \<open>\<^verbatim>\<open>open(p, "w")\<close>: creates or truncates the file; fails on a directory and when
  the directory it lies in does not exist.\<close>

definition open_write :: "pystr \<Rightarrow> ('f world, unit) py_stmt" where
  "open_write p w =
     (if p \<in> dirs w then raiseS IsADirectoryError w
      else if dirname p \<noteq> [] \<and> dirname p \<notin> dirs w then raiseS FileNotFoundError w
      else returnS () (w\<lparr>files := (files w)(p \<mapsto> [])\<rparr>))"

text \<open>The \<^verbatim>\<open>with\<close> block: open, dump, and on every exit close, which leaves the
  bytes written so far in the file.\<close>

definition write_log :: "('f \<Rightarrow> pystr) \<Rightarrow> pystr \<Rightarrow> 'f pyval \<Rightarrow> ('f world, unit) py_stmt" where
  "write_log fr p v =
     bindS (open_write p)
       (\<lambda>_ w. case json_dump fr v [] of
                (bs, err) \<Rightarrow>
                  (case err of None \<Rightarrow> returnS () | Some e \<Rightarrow> raiseS e)
                    (w\<lparr>files := (files w)(p \<mapsto> bs)\<rparr>))"

subsection \<open>Line 98: the completion message\<close>

definition DONE_MSG :: pystr where
  "DONE_MSG = [35299, 26512, 23436, 20102, 12290, 12525, 12464, 20986, 21147, 20808, 58, 32]"

definition report :: "pystr \<Rightarrow> ('f world, unit) py_stmt" where
  "report p w = returnS () (w\<lparr>stdout := stdout w @ DONE_MSG @ p @ [10]\<rparr>)"

subsection \<open>The module\<close>

definition run_script :: "('f \<Rightarrow> pystr) \<Rightarrow> ('f world, unit) py_stmt" where
  "run_script fr =
     bindS read_config (\<lambda>(ENDPOINT, KEY).
       let client = make_client ENDPOINT KEY in
       bindS check_input (\<lambda>_.
       bindS (os_makedirs LOG_DIR) (\<lambda>_ w.
         let LOG_FILE_PATH = log_file_path (clock w) in
         bindS (analyze client) (\<lambda>result.
         bindS (build_result_dict result) (\<lambda>result_dict.
         bindS (write_log fr LOG_FILE_PATH result_dict) (\<lambda>_.
         report LOG_FILE_PATH))) w)))"

section \<open>The file-system frame\<close>

text \<open>What a run may change in the file system: the clock is never changed, no
  file but the log file named after the starting time is written, and no directory but
  \<^verbatim>\<open>logs\<close> is created. \<open>fs_frame_at p\<close> is the same relation for the statements
  that run once the log path \<open>p\<close> has been computed.\<close>

definition fs_frame :: "'f world \<Rightarrow> 'f world \<Rightarrow> bool" where
  "fs_frame w w' \<longleftrightarrow> clock w' = clock w \<and>
     (\<forall>p. p \<noteq> log_file_path (clock w) \<longrightarrow> files w' p = files w p) \<and> dirs w' \<subseteq> insert LOG_DIR (dirs w)"

definition fs_frame_at :: "pystr \<Rightarrow> 'f world \<Rightarrow> 'f world \<Rightarrow> bool" where
  "fs_frame_at p w w' \<longleftrightarrow> (log_file_path (clock w) = p \<longrightarrow> fs_frame w w')"

text \<open>The network trace is untouched.\<close>

definition same_net :: "'f world \<Rightarrow> 'f world \<Rightarrow> bool" where
  "same_net w w' \<longleftrightarrow> net w' = net w"

section \<open>Example worlds\<close>

definition demo_env :: "pystr \<Rightarrow> pystr option" where
  "demo_env k =
     (if k = ENDPOINT_VAR then Some (ustr ''https://ocr.example.net/'')
      else if k = KEY_VAR then Some (ustr ''k3y'') else None)"

definition demo_input :: "pystr \<Rightarrow> byte list option" where
  "demo_input = [INPUT_FILE_PATH \<mapsto> [255, 216, 255]]"

definition demo_world :: "(pystr \<Rightarrow> pystr option) \<Rightarrow> (pystr \<Rightarrow> byte list option) \<Rightarrow> int service_reply \<Rightarrow> int world" where
  "demo_world env fs reply =
     \<lparr>environ = env, files = fs, dirs = {}, clock = DateTime 2026 11 9 3 5 27 0,
      service = (\<lambda>_. reply), net = [], stdout = []\<rparr>"

text \<open>An operation that is still running for the first \<open>n\<close> statuses and then ends in \<open>s\<close>.\<close>

definition done_after :: "nat \<Rightarrow> 'f op_status \<Rightarrow> nat \<Rightarrow> 'f op_status" where
  "done_after n s i = (if i < n then NotDone else s)"

text \<open>A result whose text holds a lone surrogate, as a \<^verbatim>\<open>\\ud83d\<close> escape in the
  service's JSON gives it.\<close>

definition surrogate_result :: "int analyze_result" where
  "surrogate_result = \<lparr>content = Some [55357], pages = Some []\<rparr>"

text \<open>The result of a second run: text only, no pages.\<close>

definition second_result :: "int analyze_result" where
  "second_result = \<lparr>content = Some (ustr ''Second''), pages = Some []\<rparr>"

section \<open>Lemmas\<close>

lemmas stmt_defs = returnS_def raiseS_def bindS_def

subsection \<open>The polling loop\<close>

lemma poll_loop_Some:
  assumes "poll_loop st k = Some j"
  shows "k \<le> j \<and> st j \<noteq> NotDone \<and> (\<forall>i. k \<le> i \<and> i < j \<longrightarrow> st i = NotDone)"
proof (rule poll_loop.raw_induct
    [where P = "\<lambda>st k j. k \<le> j \<and> st j \<noteq> NotDone \<and> (\<forall>i. k \<le> i \<and> i < j \<longrightarrow> st i = NotDone)", OF _ assms])
  fix f st k j
  assume IH: "\<And>st k j. f st k = Some j \<Longrightarrow> k \<le> j \<and> st j \<noteq> NotDone \<and> (\<forall>i. k \<le> i \<and> i < j \<longrightarrow> st i = NotDone)"
    and eq: "(case st k of NotDone \<Rightarrow> f st (Suc k) | _ \<Rightarrow> Some k) = Some j"
  show "k \<le> j \<and> st j \<noteq> NotDone \<and> (\<forall>i. k \<le> i \<and> i < j \<longrightarrow> st i = NotDone)"
  proof (cases "st k = NotDone")
    case True
    with eq have "f st (Suc k) = Some j" by simp
    then have h: "Suc k \<le> j" "st j \<noteq> NotDone" "\<forall>i. Suc k \<le> i \<and> i < j \<longrightarrow> st i = NotDone"
      using IH by blast+
    have "st i = NotDone" if "k \<le> i" "i < j" for i
    proof (cases "i = k")
      case True
      with \<open>st k = NotDone\<close> show ?thesis by simp
    next
      case False
      with that h(3) show ?thesis by simp
    qed
    with h show ?thesis by simp
  next
    case False
    with eq have "j = k" by (cases "st k") simp_all
    with False show ?thesis by auto
  qed
qed

lemma poll_loop_first:
  "st j \<noteq> NotDone \<Longrightarrow> (\<forall>i. k \<le> i \<and> i < j \<longrightarrow> st i = NotDone) \<Longrightarrow> k \<le> j \<Longrightarrow> poll_loop st k = Some j"
proof (induction "j - k" arbitrary: k)
  case 0
  then have "k = j" by simp
  with 0 show ?case by (subst poll_loop.simps) (simp split: op_status.splits)
next
  case (Suc n)
  then have "k < j" "st k = NotDone" by auto
  moreover have "poll_loop st (Suc k) = Some j" using Suc by (intro Suc.hyps) auto
  ultimately show ?case by (subst poll_loop.simps) simp
qed

lemma poll_loop_None: "(\<forall>i. k \<le> i \<longrightarrow> st i = NotDone) \<Longrightarrow> poll_loop st k = None"
  using poll_loop_Some by (cases "poll_loop st k") auto

lemma poll_loop_done_after: "s \<noteq> NotDone \<Longrightarrow> poll_loop (done_after n s) 0 = Some n"
  by (rule poll_loop_first) (simp_all add: done_after_def)

subsection \<open>The statements\<close>

lemma read_config_error:
  "py_not (environ w ENDPOINT_VAR) \<or> py_not (environ w KEY_VAR) \<Longrightarrow> read_config w = Some (Inl RuntimeError, w)"
  by (auto simp: read_config_def raiseS_def)

lemma strftime_stamp_no_slash: "47 \<notin> set (strftime_stamp d)"
proof -
  have f: "47 \<notin> set (fixed_digits k n)" for k n
    by (induction k arbitrary: n) auto
  have "47 \<notin> set (nat_digits n)" for n
    using nat_digits_range by fastforce
  with f show ?thesis by (auto simp: strftime_stamp_def zpad_def)
qed

lemma dirname_logs: "47 \<notin> set t \<Longrightarrow> dirname (ustr ''logs/'' @ t) = LOG_DIR"
proof -
  assume t: "47 \<notin> set t"
  have "dropWhile (\<lambda>c. c \<noteq> 47) (rev t @ rev (ustr ''logs/'')) = dropWhile (\<lambda>c. c \<noteq> 47) (rev (ustr ''logs/''))"
    using t by (subst dropWhile_append2) auto
  then show ?thesis by (simp add: dirname_def LOG_DIR_def)
qed

lemma dirname_log_file_path: "dirname (log_file_path d) = LOG_DIR"
proof -
  have eq: "log_file_path d = ustr ''logs/'' @ (ustr ''analyze_result_'' @ strftime_stamp d @ ustr ''.json'')"
    by (simp add: log_file_path_eq)
  have t: "47 \<notin> set (ustr ''analyze_result_'' @ strftime_stamp d @ ustr ''.json'')"
    using strftime_stamp_no_slash by simp
  show ?thesis unfolding eq by (rule dirname_logs [OF t])
qed

lemma log_path_ne_dir: "log_file_path d \<noteq> LOG_DIR"
  using dirname_log_file_path [of d] by (simp add: log_file_path_eq LOG_DIR_def)

lemma log_path_ne_input: "log_file_path d \<noteq> INPUT_FILE_PATH"
proof
  assume "log_file_path d = INPUT_FILE_PATH"
  then have "dirname INPUT_FILE_PATH = LOG_DIR" using dirname_log_file_path [of d] by simp
  then show False by (simp add: dirname_def INPUT_FILE_PATH_def LOG_DIR_def)
qed

lemmas script_defs = run_script_def read_config_def check_input_def os_path_exists_def
  os_makedirs_def analyze_def open_read_def begin_analyze_document_def poller_result_def
  build_result_dict_def write_log_def open_write_def report_def make_client_def

lemmas script_simps = script_defs stmt_defs Let_def py_not_def insert_absorb fun_upd_twist
  dirname_log_file_path result_to_dict_eq

lemmas script_splits = option.splits if_splits service_reply.splits op_status.splits sum.splits prod.splits

lemma demo_env_vars:
  "demo_env ENDPOINT_VAR = Some (ustr ''https://ocr.example.net/'')" "demo_env KEY_VAR = Some (ustr ''k3y'')"
  by (simp_all add: demo_env_def ENDPOINT_VAR_def KEY_VAR_def)

lemma demo_input_file: "demo_input INPUT_FILE_PATH = Some [255, 216, 255]" "demo_input LOG_DIR = None"
  by (simp_all add: demo_input_def INPUT_FILE_PATH_def LOG_DIR_def)

lemmas demo_simps = demo_world_def demo_env_vars demo_input_file

lemma run_script_ok:
  assumes "environ w ENDPOINT_VAR = Some ep" "ep \<noteq> []" "environ w KEY_VAR = Some key" "key \<noteq> []"
    and "files w INPUT_FILE_PATH = Some body" "files w LOG_DIR = None"
    and "service w body = Accepted st" "poll_loop st 0 = Some k" "st k = Succeeded r"
    and "shape_ok r" "text_ok fr (result_ref r)" "log_file_path (clock w) \<notin> dirs w"
  shows "\<exists>bs. utf8_encode (dumps fr (result_ref r)) = Inr bs \<and>
    run_script fr w =
      Some (Inr (), w\<lparr>dirs := insert LOG_DIR (dirs w),
                      files := (files w)(log_file_path (clock w) \<mapsto> bs),
                      net := net w @ Submit ep key MODEL_ID body # replicate k Poll,
                      stdout := stdout w @ DONE_MSG @ log_file_path (clock w) @ [10]\<rparr>)"
proof -
  obtain bs where bs: "utf8_encode (dumps fr (result_ref r)) = Inr bs" "json_dump fr (result_ref r) [] = (bs, None)"
    using json_dump_text_ok [OF assms(11)] by blast
  then show ?thesis
    using assms log_path_ne_dir [of "clock w"] by (simp add: script_simps)
qed

lemma demo_success_run: "\<exists>w'. run_script int_repr (demo_world demo_env demo_input (Accepted (done_after 2 (Succeeded hello_world)))) = Some (Inr (), w')"
proof -
  have h: "environ (demo_world demo_env demo_input (Accepted (done_after 2 (Succeeded hello_world)))) ENDPOINT_VAR = Some (ustr ''https://ocr.example.net/'')"
    "environ (demo_world demo_env demo_input (Accepted (done_after 2 (Succeeded hello_world)))) KEY_VAR = Some (ustr ''k3y'')"
    "files (demo_world demo_env demo_input (Accepted (done_after 2 (Succeeded hello_world)))) INPUT_FILE_PATH = Some [255, 216, 255]" "files (demo_world demo_env demo_input (Accepted (done_after 2 (Succeeded hello_world)))) LOG_DIR = None"
    "service (demo_world demo_env demo_input (Accepted (done_after 2 (Succeeded hello_world)))) [255, 216, 255] = Accepted (done_after 2 (Succeeded hello_world))"
    "log_file_path (clock (demo_world demo_env demo_input (Accepted (done_after 2 (Succeeded hello_world))))) \<notin> dirs (demo_world demo_env demo_input (Accepted (done_after 2 (Succeeded hello_world))))"
    by (simp_all add: demo_simps)
  have p: "poll_loop (done_after 2 (Succeeded hello_world)) 0 = Some 2"
    "done_after 2 (Succeeded hello_world) 2 = Succeeded hello_world"
    by (simp_all add: poll_loop_done_after done_after_def)
  have ok: "shape_ok hello_world"
    using hello_world_ok by (simp add: result_to_dict_eq split: if_splits)
  have t: "text_ok int_repr (result_ref hello_world)"
    by (simp add: text_ok_def result_ref_def page_ref_def line_ref_def hello_world_def hello_line_def
                  world_line_def lines_of_def scalar_value_def)
  show ?thesis using run_script_ok [OF h(1) _ h(2) _ h(3-5) p ok t h(6)] by (simp add: demo_world_def) blast
qed

subsection \<open>Invariant, frame and termination of the statements\<close>

lemma fs_frame_order: "reflp fs_frame" "transp fs_frame"
  by (auto simp: reflp_def transp_def fs_frame_def)

lemma fs_frame_at_order: "reflp (fs_frame_at p)" "transp (fs_frame_at p)"
  by (auto simp: reflp_def transp_def fs_frame_at_def fs_frame_def)

lemma same_net_order: "reflp same_net" "transp same_net"
  by (auto simp: reflp_def transp_def same_net_def)

lemma fs_frame_stmts:
  "stmt_rel fs_frame read_config" "stmt_rel fs_frame check_input" "stmt_rel fs_frame (os_makedirs LOG_DIR)"
  "stmt_rel fs_frame (build_result_dict r)" "stmt_rel fs_frame (report p)"
  by (auto simp: stmt_rel_def fs_frame_def read_config_def check_input_def os_makedirs_def
                 build_result_dict_def report_def stmt_defs Let_def)

lemma fs_frame_analyze: "stmt_rel fs_frame (open_read p)" "stmt_rel fs_frame (begin_analyze_document c m b)"
  "stmt_rel fs_frame (poller_result st)"
  by (auto simp: stmt_rel_def fs_frame_def open_read_def begin_analyze_document_def
                 poller_result_def stmt_defs Let_def split: option.splits service_reply.splits op_status.splits)

lemma analyze_fs_frame: "stmt_rel fs_frame (analyze c)"
  unfolding analyze_def by (intro stmt_rel_intros fs_frame_analyze fs_frame_order)

lemma fs_frame_at_weaken: "stmt_rel fs_frame m \<Longrightarrow> stmt_rel (fs_frame_at p) m"
  by (auto simp: stmt_rel_def fs_frame_at_def)

lemma fs_frame_at_write_log: "stmt_rel (fs_frame_at p) (write_log fr p v)"
  by (auto simp: stmt_rel_def fs_frame_at_def fs_frame_def write_log_def open_write_def stmt_defs
           split: option.splits prod.splits if_splits sum.splits)

lemma fs_frame_at_stmts:
  "stmt_rel (fs_frame_at p) (analyze c)" "stmt_rel (fs_frame_at p) (build_result_dict r)"
  "stmt_rel (fs_frame_at p) (report q)" "stmt_rel (fs_frame_at p) (write_log fr p v)"
  by (intro fs_frame_at_weaken analyze_fs_frame fs_frame_stmts fs_frame_at_write_log)+

lemma fs_frame_read:
  "(\<And>p. stmt_rel (fs_frame_at p) (h p)) \<Longrightarrow> stmt_rel fs_frame (\<lambda>w. h (log_file_path (clock w)) w)"
  by (auto simp: stmt_rel_def fs_frame_at_def)

lemma run_script_fs_frame: "stmt_rel fs_frame (run_script fr)"
  unfolding run_script_def Let_def
  apply (intro stmt_rel_intros fs_frame_stmts fs_frame_order)
  apply (rule fs_frame_read)
  apply (intro stmt_rel_intros fs_frame_at_stmts fs_frame_at_order)
  done

lemma read_config_SomeE:
  "read_config w = Some (r, w') \<Longrightarrow>
   w' = w \<and> (\<forall>ep key. r = Inr (ep, key) \<longrightarrow>
     environ w ENDPOINT_VAR = Some ep \<and> ep \<noteq> [] \<and> environ w KEY_VAR = Some key \<and> key \<noteq> [])"
  by (auto simp: read_config_def stmt_defs Let_def py_not_def split: if_splits option.splits)

lemma check_input_SomeE: "check_input w = Some (r, w') \<Longrightarrow> w' = w"
  by (auto simp: check_input_def stmt_defs split: if_splits)

lemma os_makedirs_SomeE: "os_makedirs p w = Some (r, w') \<Longrightarrow> net w' = net w \<and> files w' = files w"
  by (auto simp: os_makedirs_def stmt_defs split: if_splits)

lemma analyze_net:
  "analyze c w = Some (r, w') \<Longrightarrow>
   net w' = net w \<or>
   (\<exists>body rest. files w INPUT_FILE_PATH = Some body \<and>
      net w' = net w @ Submit (client_endpoint c) (client_key c) MODEL_ID body # rest)"
  by (auto simp: analyze_def open_read_def begin_analyze_document_def poller_result_def stmt_defs Let_def
           split: option.splits service_reply.splits op_status.splits sum.splits prod.splits if_splits)

lemma same_net_stmts:
  "stmt_rel same_net (build_result_dict r)" "stmt_rel same_net (write_log fr p v)" "stmt_rel same_net (report p)"
  by (auto simp: stmt_rel_def same_net_def build_result_dict_def write_log_def open_write_def report_def
                 stmt_defs split: option.splits prod.splits if_splits sum.splits)

lemma log_and_report_net:
  "stmt_rel same_net (\<lambda>s. bindS (build_result_dict r) (\<lambda>d. bindS (write_log fr p d) (\<lambda>_. report p)) s)"
  by (intro stmt_rel_intros same_net_stmts same_net_order)

lemma after_makedirs_net:
  assumes "bindS (os_makedirs LOG_DIR) (\<lambda>_ w.
      bindS (analyze c) (\<lambda>result. bindS (build_result_dict result) (\<lambda>result_dict.
        bindS (write_log fr (log_file_path (clock w)) result_dict) (\<lambda>_. report (log_file_path (clock w))))) w) w
      = Some (res, w')"
  shows "net w' = net w \<or>
    (\<exists>body rest. files w INPUT_FILE_PATH = Some body \<and>
       net w' = net w @ Submit (client_endpoint c) (client_key c) MODEL_ID body # rest)"
  using assms
proof (cases rule: bindS_SomeE)
  case (1 e)
  then show ?thesis using os_makedirs_SomeE [OF 1(1)] by simp
next
  case (2 u w3)
  then have w3: "net w3 = net w" "files w3 = files w" using os_makedirs_SomeE [OF 2(1)] by simp_all
  from 2(2) show ?thesis
  proof (cases rule: bindS_SomeE)
    case (1 e)
    with analyze_net [OF 1(1)] w3 show ?thesis by auto
  next
    case (2 r w4)
    have "net w' = net w4"
      using stmt_relD [OF log_and_report_net 2(2)] by (simp add: same_net_def)
    with analyze_net [OF 2(1)] w3 show ?thesis by auto
  qed
qed

lemma poll_loop_Some_iff:
  "poll_loop st k = Some j \<longleftrightarrow> k \<le> j \<and> st j \<noteq> NotDone \<and> (\<forall>i. k \<le> i \<and> i < j \<longrightarrow> st i = NotDone)"
  using poll_loop_Some poll_loop_first by blast

lemma poll_loop_None_iff: "poll_loop st k = None \<longleftrightarrow> (\<forall>i. k \<le> i \<longrightarrow> st i = NotDone)"
proof
  assume "poll_loop st k = None"
  show "\<forall>i. k \<le> i \<longrightarrow> st i = NotDone"
  proof (rule ccontr)
    assume "\<not> (\<forall>i. k \<le> i \<longrightarrow> st i = NotDone)"
    then have "\<exists>j. k \<le> j \<and> st j \<noteq> NotDone" by blast
    then obtain j where "k \<le> j \<and> st j \<noteq> NotDone" "\<forall>i<j. \<not> (k \<le> i \<and> st i \<noteq> NotDone)"
      using exists_least_iff [where P = "\<lambda>j. k \<le> j \<and> st j \<noteq> NotDone"] by blast
    then have "poll_loop st k = Some j" by (intro poll_loop_first) auto
    with \<open>poll_loop st k = None\<close> show False by simp
  qed
qed (rule poll_loop_None)

lemma analyze_None:
  "analyze c w = None \<longleftrightarrow>
   (\<exists>body st. files w INPUT_FILE_PATH = Some body \<and> service w body = Accepted st \<and> poll_loop st 0 = None)"
  by (auto simp: analyze_def bindS_None_iff open_read_def begin_analyze_document_def poller_result_def
                 stmt_defs Let_def split: option.splits service_reply.splits op_status.splits if_splits)

lemma tail_stmts_total:
  "build_result_dict r s \<noteq> None" "write_log fr p v s \<noteq> None" "report p s \<noteq> None"
  by (auto simp: build_result_dict_def write_log_def open_write_def report_def bindS_None_iff stmt_defs
           split: option.splits prod.splits if_splits)

lemma read_config_eq:
  "read_config w =
     Some (if py_not (environ w ENDPOINT_VAR) \<or> py_not (environ w KEY_VAR) then Inl RuntimeError
           else Inr (the (environ w ENDPOINT_VAR), the (environ w KEY_VAR)), w)"
  by (simp add: read_config_def stmt_defs)

lemma check_input_eq:
  "check_input w = Some (if os_path_exists w INPUT_FILE_PATH then Inr () else Inl FileNotFoundError, w)"
  by (simp add: check_input_def stmt_defs)

lemma os_makedirs_eq:
  "os_makedirs p w =
     (if p \<in> dirs w then Some (Inr (), w) else if files w p \<noteq> None then Some (Inl FileExistsError, w)
      else Some (Inr (), w\<lparr>dirs := insert p (dirs w)\<rparr>))"
  by (simp add: os_makedirs_def stmt_defs)

section \<open>Properties of the script\<close>

text \<open>
  C20. A missing or empty \<^verbatim>\<open>DOCUMENT_INTELLIGENCE_ENDPOINT\<close> or
  \<^verbatim>\<open>DOCUMENT_INTELLIGENCE_KEY\<close> ends the run with \<^verbatim>\<open>RuntimeError\<close> and leaves the
  world as it was: no client, no file opened, no directory created, no request sent.
\<close>

theorem run_script_config_error:
  "py_not (environ w ENDPOINT_VAR) \<or> py_not (environ w KEY_VAR) \<Longrightarrow> run_script fr w = Some (Inl RuntimeError, w)"
  by (simp add: run_script_def bindS_def read_config_error)

theorem run_script_config_error_witness:
  "py_not (environ (demo_world (\<lambda>_. None) demo_input SubmitFails) ENDPOINT_VAR) \<and>
   run_script int_repr (demo_world (\<lambda>_. None) demo_input SubmitFails) =
     Some (Inl RuntimeError, demo_world (\<lambda>_. None) demo_input SubmitFails)"
proof -
  have h: "py_not (environ (demo_world (\<lambda>_. None) demo_input SubmitFails) ENDPOINT_VAR)"
    by (simp add: demo_world_def py_not_def)
  show ?thesis using h run_script_config_error [of "demo_world (\<lambda>_. None) demo_input SubmitFails"] by simp
qed

text \<open>
  C21. With the configuration present, a missing \<^verbatim>\<open>sample.jpg\<close> ends the run with
  \<^verbatim>\<open>FileNotFoundError\<close> before any other effect: in particular no request is sent.
\<close>

theorem run_script_input_missing:
  assumes "environ w ENDPOINT_VAR = Some ep" "ep \<noteq> []" "environ w KEY_VAR = Some key" "key \<noteq> []"
    and "\<not> os_path_exists w INPUT_FILE_PATH"
  shows "run_script fr w = Some (Inl FileNotFoundError, w)"
  using assms by (simp add: script_simps)

theorem run_script_input_missing_witness:
  "environ (demo_world demo_env Map.empty SubmitFails) ENDPOINT_VAR = Some (ustr ''https://ocr.example.net/'') \<and>
   environ (demo_world demo_env Map.empty SubmitFails) KEY_VAR = Some (ustr ''k3y'') \<and>
   \<not> os_path_exists (demo_world demo_env Map.empty SubmitFails) INPUT_FILE_PATH \<and>
   run_script int_repr (demo_world demo_env Map.empty SubmitFails) =
     Some (Inl FileNotFoundError, demo_world demo_env Map.empty SubmitFails)"
proof -
  have h: "environ (demo_world demo_env Map.empty SubmitFails) ENDPOINT_VAR = Some (ustr ''https://ocr.example.net/'')"
    "environ (demo_world demo_env Map.empty SubmitFails) KEY_VAR = Some (ustr ''k3y'')"
    "\<not> os_path_exists (demo_world demo_env Map.empty SubmitFails) INPUT_FILE_PATH"
    by (simp_all add: demo_simps os_path_exists_def)
  show ?thesis using h run_script_input_missing [OF h(1) _ h(2) _ h(3)] by simp
qed

text \<open>
  C22. When the service refuses the request, or the operation ends failed or a poll
  raises, the run ends with the service's error and writes no log file; the
  \<^verbatim>\<open>logs\<close> directory, created before the request, remains, and nothing is printed.
\<close>

theorem run_script_service_error:
  assumes "environ w ENDPOINT_VAR = Some ep" "ep \<noteq> []" "environ w KEY_VAR = Some key" "key \<noteq> []"
    and "files w INPUT_FILE_PATH = Some body" "files w LOG_DIR = None"
    and "service w body = SubmitFails \<or>
         service w body = Accepted st \<and> poll_loop st 0 = Some k \<and> (st k = OpFailed \<or> st k = PollFails)"
  shows "\<exists>w'. run_script fr w = Some (Inl ServiceError, w') \<and> files w' = files w \<and>
           LOG_DIR \<in> dirs w' \<and> stdout w' = stdout w"
  using assms by (auto simp: script_simps)

theorem run_script_service_error_witness:
  "environ (demo_world demo_env demo_input (Accepted (done_after 3 OpFailed))) ENDPOINT_VAR = Some (ustr ''https://ocr.example.net/'') \<and>
   environ (demo_world demo_env demo_input (Accepted (done_after 3 OpFailed))) KEY_VAR = Some (ustr ''k3y'') \<and>
   files (demo_world demo_env demo_input (Accepted (done_after 3 OpFailed))) INPUT_FILE_PATH = Some [255, 216, 255] \<and> files (demo_world demo_env demo_input (Accepted (done_after 3 OpFailed))) LOG_DIR = None \<and>
   service (demo_world demo_env demo_input (Accepted (done_after 3 OpFailed))) [255, 216, 255] = Accepted (done_after 3 OpFailed) \<and>
   poll_loop (done_after 3 (OpFailed :: int op_status)) 0 = Some 3 \<and>
   done_after 3 (OpFailed :: int op_status) 3 = OpFailed \<and>
   (\<exists>w'. run_script int_repr (demo_world demo_env demo_input (Accepted (done_after 3 OpFailed))) = Some (Inl ServiceError, w') \<and> files w' = demo_input \<and>
         LOG_DIR \<in> dirs w' \<and> stdout w' = [])"
proof -
  have h: "environ (demo_world demo_env demo_input (Accepted (done_after 3 OpFailed))) ENDPOINT_VAR = Some (ustr ''https://ocr.example.net/'')"
    "environ (demo_world demo_env demo_input (Accepted (done_after 3 OpFailed))) KEY_VAR = Some (ustr ''k3y'')"
    "files (demo_world demo_env demo_input (Accepted (done_after 3 OpFailed))) INPUT_FILE_PATH = Some [255, 216, 255]" "files (demo_world demo_env demo_input (Accepted (done_after 3 OpFailed))) LOG_DIR = None"
    "service (demo_world demo_env demo_input (Accepted (done_after 3 OpFailed))) [255, 216, 255] = Accepted (done_after 3 OpFailed)"
    by (simp_all add: demo_simps)
  have p: "poll_loop (done_after 3 (OpFailed :: int op_status)) 0 = Some 3" "done_after 3 (OpFailed :: int op_status) 3 = OpFailed"
    by (simp_all add: poll_loop_done_after done_after_def)
  show ?thesis using h p run_script_service_error [OF h(1) _ h(2) _ h(3) h(4), of "done_after 3 OpFailed" 3]
    by (simp add: demo_world_def)
qed

text \<open>
  C23. A run whose checks pass and whose operation succeeds after \<open>k\<close> polls with a
  result of the expected shape without surrogates creates \<^verbatim>\<open>logs\<close>, sends one
  analysis request to the configured endpoint with the key, the model
  \<^verbatim>\<open>prebuilt-layout\<close> and the bytes of \<^verbatim>\<open>sample.jpg\<close>, polls \<open>k\<close> times,
  writes the UTF-8 of the JSON text of the result dictionary to
  \<^verbatim>\<open>logs/analyze_result_<stamp>.json\<close>, prints the completion message with that
  path, and ends without exception.
\<close>

theorem run_script_success:
  assumes "environ w ENDPOINT_VAR = Some ep" "ep \<noteq> []" "environ w KEY_VAR = Some key" "key \<noteq> []"
    and "files w INPUT_FILE_PATH = Some body" "files w LOG_DIR = None"
    and "service w body = Accepted st" "poll_loop st 0 = Some k" "st k = Succeeded r"
    and "shape_ok r" "text_ok fr (result_ref r)" "log_file_path (clock w) \<notin> dirs w"
  shows "\<exists>bs. utf8_encode (dumps fr (result_ref r)) = Inr bs \<and>
    run_script fr w =
      Some (Inr (), w\<lparr>dirs := insert LOG_DIR (dirs w),
                      files := (files w)(log_file_path (clock w) \<mapsto> bs),
                      net := net w @ Submit ep key MODEL_ID body # replicate k Poll,
                      stdout := stdout w @ DONE_MSG @ log_file_path (clock w) @ [10]\<rparr>)"
  using assms by (rule run_script_ok)

theorem run_script_success_witness:
  "environ (demo_world demo_env demo_input (Accepted (done_after 2 (Succeeded hello_world)))) ENDPOINT_VAR = Some (ustr ''https://ocr.example.net/'') \<and>
   environ (demo_world demo_env demo_input (Accepted (done_after 2 (Succeeded hello_world)))) KEY_VAR = Some (ustr ''k3y'') \<and>
   files (demo_world demo_env demo_input (Accepted (done_after 2 (Succeeded hello_world)))) INPUT_FILE_PATH = Some [255, 216, 255] \<and> files (demo_world demo_env demo_input (Accepted (done_after 2 (Succeeded hello_world)))) LOG_DIR = None \<and>
   service (demo_world demo_env demo_input (Accepted (done_after 2 (Succeeded hello_world)))) [255, 216, 255] = Accepted (done_after 2 (Succeeded hello_world)) \<and>
   poll_loop (done_after 2 (Succeeded hello_world)) 0 = Some 2 \<and>
   done_after 2 (Succeeded hello_world) 2 = Succeeded hello_world \<and>
   shape_ok hello_world \<and> text_ok int_repr (result_ref hello_world) \<and>
   log_file_path (clock (demo_world demo_env demo_input (Accepted (done_after 2 (Succeeded hello_world))))) \<notin> dirs (demo_world demo_env demo_input (Accepted (done_after 2 (Succeeded hello_world)))) \<and>
   (\<exists>bs. run_script int_repr (demo_world demo_env demo_input (Accepted (done_after 2 (Succeeded hello_world)))) =
      Some (Inr (), (demo_world demo_env demo_input (Accepted (done_after 2 (Succeeded hello_world))))\<lparr>dirs := {LOG_DIR},
        files := demo_input(log_file_path (DateTime 2026 11 9 3 5 27 0) \<mapsto> bs),
        net := Submit (ustr ''https://ocr.example.net/'') (ustr ''k3y'') MODEL_ID [255, 216, 255] # replicate 2 Poll,
        stdout := DONE_MSG @ log_file_path (DateTime 2026 11 9 3 5 27 0) @ [10]\<rparr>))"
proof -
  have h: "environ (demo_world demo_env demo_input (Accepted (done_after 2 (Succeeded hello_world)))) ENDPOINT_VAR = Some (ustr ''https://ocr.example.net/'')"
    "environ (demo_world demo_env demo_input (Accepted (done_after 2 (Succeeded hello_world)))) KEY_VAR = Some (ustr ''k3y'')"
    "files (demo_world demo_env demo_input (Accepted (done_after 2 (Succeeded hello_world)))) INPUT_FILE_PATH = Some [255, 216, 255]" "files (demo_world demo_env demo_input (Accepted (done_after 2 (Succeeded hello_world)))) LOG_DIR = None"
    "service (demo_world demo_env demo_input (Accepted (done_after 2 (Succeeded hello_world)))) [255, 216, 255] = Accepted (done_after 2 (Succeeded hello_world))"
    "log_file_path (clock (demo_world demo_env demo_input (Accepted (done_after 2 (Succeeded hello_world))))) \<notin> dirs (demo_world demo_env demo_input (Accepted (done_after 2 (Succeeded hello_world))))"
    by (simp_all add: demo_simps)
  have p: "poll_loop (done_after 2 (Succeeded hello_world)) 0 = Some 2"
    "done_after 2 (Succeeded hello_world) 2 = Succeeded hello_world"
    by (simp_all add: poll_loop_done_after done_after_def)
  have ok: "shape_ok hello_world"
    using hello_world_ok by (simp add: result_to_dict_eq split: if_splits)
  have t: "text_ok int_repr (result_ref hello_world)"
    by (simp add: text_ok_def result_ref_def page_ref_def line_ref_def hello_world_def hello_line_def
                  world_line_def lines_of_def scalar_value_def)
  show ?thesis
    using h p ok t run_script_success [OF h(1) _ h(2) _ h(3-5) p ok t h(6)]
    by (simp add: demo_world_def) blast
qed

text \<open>
  C24. A result the transformation cannot read (a missing collection, or polygons of
  bare floats) ends the run with the transformation's \<^verbatim>\<open>TypeError\<close> or
  \<^verbatim>\<open>AttributeError\<close> after the request, and writes no log file and prints nothing.
\<close>

theorem run_script_transform_error:
  assumes "environ w ENDPOINT_VAR = Some ep" "ep \<noteq> []" "environ w KEY_VAR = Some key" "key \<noteq> []"
    and "files w INPUT_FILE_PATH = Some body" "files w LOG_DIR = None"
    and "service w body = Accepted st" "poll_loop st 0 = Some k" "st k = Succeeded r" "\<not> shape_ok r"
  shows "run_script fr w =
    Some (Inl (result_error r),
          w\<lparr>dirs := insert LOG_DIR (dirs w), net := net w @ Submit ep key MODEL_ID body # replicate k Poll\<rparr>)"
  using assms by (simp add: script_simps)

theorem run_script_transform_error_witness:
  "environ (demo_world demo_env demo_input (Accepted (done_after 0 (Succeeded flat_example)))) ENDPOINT_VAR = Some (ustr ''https://ocr.example.net/'') \<and>
   environ (demo_world demo_env demo_input (Accepted (done_after 0 (Succeeded flat_example)))) KEY_VAR = Some (ustr ''k3y'') \<and>
   files (demo_world demo_env demo_input (Accepted (done_after 0 (Succeeded flat_example)))) INPUT_FILE_PATH = Some [255, 216, 255] \<and> files (demo_world demo_env demo_input (Accepted (done_after 0 (Succeeded flat_example)))) LOG_DIR = None \<and>
   service (demo_world demo_env demo_input (Accepted (done_after 0 (Succeeded flat_example)))) [255, 216, 255] = Accepted (done_after 0 (Succeeded flat_example)) \<and>
   poll_loop (done_after 0 (Succeeded flat_example)) 0 = Some 0 \<and>
   done_after 0 (Succeeded flat_example) 0 = Succeeded flat_example \<and>
   \<not> shape_ok flat_example \<and>
   run_script int_repr (demo_world demo_env demo_input (Accepted (done_after 0 (Succeeded flat_example)))) =
     Some (Inl (result_error flat_example),
           (demo_world demo_env demo_input (Accepted (done_after 0 (Succeeded flat_example))))\<lparr>dirs := {LOG_DIR},
             net := [Submit (ustr ''https://ocr.example.net/'') (ustr ''k3y'') MODEL_ID [255, 216, 255]]\<rparr>)"
proof -
  have h: "environ (demo_world demo_env demo_input (Accepted (done_after 0 (Succeeded flat_example)))) ENDPOINT_VAR = Some (ustr ''https://ocr.example.net/'')"
    "environ (demo_world demo_env demo_input (Accepted (done_after 0 (Succeeded flat_example)))) KEY_VAR = Some (ustr ''k3y'')"
    "files (demo_world demo_env demo_input (Accepted (done_after 0 (Succeeded flat_example)))) INPUT_FILE_PATH = Some [255, 216, 255]" "files (demo_world demo_env demo_input (Accepted (done_after 0 (Succeeded flat_example)))) LOG_DIR = None"
    "service (demo_world demo_env demo_input (Accepted (done_after 0 (Succeeded flat_example)))) [255, 216, 255] = Accepted (done_after 0 (Succeeded flat_example))"
    by (simp_all add: demo_simps)
  have p: "poll_loop (done_after 0 (Succeeded flat_example)) 0 = Some 0"
    "done_after 0 (Succeeded flat_example) 0 = Succeeded flat_example"
    by (simp_all add: poll_loop_done_after done_after_def)
  have n: "\<not> shape_ok flat_example"
    by (simp add: shape_ok_def flat_example_def page_ok_def lines_of_def line_ok_def)
  show ?thesis
    using h p n run_script_transform_error [OF h(1) _ h(2) _ h(3-5) p n] by (simp add: demo_world_def)
qed

text \<open>
  C25. When \<^verbatim>\<open>json.dump\<close> raises part way, the run ends with that error after
  the log file was created and filled with the bytes written so far: a partial log
  remains, and the completion message is not printed.
\<close>

theorem run_script_partial_log:
  assumes "environ w ENDPOINT_VAR = Some ep" "ep \<noteq> []" "environ w KEY_VAR = Some key" "key \<noteq> []"
    and "files w INPUT_FILE_PATH = Some body" "files w LOG_DIR = None"
    and "service w body = Accepted st" "poll_loop st 0 = Some k" "st k = Succeeded r"
    and "shape_ok r" "log_file_path (clock w) \<notin> dirs w"
    and "json_dump fr (result_ref r) [] = (bs, Some e)"
  shows "run_script fr w =
    Some (Inl e, w\<lparr>dirs := insert LOG_DIR (dirs w), files := (files w)(log_file_path (clock w) \<mapsto> bs),
                   net := net w @ Submit ep key MODEL_ID body # replicate k Poll\<rparr>)"
  using assms log_path_ne_dir [of "clock w"] by (simp add: script_simps)

theorem run_script_partial_log_witness:
  "environ (demo_world demo_env demo_input (Accepted (done_after 1 (Succeeded surrogate_result)))) ENDPOINT_VAR = Some (ustr ''https://ocr.example.net/'') \<and>
   environ (demo_world demo_env demo_input (Accepted (done_after 1 (Succeeded surrogate_result)))) KEY_VAR = Some (ustr ''k3y'') \<and>
   files (demo_world demo_env demo_input (Accepted (done_after 1 (Succeeded surrogate_result)))) INPUT_FILE_PATH = Some [255, 216, 255] \<and> files (demo_world demo_env demo_input (Accepted (done_after 1 (Succeeded surrogate_result)))) LOG_DIR = None \<and>
   service (demo_world demo_env demo_input (Accepted (done_after 1 (Succeeded surrogate_result)))) [255, 216, 255] = Accepted (done_after 1 (Succeeded surrogate_result)) \<and>
   poll_loop (done_after 1 (Succeeded surrogate_result)) 0 = Some 1 \<and>
   done_after 1 (Succeeded surrogate_result) 1 = Succeeded surrogate_result \<and>
   shape_ok surrogate_result \<and> log_file_path (clock (demo_world demo_env demo_input (Accepted (done_after 1 (Succeeded surrogate_result))))) \<notin> dirs (demo_world demo_env demo_input (Accepted (done_after 1 (Succeeded surrogate_result)))) \<and>
   json_dump int_repr (result_ref surrogate_result) [] =
     (map of_nat [123, 10, 32, 32, 34, 99, 111, 110, 116, 101, 110, 116, 34, 58, 32], Some UnicodeEncodeError) \<and>
   run_script int_repr (demo_world demo_env demo_input (Accepted (done_after 1 (Succeeded surrogate_result)))) =
     Some (Inl UnicodeEncodeError, (demo_world demo_env demo_input (Accepted (done_after 1 (Succeeded surrogate_result))))\<lparr>dirs := {LOG_DIR},
       files := demo_input(log_file_path (DateTime 2026 11 9 3 5 27 0) \<mapsto>
                  map of_nat [123, 10, 32, 32, 34, 99, 111, 110, 116, 101, 110, 116, 34, 58, 32]),
       net := [Submit (ustr ''https://ocr.example.net/'') (ustr ''k3y'') MODEL_ID [255, 216, 255], Poll]\<rparr>)"
proof -
  have h: "environ (demo_world demo_env demo_input (Accepted (done_after 1 (Succeeded surrogate_result)))) ENDPOINT_VAR = Some (ustr ''https://ocr.example.net/'')"
    "environ (demo_world demo_env demo_input (Accepted (done_after 1 (Succeeded surrogate_result)))) KEY_VAR = Some (ustr ''k3y'')"
    "files (demo_world demo_env demo_input (Accepted (done_after 1 (Succeeded surrogate_result)))) INPUT_FILE_PATH = Some [255, 216, 255]" "files (demo_world demo_env demo_input (Accepted (done_after 1 (Succeeded surrogate_result)))) LOG_DIR = None"
    "service (demo_world demo_env demo_input (Accepted (done_after 1 (Succeeded surrogate_result)))) [255, 216, 255] = Accepted (done_after 1 (Succeeded surrogate_result))"
    "log_file_path (clock (demo_world demo_env demo_input (Accepted (done_after 1 (Succeeded surrogate_result))))) \<notin> dirs (demo_world demo_env demo_input (Accepted (done_after 1 (Succeeded surrogate_result))))"
    by (simp_all add: demo_simps)
  have p: "poll_loop (done_after 1 (Succeeded surrogate_result)) 0 = Some 1"
    "done_after 1 (Succeeded surrogate_result) 1 = Succeeded surrogate_result"
    by (simp_all add: poll_loop_done_after done_after_def)
  have ok: "shape_ok surrogate_result"
    by (simp add: shape_ok_def surrogate_result_def)
  have d: "json_dump int_repr (result_ref surrogate_result) [] =
     (map of_nat [123, 10, 32, 32, 34, 99, 111, 110, 116, 101, 110, 116, 34, 58, 32], Some UnicodeEncodeError)"
    by (simp add: result_ref_def surrogate_result_def json_dump_def newline_indent_def encode_basestring_def
                  escape_char_def numeral_2_eq_2 utf8_encode_ascii utf8_encode_surrogate_Inl scalar_value_def)
  show ?thesis
    using h p ok d run_script_partial_log [OF h(1) _ h(2) _ h(3-5) p ok h(6) d] by (simp add: demo_world_def)
qed

text \<open>
  C26. The script sends a request only when both variables are set and non-empty and
  \<^verbatim>\<open>sample.jpg\<close> is a regular file, and its first request is the analysis request
  to the configured endpoint, with the key, the model \<^verbatim>\<open>prebuilt-layout\<close> and the
  file's bytes; otherwise a run that ends leaves the network trace unchanged.
\<close>

theorem run_script_requests:
  assumes "run_script fr w = Some (res, w')"
  shows "net w' = net w \<or>
    (\<exists>ep key body rest. environ w ENDPOINT_VAR = Some ep \<and> ep \<noteq> [] \<and> environ w KEY_VAR = Some key \<and>
       key \<noteq> [] \<and> files w INPUT_FILE_PATH = Some body \<and> net w' = net w @ Submit ep key MODEL_ID body # rest)"
  using assms unfolding run_script_def Let_def
proof (cases rule: bindS_SomeE)
  case (1 e)
  then show ?thesis using read_config_SomeE by blast
next
  case (2 a w1)
  obtain ep key where a: "a = (ep, key)" by (cases a)
  from 2 a read_config_SomeE have w1: "w1 = w" and cfg: "environ w ENDPOINT_VAR = Some ep" "ep \<noteq> []"
    "environ w KEY_VAR = Some key" "key \<noteq> []" by blast+
  from 2(2) a w1 have "bindS check_input (\<lambda>_. bindS (os_makedirs LOG_DIR) (\<lambda>_ w.
      bindS (analyze (make_client ep key)) (\<lambda>result. bindS (build_result_dict result) (\<lambda>result_dict.
        bindS (write_log fr (log_file_path (clock w)) result_dict) (\<lambda>_. report (log_file_path (clock w))))) w)) w
      = Some (res, w')" by simp
  then show ?thesis
  proof (cases rule: bindS_SomeE)
    case (1 e)
    then show ?thesis using check_input_SomeE by blast
  next
    case (2 u w2)
    with check_input_SomeE [OF 2(1)] after_makedirs_net [of "make_client ep key"] cfg show ?thesis
      by (auto simp: make_client_def)
  qed
qed

theorem run_script_requests_witness:
  "run_script int_repr (demo_world (\<lambda>_. None) demo_input SubmitFails) = Some (Inl RuntimeError, demo_world (\<lambda>_. None) demo_input SubmitFails) \<and> net (demo_world (\<lambda>_. None) demo_input SubmitFails) = []"
proof -
  have h: "run_script int_repr (demo_world (\<lambda>_. None) demo_input SubmitFails) = Some (Inl RuntimeError, demo_world (\<lambda>_. None) demo_input SubmitFails)"
    by (simp add: run_script_def bindS_def read_config_error demo_world_def py_not_def)
  show ?thesis using h run_script_requests [OF h] by (simp add: demo_world_def)
qed

text \<open>
  C27. A run of the script, whichever way it ends, writes no file but the log file
  named after its starting time and creates no directory but \<^verbatim>\<open>logs\<close>: in
  particular \<^verbatim>\<open>sample.jpg\<close> and every earlier log are left as they were.
\<close>

theorem run_script_touches_only_log:
  assumes "run_script fr w = Some (res, w')"
  shows "(\<forall>p. p \<noteq> log_file_path (clock w) \<longrightarrow> files w' p = files w p) \<and> dirs w' \<subseteq> insert LOG_DIR (dirs w)"
  using stmt_relD [OF run_script_fs_frame assms] by (simp add: fs_frame_def)

theorem run_script_touches_only_log_witness:
  "\<exists>w'. run_script int_repr (demo_world demo_env demo_input (Accepted (done_after 2 (Succeeded hello_world)))) = Some (Inr (), w') \<and>
     files w' INPUT_FILE_PATH = Some [255, 216, 255] \<and> dirs w' \<subseteq> {LOG_DIR}"
proof -
  obtain w' where r: "run_script int_repr (demo_world demo_env demo_input (Accepted (done_after 2 (Succeeded hello_world)))) = Some (Inr (), w')"
    using demo_success_run by blast
  have "files w' INPUT_FILE_PATH = files (demo_world demo_env demo_input (Accepted (done_after 2 (Succeeded hello_world)))) INPUT_FILE_PATH" "dirs w' \<subseteq> insert LOG_DIR (dirs (demo_world demo_env demo_input (Accepted (done_after 2 (Succeeded hello_world)))))"
    using run_script_touches_only_log [OF r] log_path_ne_input [of "clock (demo_world demo_env demo_input (Accepted (done_after 2 (Succeeded hello_world))))"] by metis+
  with r show ?thesis by (auto simp: demo_simps)
qed

text \<open>
  C31. Two successful runs within the same second, one after the other on the same
  machine, leave one log file: the second run's \<^verbatim>\<open>open(..., "w")\<close> truncates the
  first run's log and replaces it by its own, so the first result is lost.
\<close>

theorem run_script_same_second_overwrite:
  assumes "environ w ENDPOINT_VAR = Some ep" "ep \<noteq> []" "environ w KEY_VAR = Some key" "key \<noteq> []"
    and "files w INPUT_FILE_PATH = Some body" "files w LOG_DIR = None"
    and "service w body = Accepted st1" "poll_loop st1 0 = Some k1" "st1 k1 = Succeeded r1"
    and "shape_ok r1" "text_ok fr (result_ref r1)" "log_file_path (clock w) \<notin> dirs w"
    and "valid_datetime (clock w)" "valid_datetime d2" "to_second d2 = to_second (clock w)"
    and "s2 body = Accepted st2" "poll_loop st2 0 = Some k2" "st2 k2 = Succeeded r2"
    and "shape_ok r2" "text_ok fr (result_ref r2)"
  shows "\<exists>w1 w2 bs2. run_script fr w = Some (Inr (), w1) \<and>
    run_script fr (w1\<lparr>clock := d2, service := s2\<rparr>) = Some (Inr (), w2) \<and>
    utf8_encode (dumps fr (result_ref r2)) = Inr bs2 \<and> files w2 = (files w)(log_file_path (clock w) \<mapsto> bs2)"
proof -
  obtain bs1 where run1: "run_script fr w =
      Some (Inr (), w\<lparr>dirs := insert LOG_DIR (dirs w), files := (files w)(log_file_path (clock w) \<mapsto> bs1),
                      net := net w @ Submit ep key MODEL_ID body # replicate k1 Poll,
                      stdout := stdout w @ DONE_MSG @ log_file_path (clock w) @ [10]\<rparr>)"
    using run_script_ok [OF assms(1-12)] by blast
  define w1 where "w1 = w\<lparr>dirs := insert LOG_DIR (dirs w), files := (files w)(log_file_path (clock w) \<mapsto> bs1),
                      net := net w @ Submit ep key MODEL_ID body # replicate k1 Poll,
                      stdout := stdout w @ DONE_MSG @ log_file_path (clock w) @ [10], clock := d2, service := s2\<rparr>"
  have p: "log_file_path d2 = log_file_path (clock w)"
    using stamp_eq_iff [OF assms(14,13)] assms(15) by (simp add: log_file_path_eq)
  have ne: "log_file_path (clock w) \<noteq> LOG_DIR" "log_file_path (clock w) \<noteq> INPUT_FILE_PATH"
    by (rule log_path_ne_dir, rule log_path_ne_input)
  have "environ w1 ENDPOINT_VAR = Some ep" "environ w1 KEY_VAR = Some key"
    "files w1 INPUT_FILE_PATH = Some body" "files w1 LOG_DIR = None" "service w1 body = Accepted st2"
    "log_file_path (clock w1) \<notin> dirs w1"
    using assms p ne by (auto simp: w1_def)
  from run_script_ok [OF this(1) assms(2) this(2) assms(4) this(3-5) assms(17,18) assms(19,20) this(6)]
  obtain bs2 where "utf8_encode (dumps fr (result_ref r2)) = Inr bs2"
    "run_script fr w1 = Some (Inr (), w1\<lparr>dirs := insert LOG_DIR (dirs w1),
        files := (files w1)(log_file_path (clock w1) \<mapsto> bs2),
        net := net w1 @ Submit ep key MODEL_ID body # replicate k2 Poll,
        stdout := stdout w1 @ DONE_MSG @ log_file_path (clock w1) @ [10]\<rparr>)"
    by blast
  then show ?thesis using run1 p by (simp add: w1_def)
qed

theorem run_script_same_second_overwrite_witness:
  "environ (demo_world demo_env demo_input (Accepted (done_after 2 (Succeeded hello_world)))) ENDPOINT_VAR = Some (ustr ''https://ocr.example.net/'') \<and>
   environ (demo_world demo_env demo_input (Accepted (done_after 2 (Succeeded hello_world)))) KEY_VAR = Some (ustr ''k3y'') \<and>
   files (demo_world demo_env demo_input (Accepted (done_after 2 (Succeeded hello_world)))) INPUT_FILE_PATH = Some [255, 216, 255] \<and> files (demo_world demo_env demo_input (Accepted (done_after 2 (Succeeded hello_world)))) LOG_DIR = None \<and>
   service (demo_world demo_env demo_input (Accepted (done_after 2 (Succeeded hello_world)))) [255, 216, 255] = Accepted (done_after 2 (Succeeded hello_world)) \<and>
   poll_loop (done_after 2 (Succeeded hello_world)) 0 = Some 2 \<and>
   done_after 2 (Succeeded hello_world) 2 = Succeeded hello_world \<and>
   shape_ok hello_world \<and> text_ok int_repr (result_ref hello_world) \<and>
   log_file_path (clock (demo_world demo_env demo_input (Accepted (done_after 2 (Succeeded hello_world))))) \<notin> dirs (demo_world demo_env demo_input (Accepted (done_after 2 (Succeeded hello_world)))) \<and>
   valid_datetime (clock (demo_world demo_env demo_input (Accepted (done_after 2 (Succeeded hello_world))))) \<and> valid_datetime (DateTime 2026 11 9 3 5 27 500000) \<and>
   to_second (DateTime 2026 11 9 3 5 27 500000) = to_second (clock (demo_world demo_env demo_input (Accepted (done_after 2 (Succeeded hello_world))))) \<and>
   (\<lambda>_. Accepted (done_after 0 (Succeeded second_result))) [255, 216, 255] =
     Accepted (done_after 0 (Succeeded second_result)) \<and>
   poll_loop (done_after 0 (Succeeded second_result)) 0 = Some 0 \<and>
   done_after 0 (Succeeded second_result) 0 = Succeeded second_result \<and>
   shape_ok second_result \<and> text_ok int_repr (result_ref second_result) \<and>
   (\<exists>w1 w2 bs2. run_script int_repr (demo_world demo_env demo_input (Accepted (done_after 2 (Succeeded hello_world)))) = Some (Inr (), w1) \<and>
      run_script int_repr (w1\<lparr>clock := DateTime 2026 11 9 3 5 27 500000,
                              service := \<lambda>_. Accepted (done_after 0 (Succeeded second_result))\<rparr>) =
        Some (Inr (), w2) \<and>
      utf8_encode (dumps int_repr (result_ref second_result)) = Inr bs2 \<and>
      files w2 = demo_input(log_file_path (DateTime 2026 11 9 3 5 27 0) \<mapsto> bs2))"
proof -
  have h: "environ (demo_world demo_env demo_input (Accepted (done_after 2 (Succeeded hello_world)))) ENDPOINT_VAR = Some (ustr ''https://ocr.example.net/'')"
    "environ (demo_world demo_env demo_input (Accepted (done_after 2 (Succeeded hello_world)))) KEY_VAR = Some (ustr ''k3y'')"
    "files (demo_world demo_env demo_input (Accepted (done_after 2 (Succeeded hello_world)))) INPUT_FILE_PATH = Some [255, 216, 255]" "files (demo_world demo_env demo_input (Accepted (done_after 2 (Succeeded hello_world)))) LOG_DIR = None"
    "service (demo_world demo_env demo_input (Accepted (done_after 2 (Succeeded hello_world)))) [255, 216, 255] = Accepted (done_after 2 (Succeeded hello_world))"
    "log_file_path (clock (demo_world demo_env demo_input (Accepted (done_after 2 (Succeeded hello_world))))) \<notin> dirs (demo_world demo_env demo_input (Accepted (done_after 2 (Succeeded hello_world))))"
    "valid_datetime (clock (demo_world demo_env demo_input (Accepted (done_after 2 (Succeeded hello_world)))))" "valid_datetime (DateTime 2026 11 9 3 5 27 500000)"
    "to_second (DateTime 2026 11 9 3 5 27 500000) = to_second (clock (demo_world demo_env demo_input (Accepted (done_after 2 (Succeeded hello_world)))))"
    by (simp_all add: demo_simps valid_datetime_def days_in_month_def to_second_def)
  have p: "poll_loop (done_after 2 (Succeeded hello_world)) 0 = Some 2"
    "done_after 2 (Succeeded hello_world) 2 = Succeeded hello_world"
    "poll_loop (done_after 0 (Succeeded second_result)) 0 = Some 0"
    "done_after 0 (Succeeded second_result) 0 = Succeeded second_result"
    by (simp_all add: poll_loop_done_after done_after_def)
  have ok: "shape_ok hello_world"
    using hello_world_ok by (simp add: result_to_dict_eq split: if_splits)
  have t: "text_ok int_repr (result_ref hello_world)"
    by (simp add: text_ok_def result_ref_def page_ref_def line_ref_def hello_world_def hello_line_def
                  world_line_def lines_of_def scalar_value_def)
  have ok2: "shape_ok second_result" and t2: "text_ok int_repr (result_ref second_result)"
    by (simp_all add: shape_ok_def text_ok_def result_ref_def second_result_def)
  have s2: "(\<lambda>_. Accepted (done_after 0 (Succeeded second_result))) [255, 216, 255] =
     Accepted (done_after 0 (Succeeded second_result))" by simp
  show ?thesis
    using h p ok t ok2 t2 s2
      run_script_same_second_overwrite [OF h(1) _ h(2) _ h(3-5) p(1,2) ok t h(6-9) s2 p(3,4) ok2 t2]
    by (simp add: demo_world_def)
qed

section \<open>The polling loop and the termination of the script\<close>

text \<open>
  C32. The poller's loop returns exactly when the operation reaches a finished status
  at some poll from the current one on.
\<close>

theorem poll_loop_terminates:
  "(\<exists>j. poll_loop st k = Some j) \<longleftrightarrow> (\<exists>j. k \<le> j \<and> st j \<noteq> NotDone)"
  using poll_loop_None_iff [of st k] by (cases "poll_loop st k") auto

text \<open>
  C33. When it returns, the loop stops at the first finished status: it returns \<open>j\<close>
  exactly when status \<open>j\<close> is finished and all statuses from \<open>k\<close> to \<open>j - 1\<close> are
  still running, so the poller sends one poll per running status.
\<close>

theorem poll_loop_first_finished:
  "poll_loop st k = Some j \<longleftrightarrow> k \<le> j \<and> st j \<noteq> NotDone \<and> (\<forall>i. k \<le> i \<and> i < j \<longrightarrow> st i = NotDone)"
  by (rule poll_loop_Some_iff)

theorem poll_loop_first_finished_witness:
  "poll_loop (done_after 3 (OpFailed :: int op_status)) 0 = Some 3 \<and>
   done_after 3 (OpFailed :: int op_status) 3 \<noteq> NotDone \<and> done_after 3 (OpFailed :: int op_status) 2 = NotDone"
proof -
  have h: "poll_loop (done_after 3 (OpFailed :: int op_status)) 0 = Some 3"
    by (simp add: poll_loop_done_after)
  show ?thesis using h poll_loop_first_finished [THEN iffD1, OF h] by auto
qed

text \<open>
  C34. The script always ends, with a value or an exception, except in one case: the
  configuration is present, \<^verbatim>\<open>sample.jpg\<close> is a file, \<^verbatim>\<open>logs\<close> can be created,
  the service accepts the request, and the operation never finishes. The SDK sets no
  time limit, so then the script polls forever and writes no log.
\<close>

theorem run_script_terminates:
  "run_script fr w = None \<longleftrightarrow>
   (\<exists>ep key body st. environ w ENDPOINT_VAR = Some ep \<and> ep \<noteq> [] \<and> environ w KEY_VAR = Some key \<and>
      key \<noteq> [] \<and> files w INPUT_FILE_PATH = Some body \<and> (LOG_DIR \<in> dirs w \<or> files w LOG_DIR = None) \<and>
      service w body = Accepted st \<and> (\<forall>i. st i = NotDone))"
  by (auto simp: run_script_def Let_def bindS_None_iff read_config_eq check_input_eq os_path_exists_def
                 os_makedirs_eq py_not_def analyze_None tail_stmts_total poll_loop_None_iff
           split: if_splits option.splits)

end
