(* ===== verification/Result_Schema.thy ===== *)
theory Result_Schema
  imports Analyze_Result
begin

text \<open>
  The schema of the log file, section 4 of the spec, as a type of Python values: the
  keys of every dict, in the order the script inserts them, and the kind of every value.
  A field the SDK left unset is written as \<^verbatim>\<open>None\<close> (see the findings), so a scalar
  field is either its kind or \<^verbatim>\<open>None\<close>. The theorem of this theory is that every
  dict the transformer of \<^verbatim>\<open>src/main.py\<close> (lines 63--88) returns has this type.
\<close>

section \<open>The schema\<close>

fun opt_str :: "'f pyval \<Rightarrow> bool" where
  "opt_str (PyStr s) = True"
| "opt_str PyNone = True"
| "opt_str v = False"

fun opt_int :: "'f pyval \<Rightarrow> bool" where
  "opt_int (PyInt i) = True"
| "opt_int PyNone = True"
| "opt_int v = False"

fun opt_float :: "'f pyval \<Rightarrow> bool" where
  "opt_float (PyFloat f) = True"
| "opt_float PyNone = True"
| "opt_float v = False"

text \<open>\<^verbatim>\<open>{"x": float, "y": float}\<close>.\<close>

fun point_schema :: "'f pyval \<Rightarrow> bool" where
  "point_schema (PyDict [(kx, PyFloat x), (ky, PyFloat y)]) \<longleftrightarrow> kx = ustr ''x'' \<and> ky = ustr ''y''"
| "point_schema v \<longleftrightarrow> False"

text \<open>\<^verbatim>\<open>{"content": str, "bounding_polygon": [point, ...]}\<close>.\<close>

fun line_schema :: "'f pyval \<Rightarrow> bool" where
  "line_schema (PyDict [(kc, c), (kp, PyList pts)]) \<longleftrightarrow>
     kc = ustr ''content'' \<and> opt_str c \<and> kp = ustr ''bounding_polygon'' \<and> list_all point_schema pts"
| "line_schema v \<longleftrightarrow> False"

text \<open>\<^verbatim>\<open>{"page_number": int, "width": float, "height": float, "unit": str,
  "lines": [line, ...]}\<close>.\<close>

fun page_schema :: "'f pyval \<Rightarrow> bool" where
  "page_schema (PyDict [(k1, n), (k2, wd), (k3, ht), (k4, u), (k5, PyList ls)]) \<longleftrightarrow>
     k1 = ustr ''page_number'' \<and> opt_int n \<and> k2 = ustr ''width'' \<and> opt_float wd \<and>
     k3 = ustr ''height'' \<and> opt_float ht \<and> k4 = ustr ''unit'' \<and> opt_str u \<and>
     k5 = ustr ''lines'' \<and> list_all line_schema ls"
| "page_schema v \<longleftrightarrow> False"

text \<open>\<^verbatim>\<open>{"content": str, "pages": [page, ...]}\<close>.\<close>

fun log_schema :: "'f pyval \<Rightarrow> bool" where
  "log_schema (PyDict [(kc, c), (kp, PyList ps)]) \<longleftrightarrow>
     kc = ustr ''content'' \<and> opt_str c \<and> kp = ustr ''pages'' \<and> list_all page_schema ps"
| "log_schema v \<longleftrightarrow> False"

section \<open>Lemmas\<close>

lemma opt_py_opt [simp]:
  "opt_str (py_opt PyStr s)" "opt_int (py_opt PyInt i)" "opt_float (py_opt PyFloat f)"
  by (simp_all add: py_opt_def split: option.splits)

lemma line_ref_schema: "line_ok line \<Longrightarrow> line_schema (line_ref line)"
proof -
  assume ok: "line_ok line"
  have "point_schema (point_ref p)" if "point_ok p" for p :: "'f poly_item"
    using that by (cases p) simp_all
  with ok show ?thesis
    by (auto simp: line_ok_def line_ref_def list_all_iff split: option.splits)
qed

lemma page_ref_schema: "page_ok page \<Longrightarrow> page_schema (page_ref page)"
  using line_ref_schema by (auto simp: page_ok_def page_ref_def list_all_iff)

section \<open>The transformer's output has the schema\<close>

text \<open>
  C29. Every dict the transformation returns has the log schema: exactly the keys
  \<^verbatim>\<open>content\<close>, \<^verbatim>\<open>pages\<close>; in each page exactly \<^verbatim>\<open>page_number\<close>,
  \<^verbatim>\<open>width\<close>, \<^verbatim>\<open>height\<close>, \<^verbatim>\<open>unit\<close>, \<^verbatim>\<open>lines\<close>; in each line
  \<^verbatim>\<open>content\<close> and \<^verbatim>\<open>bounding_polygon\<close>; in each point \<^verbatim>\<open>x\<close> and
  \<^verbatim>\<open>y\<close>, in this order, with values of the kinds the spec gives (or \<^verbatim>\<open>None\<close>).
\<close>

theorem result_to_dict_schema: "result_to_dict r = Inr v \<Longrightarrow> log_schema v"
proof -
  assume r: "result_to_dict r = Inr v"
  then have ok: "shape_ok r" and v: "v = result_ref r"
    by (simp_all add: result_to_dict_eq split: if_splits)
  then obtain ps where "pages r = Some ps" "list_all page_ok ps"
    using shape_ok_pages by blast
  then show ?thesis
    using v page_ref_schema by (auto simp: result_ref_def list_all_iff)
qed

theorem result_to_dict_schema_witness:
  "result_to_dict hello_world = Inr (result_ref hello_world) \<and> log_schema (result_ref hello_world)"
  using hello_world_ok result_to_dict_schema [OF hello_world_ok] by simp

end
