(* ===== verification/Spec2Isabelle.thy ===== *)
theory Spec2Isabelle
  imports Json_Load Script Result_Schema
begin

text \<open>
  \<^bold>\<open>A verification development of \<^verbatim>\<open>src/main.py\<close>.\<close>
  The program is one Python module, run once from top to bottom. It reads two
  environment variables (lines 12--18), builds an Azure Document Intelligence client
  (24--27), checks that \<^verbatim>\<open>sample.jpg\<close> exists (33--35), creates \<^verbatim>\<open>logs\<close> and names
  the log file after the current second (41--45), sends the file to the service and
  waits for the layout analysis (51--57), copies the parts of the result it keeps into
  a dictionary (63--88), dumps the dictionary as indented JSON into the log file
  (94--95), and prints the path (98).

  \<^bold>\<open>Theories.\<close>
  \<^item> \<open>Prelude\<close>: Python text as code point lists (\<open>pystr\<close>), bytes as \<open>8 word\<close>, the
    exceptions (\<open>py_error\<close>), results \<open>py_error + 'a\<close> with \<open>bindE\<close>, the loops
    \<open>mapE\<close> (a comprehension) and \<open>for_append\<close> (an append loop), and statements over
    a state, \<open>('s, 'a) py_stmt\<close> with \<open>returnS\<close>, \<open>raiseS\<close>, \<open>bindS\<close>. A
    statement returns \<open>None\<close> when it does not return; \<open>stmt_rel R m\<close> says that every
    run of \<open>m\<close> that returns relates its states by \<open>R\<close>, and its composition rules
    (\<open>stmt_rel_intros\<close>) prove invariants and frame conditions statement by statement.
  \<^item> \<open>Py_Value\<close>: the values the script builds (\<open>pyval\<close>; dicts as association
    lists, since they keep insertion order; floats abstract as \<open>'f\<close>).
  \<^item> \<open>Analyze_Result\<close> (lines 63--88): the SDK's \<^verbatim>\<open>AnalyzeResult\<close>,
    \<^verbatim>\<open>DocumentPage\<close>, \<^verbatim>\<open>DocumentLine\<close> as records of optional attributes, polygon
    items that are points or bare floats, and \<open>point_dict\<close>, \<open>line_dict\<close>,
    \<open>page_dict\<close>, \<open>result_to_dict\<close> with every exception they raise; a map-based
    reference (\<open>result_ref\<close>), the spec's data model (\<open>spec_result\<close>) and the
    abstraction \<open>spec_of_result\<close>. Claims C1--C9.
  \<^item> \<open>Result_Schema\<close>: the log schema of the spec's section 4 as a type of values
    (\<open>log_schema\<close>: keys in insertion order, kinds of values). C29.
  \<^item> \<open>Json_Dump\<close> (line 95): the chunks of CPython's \<^verbatim>\<open>_make_iterencode\<close> for
    \<^verbatim>\<open>indent=2\<close>, \<^verbatim>\<open>ensure_ascii=False\<close> (\<open>iterencode\<close>, \<open>encode_basestring\<close>,
    \<open>int_repr\<close>), floats through a printer parameter. C11, C12.
  \<^item> \<open>Json_Load\<close>: a JSON reader with fuel, the reference against which the
    dump is proved faithful. C10.
  \<^item> \<open>Log_Path\<close> (lines 41--45): \<open>datetime\<close> with Python's order (a \<open>linorder\<close>
    instance), \<^verbatim>\<open>strftime("%Y%m%d_%H%M%S")\<close>, \<^verbatim>\<open>os.path.join\<close>. C13--C15.
  \<^item> \<open>Utf8\<close> (line 94): CPython's strict UTF-8 encoder on a \<open>32 word\<close> code point
    with the shifts and masks of C, and a strict decoder as reference. C16, C17, C30.
  \<^item> \<open>Log_Write\<close> (lines 94--95): \<^verbatim>\<open>json.dump\<close> writing chunk by chunk through the
    text wrapper, which encodes each chunk when it is written. C18, C19.
  \<^item> \<open>Script\<close> (lines 12--98): the world (\<open>world\<close>: environment, files, directories,
    clock, service oracle, network trace, standard output), one statement per block of
    the file (\<open>read_config\<close>, \<open>make_client\<close>, \<open>check_input\<close>, \<open>os_makedirs\<close>,
    \<open>analyze\<close> with \<open>open_read\<close>, \<open>begin_analyze_document\<close>, \<open>poller_result\<close>
    and its polling loop \<open>poll_loop\<close> (a \<open>partial_function (option)\<close>: the service
    answers a request by refusing it or by an operation whose status at each poll is
    \<open>op_status\<close>),
    \<open>build_result_dict\<close>, \<open>write_log\<close> with \<open>open_write\<close>, \<open>report\<close>), composed
    by \<open>run_script\<close> with \<open>bindS\<close> in the order of the file; the frame relation
    \<open>fs_frame\<close> (what a run may change in the file system); example worlds for the
    witnesses. C20--C27, C31--C34.
  \<^item> This theory: the end-to-end property across the script, the transformer, the
    dump, the encoder and the reader. C28.

  \<^bold>\<open>What the lemmas show.\<close> The transformer refines the spec's
  contract and fails exactly on results of the wrong shape, with
  \<^verbatim>\<open>TypeError\<close> or \<^verbatim>\<open>AttributeError\<close>
  (C1--C9), and its output always has the log schema (C29). The log text reads back
  to the dumped value (C10), keeps non-ASCII text literal (C11), and its only control characters are the newlines of the
  layout, one per line break of \<^verbatim>\<open>indent=2\<close> (C12, against \<open>layout_breaks\<close>). The
  log name reads back, sorts as the times, and collides within one second (C13--C15).
  UTF-8 round-trips and fails exactly on surrogates, and its bytes stay in UTF-8's
  ranges (C16, C17, C30). The written file is the UTF-8 of the JSON text, or a prefix
  of it when a chunk fails (C18, C19). The script fails early and without effects on a
  bad configuration or a missing input, sends its one request only after both checks,
  writes no log when the service or the transformation fails, leaves a partial log
  when the dump fails, writes no file but its own log and creates no directory but
  \<^verbatim>\<open>logs\<close>, and on success writes a log
  that reads back to the spec's mapping of the result (C20--C28); a second run in the
  same second replaces the first run's log (C31). The polling loop returns exactly
  when the operation finishes at some poll, and then at the first finished poll
  (C32, C33); the script ends on every world except those where the operation is
  accepted and never finishes, where it polls forever (C34).

  \<^bold>\<open>Bounds and fuel.\<close> The reader runs with fuel \<open>Suc (length s)\<close> on a text \<open>s\<close>:
  every nesting level of a dumped value consumes at least one character, so the size of
  the value is bounded by the length of its text (\<open>size_le_text\<close>) and the fuel is
  enough (\<open>parse_iterencode\<close>). The polling loop has no fuel: it is a partial
  function whose value is \<open>None\<close> exactly when no status is finished
  (\<open>poll_loop_None_iff\<close>), and the script's termination is proved as such (C34). Code points are below \<^verbatim>\<open>0x110000\<close>, as in Python,
  so the \<open>32 word\<close> of the encoder never wraps (\<open>utf8_encode_char_nat\<close>).

  \<^bold>\<open>Not modelled.\<close> The Azure SDK and the service are an oracle of the world: the
  HTTP requests, authentication, the delay between polls and retries inside the SDK
  are not modelled, only the request's content, whether the service refuses it, and
  the operation's status at each poll (running, succeeded, failed, or a poll that
  raises). The client constructor is a record of endpoint and
  key, since it performs no I/O. Floats are abstract; their text is a parameter.
  \<^verbatim>\<open>print\<close> appends to standard output as code points; the encoding of the
  terminal and a failing \<^verbatim>\<open>stdout\<close> are not modelled. File system paths are relative
  names; \<^verbatim>\<open>os.makedirs\<close> is modelled for the one-component name \<^verbatim>\<open>logs\<close>.
  \<^verbatim>\<open>%Y\<close> is modelled as four digits zero-padded; glibc prints years below 1000
  with fewer digits, so the log-name claims read as stated for clocks from year 1000 on.
\<close>

section \<open>End to end\<close>

text \<open>
  C28. On a successful run, reading the log file back as Python would
  (\<^verbatim>\<open>json.loads(open(path, encoding="utf-8").read())\<close>) gives exactly the spec's
  mapping of the analysis result: the pages, lines and polygons in order, every
  field copied.
\<close>

theorem log_file_round_trip:
  assumes "environ w ENDPOINT_VAR = Some ep" "ep \<noteq> []" "environ w KEY_VAR = Some key" "key \<noteq> []"
    and "files w INPUT_FILE_PATH = Some body" "files w LOG_DIR = None"
    and "service w body = Accepted st" "poll_loop st 0 = Some k" "st k = Succeeded r"
    and "spec_of_result r = Some s"
    and "text_ok fr (result_ref r)" "floats_ok fr fread (result_ref r)"
    and "log_file_path (clock w) \<notin> dirs w"
  shows "\<exists>w' bs. run_script fr w = Some (Inr (), w') \<and> files w' (log_file_path (clock w)) = Some bs \<and>
          map_option (json_loads fread) (utf8_decode bs) = Some (Some (spec_result_map s))"
proof -
  have ok: "shape_ok r" and ref: "result_ref r = spec_result_map s"
    using spec_of_result_Some [OF assms(10)] by simp_all
  obtain bs where enc: "utf8_encode (dumps fr (result_ref r)) = Inr bs"
    and run: "run_script fr w =
      Some (Inr (), w\<lparr>dirs := insert LOG_DIR (dirs w), files := (files w)(log_file_path (clock w) \<mapsto> bs),
                      net := net w @ Submit ep key MODEL_ID body # replicate k Poll,
                      stdout := stdout w @ DONE_MSG @ log_file_path (clock w) @ [10]\<rparr>)"
    using run_script_ok [OF assms(1-9) ok assms(11) assms(13)] by blast
  have "utf8_decode bs = Some (dumps fr (result_ref r))"
    using utf8_encode_scalar [OF dumps_scalar [OF assms(11)]] enc by auto
  then show ?thesis
    using run loads_dumps [OF assms(12)] ref by simp
qed

theorem log_file_round_trip_witness:
  "environ (demo_world demo_env demo_input (Accepted (done_after 2 (Succeeded hello_world)))) ENDPOINT_VAR = Some (ustr ''https://ocr.example.net/'') \<and>
   environ (demo_world demo_env demo_input (Accepted (done_after 2 (Succeeded hello_world)))) KEY_VAR = Some (ustr ''k3y'') \<and>
   files (demo_world demo_env demo_input (Accepted (done_after 2 (Succeeded hello_world)))) INPUT_FILE_PATH = Some [255, 216, 255] \<and>
   files (demo_world demo_env demo_input (Accepted (done_after 2 (Succeeded hello_world)))) LOG_DIR = None \<and>
   service (demo_world demo_env demo_input (Accepted (done_after 2 (Succeeded hello_world)))) [255, 216, 255] = Accepted (done_after 2 (Succeeded hello_world)) \<and>
   poll_loop (done_after 2 (Succeeded hello_world)) 0 = Some 2 \<and>
   done_after 2 (Succeeded hello_world) 2 = Succeeded hello_world \<and>
   spec_of_result hello_world = Some hello_world_spec \<and>
   text_ok int_float_repr (result_ref hello_world) \<and>
   floats_ok int_float_repr int_float_read (result_ref hello_world) \<and>
   log_file_path (clock (demo_world demo_env demo_input (Accepted (done_after 2 (Succeeded hello_world))))) \<notin> dirs (demo_world demo_env demo_input (Accepted (done_after 2 (Succeeded hello_world)))) \<and>
   (\<exists>w' bs. run_script int_float_repr (demo_world demo_env demo_input (Accepted (done_after 2 (Succeeded hello_world)))) = Some (Inr (), w') \<and>
      files w' (log_file_path (DateTime 2026 11 9 3 5 27 0)) = Some bs \<and>
      map_option (json_loads int_float_read) (utf8_decode bs) = Some (Some (spec_result_map hello_world_spec)))"
proof -
  have h: "environ (demo_world demo_env demo_input (Accepted (done_after 2 (Succeeded hello_world)))) ENDPOINT_VAR = Some (ustr ''https://ocr.example.net/'')"
    "environ (demo_world demo_env demo_input (Accepted (done_after 2 (Succeeded hello_world)))) KEY_VAR = Some (ustr ''k3y'')"
    "files (demo_world demo_env demo_input (Accepted (done_after 2 (Succeeded hello_world)))) INPUT_FILE_PATH = Some [255, 216, 255]"
    "files (demo_world demo_env demo_input (Accepted (done_after 2 (Succeeded hello_world)))) LOG_DIR = None"
    "service (demo_world demo_env demo_input (Accepted (done_after 2 (Succeeded hello_world)))) [255, 216, 255] = Accepted (done_after 2 (Succeeded hello_world))"
    "log_file_path (clock (demo_world demo_env demo_input (Accepted (done_after 2 (Succeeded hello_world))))) \<notin> dirs (demo_world demo_env demo_input (Accepted (done_after 2 (Succeeded hello_world))))"
    by (simp_all add: demo_simps)
  have p: "poll_loop (done_after 2 (Succeeded hello_world)) 0 = Some 2"
    "done_after 2 (Succeeded hello_world) 2 = Succeeded hello_world"
    by (simp_all add: poll_loop_done_after done_after_def)
  have sp: "spec_of_result hello_world = Some hello_world_spec"
    by (simp add: spec_of_result_def spec_of_page_def spec_of_line_def hello_world_def
                  hello_line_def world_line_def hello_world_spec_def)
  have t: "text_ok int_float_repr (result_ref hello_world)"
    by (simp add: text_ok_def result_ref_def page_ref_def line_ref_def hello_world_def hello_line_def
                  world_line_def lines_of_def scalar_value_def int_float_repr_def)
  have f: "floats_ok int_float_repr int_float_read (result_ref hello_world)"
    by (rule floats_ok_int)
  show ?thesis
    using h p sp t f log_file_round_trip [OF h(1) _ h(2) _ h(3) h(4) h(5) p sp t f h(6)]
    by (simp add: demo_world_def)
qed

end
